(* ===== verification/Effects.thy ===== *)
theory Effects
  imports Prelude
begin

text \<open>
  Code that makes calls for their effect and may raise: the calls made so far, in order, and the
  outcome. An exception does not undo the calls made before it. \<open>'c\<close> is the type of the calls,
  \<open>'e\<close> that of the exceptions.
\<close>

type_synonym ('c, 'e, 'a) action = "'c list \<times> ('e + 'a)"

definition ret :: "'a \<Rightarrow> ('c, 'e, 'a) action" where
  "ret x = ([], Inr x)"

definition raise :: "'e \<Rightarrow> ('c, 'e, 'a) action" where
  "raise e = ([], Inl e)"

definition call :: "'c \<Rightarrow> ('c, 'e, unit) action" where
  "call c = ([c], Inr ())"

definition seqA :: "('c, 'e, 'a) action \<Rightarrow> ('a \<Rightarrow> ('c, 'e, 'b) action) \<Rightarrow> ('c, 'e, 'b) action" where
  "seqA m f = (case snd m of Inl e \<Rightarrow> (fst m, Inl e)
               | Inr x \<Rightarrow> (fst m @ fst (f x), snd (f x)))"

definition guardA :: "bool \<Rightarrow> 'e \<Rightarrow> ('c, 'e, unit) action" where
  "guardA b e = (if b then ret () else raise e)"

definition whenA :: "bool \<Rightarrow> ('c, 'e, unit) action \<Rightarrow> ('c, 'e, unit) action" where
  "whenA b m = (if b then m else ret ())"

text \<open>A loop whose body only makes calls.\<close>

fun forA :: "('x \<Rightarrow> ('c, 'e, unit) action) \<Rightarrow> 'x list \<Rightarrow> ('c, 'e, unit) action" where
  "forA f [] = ret ()"
| "forA f (x # xs) = seqA (f x) (\<lambda>_. forA f xs)"

text \<open>A pure part that may raise.\<close>

definition liftA :: "'e + 'a \<Rightarrow> ('c, 'e, 'a) action" where
  "liftA r = ([], r)"

named_theorems action_simps

lemma action_evals [simp, action_simps]:
  "fst (ret x) = []" "snd (ret x) = Inr x" "fst (raise e) = []" "snd (raise e) = Inl e"
  "fst (call c) = [c]" "snd (call c) = Inr ()" "fst (liftA r) = []" "snd (liftA r) = r"
  "guardA True e = ret ()" "guardA False e = raise e" "whenA True m = m" "whenA False m = ret ()"
  by (simp_all add: ret_def raise_def call_def guardA_def whenA_def liftA_def)

lemma seqA_ret [simp, action_simps]: "seqA (ret x) f = f x"
  by (simp add: seqA_def)

lemma seqA_raise [simp, action_simps]: "seqA (raise e) f = raise e"
  by (simp add: seqA_def raise_def)

lemma seqA_liftA [simp, action_simps]:
  "seqA (liftA (Inr x)) f = f x" "seqA (liftA (Inl e)) f = raise e"
  by (simp_all add: seqA_def liftA_def raise_def)

lemma seqA_Inl: "snd m = Inl e \<Longrightarrow> seqA m f = (fst m, Inl e)"
  by (simp add: seqA_def)

lemma seqA_Inr: "snd m = Inr x \<Longrightarrow> seqA m f = (fst m @ fst (f x), snd (f x))"
  by (simp add: seqA_def)

lemma snd_seqA: "snd (seqA m f) = (case snd m of Inl e \<Rightarrow> Inl e | Inr x \<Rightarrow> snd (f x))"
  by (simp add: seqA_def split: sum.split)

lemma snd_seqA_Inr_iff [action_simps]:
  "snd (seqA m f) = Inr y \<longleftrightarrow> (\<exists>x. snd m = Inr x \<and> snd (f x) = Inr y)"
  by (cases "snd m") (simp_all add: seqA_def)

lemma snd_seqA_Inl_iff [action_simps]:
  "snd (seqA m f) = Inl e \<longleftrightarrow> snd m = Inl e \<or> (\<exists>x. snd m = Inr x \<and> snd (f x) = Inl e)"
  by (cases "snd m") (simp_all add: seqA_def)

lemma fst_seqA [action_simps]:
  "snd m = Inr x \<Longrightarrow> fst (seqA m f) = fst m @ fst (f x)"
  by (simp add: seqA_def)

lemma seqA_okE:
  assumes "seqA m f = (cs, Inr y)"
  obtains cs1 x cs2 where "m = (cs1, Inr x)" "f x = (cs2, Inr y)" "cs = cs1 @ cs2"
  using assms by (cases m; cases "snd m") (auto simp: seqA_def prod_eq_iff)

lemma seqA_ok:
  "m = (cs1, Inr x) \<Longrightarrow> f x = (cs2, r) \<Longrightarrow> seqA m f = (cs1 @ cs2, r)"
  by (simp add: seqA_def)

lemma seqA_assoc: "seqA (seqA m f) g = seqA m (\<lambda>x. seqA (f x) g)"
  by (cases "snd m") (simp_all add: seqA_def split: sum.split)

lemma fst_guardA [simp, action_simps]: "fst (guardA b e) = []"
  by (simp add: guardA_def)

lemma guardA_ok_iff [action_simps]: "snd (guardA b e) = Inr u \<longleftrightarrow> b"
  by (simp add: guardA_def)

lemma guardA_error_iff [action_simps]: "snd (guardA b e) = Inl e' \<longleftrightarrow> \<not> b \<and> e' = e"
  by (auto simp: guardA_def)

text \<open>A loop that never raises makes the calls of its passes one after the other.\<close>

lemma forA_ok:
  assumes "\<And>x. x \<in> set xs \<Longrightarrow> f x = (g x, Inr ())"
  shows "forA f xs = (concat (map g xs), Inr ())"
  using assms by (induction xs) (simp_all add: seqA_def ret_def)

lemma forA_okD:
  assumes "snd (forA f xs) = Inr u"
  shows "fst (forA f xs) = concat (map (\<lambda>x. fst (f x)) xs) \<and> (\<forall>x \<in> set xs. snd (f x) = Inr ())"
  using assms by (induction xs) (auto simp: action_simps)

lemma forA_error:
  assumes "snd (forA f xs) = Inl e"
  shows "\<exists>ys x zs. xs = ys @ x # zs \<and> snd (f x) = Inl e \<and> (\<forall>y \<in> set ys. snd (f y) = Inr ())"
  using assms
proof (induction xs)
  case Nil
  then show ?case by simp
next
  case (Cons x xs)
  show ?case
  proof (cases "snd (f x)")
    case (Inl e')
    with Cons.prems show ?thesis by (intro exI [of _ "[]"]) (simp add: action_simps)
  next
    case (Inr u)
    with Cons obtain ys y zs where "xs = ys @ y # zs" "snd (f y) = Inl e"
      "\<forall>y \<in> set ys. snd (f y) = Inr ()"
      by (auto simp: action_simps)
    with Inr show ?thesis by (intro exI [of _ "x # ys"]) auto
  qed
qed

end
