(* ===== verification/Codecs.thy ===== *)
theory Codecs
  imports Effects
begin

text \<open>
  The choice of the payload types of the core: \<^verbatim>\<open>ConferenceServer::enableSelectedCodecs\<close> of
  \<^verbatim>\<open>src/src/conference/conference-server.cc\<close>. The exceptions of the server are declared here,
  since this is the first part that raises one. The string functions of the Flexisip library are
  parameters.
\<close>

section \<open>Exceptions of the server\<close>

text \<open>
  The exceptions of \<^verbatim>\<open>exceptions/bad-configuration.hh\<close>, \<^verbatim>\<open>exceptions/exit.hh\<close> and of the library,
  with the complete name of the parameter they blame and their message. \<open>MissingParameter\<close> stands
  for a lookup of a parameter that was not declared, or not with the type it is read as;
  \<open>NullPointer\<close> and \<open>EmptyFront\<close> for undefined behaviour.
\<close>

datatype server_error =
    BadConfigurationEmpty string
  | BadConfigurationValue string string
  | BadConfigurationWithHelp string string
  | BadConfiguration string
  | ExitFailure string
  | FlexisipException string
  | InvalidUrlError string
  | LibraryException string
  | MissingParameter string
  | NullPointer
  | EmptyFront

section \<open>Selecting the codecs\<close>

record string_lib =
  iequals :: "string \<Rightarrow> string \<Rightarrow> bool"
  toLower :: "string \<Rightarrow> string"
  join :: "string list \<Rightarrow> string"

text \<open>
  The loop over the payload types of the core, given by their MIME types: which ones are enabled,
  and the wanted types that remain. \<^verbatim>\<open>list::remove\<close> erases all equal elements.
\<close>

fun codec_loop :: "string_lib \<Rightarrow> string list \<Rightarrow> string list \<Rightarrow> (string \<times> bool) list \<times> string list" where
  "codec_loop L [] mimeTypes = ([], mimeTypes)"
| "codec_loop L (codec # codecs) mimeTypes =
     (if list_ex (\<lambda>mime. iequals L codec mime) mimeTypes
      then let (es, rest) = codec_loop L codecs (removeAll (toLower L codec) mimeTypes)
           in ((codec, True) # es, rest)
      else let (es, rest) = codec_loop L codecs mimeTypes
           in ((codec, False) # es, rest))"

definition enableSelectedCodecs :: "string_lib \<Rightarrow> string list \<Rightarrow> string list \<Rightarrow> string
    \<Rightarrow> (string \<times> bool, server_error, unit) action" where
  "enableSelectedCodecs L codecs mimeTypes config =
     (let (es, rest) = codec_loop L codecs mimeTypes
      in (es, if rest \<noteq> []
              then Inl (BadConfigurationValue config
                          (''unsupported codecs in the list: '' @ join L rest))
              else Inr ()))"

section \<open>What is selected\<close>

text \<open>
  What the library functions are relied on to do: \<^verbatim>\<open>iequals\<close> compares without regard to case,
  \<^verbatim>\<open>toLower\<close> gives the lower-case form, which has no other lower-case form.
\<close>

definition case_lib :: "string_lib \<Rightarrow> bool" where
  "case_lib L \<longleftrightarrow> (\<forall>a b. iequals L a b \<longleftrightarrow> toLower L a = toLower L b)
              \<and> (\<forall>a. toLower L (toLower L a) = toLower L a)"

text \<open>A payload type is the first of its MIME type in the list.\<close>

fun firsts :: "string_lib \<Rightarrow> string list \<Rightarrow> string list \<Rightarrow> bool list" where
  "firsts L seen [] = []"
| "firsts L seen (c # cs) = (toLower L c \<notin> set seen) # firsts L (toLower L c # seen) cs"

lemma codec_loop_codecs: "map fst (fst (codec_loop L codecs ms)) = codecs"
  by (induction codecs arbitrary: ms) (simp_all add: Let_def case_prod_beta)

lemma matches_lower:
  assumes "case_lib L" and "\<forall>m \<in> set ms. toLower L m = m"
  shows "list_ex (\<lambda>mime. iequals L codec mime) ms \<longleftrightarrow> toLower L codec \<in> set ms"
  using assms by (auto simp: list_ex_iff case_lib_def)

lemma codec_loop_lower:
  assumes "case_lib L" and "\<forall>m \<in> set ms. toLower L m = m"
  shows "snd (codec_loop L codecs ms) = filter (\<lambda>m. m \<notin> toLower L ` set codecs) ms"
  using assms
proof (induction codecs arbitrary: ms)
  case Nil
  then show ?case by simp
next
  case (Cons c cs)
  have "snd (codec_loop L cs (removeAll (toLower L c) ms)) =
      filter (\<lambda>m. m \<notin> toLower L ` set cs) (removeAll (toLower L c) ms)"
    using Cons by auto
  moreover have "filter (\<lambda>m. m \<notin> toLower L ` set cs) (removeAll (toLower L c) ms) =
      filter (\<lambda>m. m \<notin> toLower L ` set (c # cs)) ms"
    by (induction ms) auto
  moreover have "filter (\<lambda>m. m \<notin> toLower L ` set cs) ms =
      filter (\<lambda>m. m \<notin> toLower L ` set (c # cs)) ms" if "toLower L c \<notin> set ms"
    using that by (intro filter_cong) auto
  ultimately show ?case
    using Cons matches_lower [OF Cons.prems] by (simp add: Let_def case_prod_beta)
qed

lemma codec_loop_enabled:
  assumes "case_lib L" and "\<forall>m \<in> set ms. toLower L m = m"
  shows "map snd (fst (codec_loop L codecs (filter (\<lambda>m. m \<notin> set seen) ms))) =
    map2 (\<lambda>c b. b \<and> toLower L c \<in> set ms) codecs (firsts L seen codecs)"
proof (induction codecs arbitrary: seen)
  case Nil
  then show ?case by simp
next
  case (Cons c cs)
  let ?ms = "filter (\<lambda>m. m \<notin> set seen) ms"
  have m: "list_ex (\<lambda>mime. iequals L c mime) ?ms \<longleftrightarrow> toLower L c \<in> set ms \<and> toLower L c \<notin> set seen"
    using assms by (subst matches_lower) auto
  have rem: "removeAll (toLower L c) ?ms = filter (\<lambda>m. m \<notin> set (toLower L c # seen)) ms"
    by (auto simp: removeAll_filter_not_eq intro!: filter_cong)
  have rest: "?ms = filter (\<lambda>m. m \<notin> set (toLower L c # seen)) ms" if "toLower L c \<notin> set ?ms"
    using that by (auto intro!: filter_cong)
  show ?case
  proof (cases "toLower L c \<in> set ms \<and> toLower L c \<notin> set seen")
    case True
    then show ?thesis
      using Cons [of "toLower L c # seen"] m rem by (simp add: Let_def case_prod_beta)
  next
    case False
    then have "toLower L c \<notin> set ?ms" by auto
    from rest [OF this] Cons [of "toLower L c # seen"] False m show ?thesis
      by (simp only: codec_loop.simps firsts.simps) (auto simp: Let_def case_prod_beta)
  qed
qed

text \<open>
  C38. When the configured codec names are in lower case, the configuration is accepted exactly
  when the core has a payload type for each of them, and then the first payload type of each
  configured name is enabled and every other one is disabled.
\<close>

theorem enableSelectedCodecs_spec:
  assumes "case_lib L" and "\<forall>m \<in> set mimeTypes. toLower L m = m"
  shows "map fst (fst (enableSelectedCodecs L codecs mimeTypes config)) = codecs
    \<and> map snd (fst (enableSelectedCodecs L codecs mimeTypes config)) =
        map2 (\<lambda>c b. b \<and> toLower L c \<in> set mimeTypes) codecs (firsts L [] codecs)
    \<and> (snd (enableSelectedCodecs L codecs mimeTypes config) = Inr () \<longleftrightarrow>
        set mimeTypes \<subseteq> toLower L ` set codecs)"
proof -
  have "fst (enableSelectedCodecs L codecs mimeTypes config) = fst (codec_loop L codecs mimeTypes)"
    by (simp add: enableSelectedCodecs_def Let_def case_prod_beta)
  moreover have "snd (enableSelectedCodecs L codecs mimeTypes config) = Inr () \<longleftrightarrow>
      snd (codec_loop L codecs mimeTypes) = []"
    by (simp add: enableSelectedCodecs_def Let_def case_prod_beta)
  ultimately show ?thesis
    using codec_loop_lower [OF assms, of codecs] codec_loop_enabled [OF assms, of codecs "[]"]
    by (auto simp: codec_loop_codecs filter_empty_conv)
qed

definition ascii_cases :: "(char \<times> char) list" where
  "ascii_cases = zip ''ABCDEFGHIJKLMNOPQRSTUVWXYZ'' ''abcdefghijklmnopqrstuvwxyz''"

definition ascii_lower :: "char \<Rightarrow> char" where
  "ascii_lower c = (case map_of ascii_cases c of None \<Rightarrow> c | Some d \<Rightarrow> d)"

definition sample_lib :: string_lib where
  "sample_lib = \<lparr>iequals = (\<lambda>a b. map ascii_lower a = map ascii_lower b),
                 toLower = map ascii_lower, join = concat\<rparr>"

lemma ascii_lower_idem: "ascii_lower (ascii_lower c) = ascii_lower c"
proof (cases "map_of ascii_cases c")
  case None
  then show ?thesis by (simp add: ascii_lower_def)
next
  case (Some d)
  then have "d \<in> snd ` set ascii_cases" by (force dest: map_of_SomeD)
  moreover have "\<forall>p \<in> set ascii_cases. map_of ascii_cases (snd p) = None"
    by (simp add: ascii_cases_def)
  ultimately show ?thesis using Some by (auto simp: ascii_lower_def)
qed

lemma sample_lib_ok: "case_lib sample_lib"
  by (simp add: case_lib_def sample_lib_def ascii_lower_idem)

theorem enableSelectedCodecs_spec_witness:
  "snd (enableSelectedCodecs sample_lib [''opus'', ''speex'', ''speex'', ''PCMU'']
          [''opus'', ''pcmu''] ''c'') = Inr ()
   \<and> map snd (fst (enableSelectedCodecs sample_lib [''opus'', ''speex'', ''speex'', ''PCMU'']
          [''opus'', ''pcmu''] ''c'')) = [True, False, False, True]"
proof -
  have "\<forall>m \<in> set [''opus'', ''pcmu'']. toLower sample_lib m = m"
    by (simp add: sample_lib_def ascii_lower_def ascii_cases_def)
  note spec = enableSelectedCodecs_spec [OF sample_lib_ok this,
      of "[''opus'', ''speex'', ''speex'', ''PCMU'']" "''c''"]
  show ?thesis
    using spec [THEN conjunct2] by (simp add: sample_lib_def ascii_lower_def ascii_cases_def)
qed

text \<open>
  C39. A configured codec name with an upper-case letter is never accepted, although every payload
  type of the core with that name, in whatever case, is recognised and enabled: the names are compared
  without regard to case but removed from the list of wanted names by exact comparison with the
  lower-case form.
\<close>

theorem upper_case_codec_rejected:
  assumes "case_lib L" and "m \<in> set mimeTypes" and "toLower L m \<noteq> m"
  shows "(\<exists>msg. snd (enableSelectedCodecs L codecs mimeTypes config) = Inl (BadConfigurationValue config msg))
    \<and> (\<forall>i < length codecs. toLower L (codecs ! i) = toLower L m \<longrightarrow>
         fst (enableSelectedCodecs L codecs mimeTypes config) ! i = (codecs ! i, True))"
proof -
  have "m \<in> set (snd (codec_loop L codecs ms))
      \<and> (\<forall>i < length codecs. toLower L (codecs ! i) = toLower L m \<longrightarrow>
           fst (codec_loop L codecs ms) ! i = (codecs ! i, True))" if "m \<in> set ms" for ms
    using that
  proof (induction codecs arbitrary: ms)
    case Nil
    then show ?case by simp
  next
    case (Cons c cs)
    have "toLower L c \<noteq> m" using assms(1,3) by (auto simp: case_lib_def)
    with Cons.prems have rem: "m \<in> set (removeAll (toLower L c) ms)" by simp
    have "list_ex (\<lambda>mime. iequals L c mime) ms" if "toLower L c = toLower L m"
      using that assms(1) Cons.prems by (auto simp: list_ex_iff case_lib_def)
    with Cons.IH [OF rem] Cons.IH [OF Cons.prems] show ?case
      by (auto simp: Let_def case_prod_beta nth_Cons split: nat.split)
  qed
  from this [OF assms(2)] show ?thesis
    by (auto simp: enableSelectedCodecs_def Let_def case_prod_beta)
qed

theorem upper_case_codec_rejected_witness:
  "(\<exists>msg. snd (enableSelectedCodecs sample_lib [''pcmu'', ''opus'', ''OPUS''] [''Opus''] ''c'') =
           Inl (BadConfigurationValue ''c'' msg))
   \<and> fst (enableSelectedCodecs sample_lib [''pcmu'', ''opus'', ''OPUS''] [''Opus''] ''c'') ! 1 = (''opus'', True)
   \<and> fst (enableSelectedCodecs sample_lib [''pcmu'', ''opus'', ''OPUS''] [''Opus''] ''c'') ! 2 = (''OPUS'', True)"
proof -
  have "toLower sample_lib ''Opus'' \<noteq> ''Opus''"
    by (simp add: sample_lib_def ascii_lower_def ascii_cases_def)
  note spec = upper_case_codec_rejected [OF sample_lib_ok _ this, of "[''Opus'']" "[''pcmu'', ''opus'', ''OPUS'']" "''c''"]
  show ?thesis
    using spec [THEN conjunct1] spec [THEN conjunct2, rule_format, of 1] spec [THEN conjunct2, rule_format, of 2]
    by (simp add: sample_lib_def ascii_lower_def ascii_cases_def)
qed

end
