(* ===== verification/Config.thy ===== *)
theory Config
  imports Codecs
begin

text \<open>
  The section \<^verbatim>\<open>conference-server\<close> of the configuration as
  \<^verbatim>\<open>src/src/conference/conference-server.cc\<close> declares it, how the server reads it, and the two
  readers that stand alone: \<^verbatim>\<open>getChatRoomsHandlingSet\<close> and \<^verbatim>\<open>loadFactoryUris\<close>. The configuration itself (a \<^verbatim>\<open>GenericStruct\<close> of the library, with
  the values of the file) is a map from names to values.
\<close>

section \<open>The declared parameters\<close>

datatype config_type = Boolean | Integer | IntegerRange | String | StringList | DurationS

record ConfigItem =
  item_type :: config_type
  item_name :: string
  item_help :: string
  item_default :: string

definition config_item :: "config_type \<Rightarrow> string \<Rightarrow> string \<Rightarrow> string \<Rightarrow> ConfigItem" where
  "config_item t n h d = \<lparr>item_type = t, item_name = n, item_help = h, item_default = d\<rparr>"

text \<open>A text of several lines.\<close>

fun lines :: "string list \<Rightarrow> string" where
  "lines [] = []"
| "lines [l] = l"
| "lines (l # ls) = l @ CHR 0x0A # lines ls"

definition server_items_network :: "ConfigItem list" where
  "server_items_network = [
     config_item String ''transport''
       (lines [''Unique SIP URI on which the server is listening.''])
       ''sip:127.0.0.1:6064;transport=tcp'',
     config_item StringList ''conference-factory-uris''
       (lines [(''List of SIP URIs used by clients to create conferences. This implicitly defines the ''
         @ ''list of SIP domains managed by the conference server. Example:''),
         ''sip:conference-factory@sip.linphone.org sip:conference-factory@sip.linhome.org''])
       '''',
     config_item StringList ''conference-focus-uris''
       (lines [(''List of template focus URIs to use when conferences are created through the conference ''
         @ ''factory.''),
         (''Focus URIs are unique SIP URIs targeting a specific conference. A 'conf-id' URI ''
         @ ''parameter providing uniqueness is automatically appended at runtime. Example, setting:''),
         ''conference-focus-uris=sip:conference-focus@sip.linphone.org'',
         (''instructs the server to generate conference URIs in the form of ''
         @ (CHR 0x27 # ''sip:conference-focus@sip.linphone.org;conf-id=<random string>'' @ [CHR 0x27])),
         ''when a client requests to create a conference.''])
       '''',
     config_item String ''outbound-proxy''
       (lines [''The SIP proxy URI to which the server will send all outgoing requests.''])
       ''sip:127.0.0.1:5060;transport=tcp'',
     config_item StringList ''local-domains''
       (lines [(''Domains managed by the local SIP service, i.e. domains for which user registration ''
         @ ''information can be found directly in the local registrar database (Redis database).''),
         (''For external domains (not in this list), a 'reg' SUBSCRIBE (RFC3680) will be emitted. ''
         @ ''It is not necessary to list domains that appear in the 'conference-factory-uris' ''
         @ ''property. They are assumed to be local domains already.''),
         ''Example: sip.linphone.org conf.linphone.org linhome.org''])
       '''',
     config_item IntegerRange ''audio-port''
       (lines [(''Audio port to use for RTP and RTCP traffic. You can set a specific port, a range of ''
         @ ''ports or let the server ask the kernel for an available port (special value: 0).''),
         (''Examples: 'audio-port=0' or 'audio-port=12345' or 'audio-port=1024-65535'' @ [CHR 0x27])])
       ''0'',
     config_item IntegerRange ''video-port''
       (lines [(''Video port to use for RTP and RTCP traffic. You can set a specific port, a range of ''
         @ ''ports or let the server ask the kernel for an available port (special value: 0).''),
         (''Examples: 'video-port=0' or 'video-port=12345' or 'video-port=1024-65535'' @ [CHR 0x27])])
       ''0'',
     config_item String ''database-backend''
       (lines [(''Type of database the server will use to store chat room and conference data. Provided ''
         @ ''that the required Soci modules are installed, the supported databases are: `mysql`, ''
         @ ''`sqlite3`'')])
       ''mysql'',
     config_item String ''database-connection-string''
       (lines [''Configuration parameters of the database to store chat room and conference data.'',
         (''The basic format is \"key=value key2=value2\".For MySQL, the following is a valid ''
         @ ''configuration: db='mydb' user='myuser' password='mypass' host='myhost.com'.''),
         ''Please refer to the Soci documentation of your selected backend:'',
         ''https://soci.sourceforge.net/doc/release/3.2/backends/mysql.html'',
         ''https://soci.sourceforge.net/doc/release/3.2/backends/sqlite3.html''])
       (''db='mydb' user='myuser' password='mypass' host='myhost.com'' @ [CHR 0x27]),
     config_item Boolean ''check-capabilities''
       (lines [''True to make the server check device capabilities before inviting them to a session.'',
         (''The capability check is currently limited to Linphone clients that put a ''
         @ (CHR 0x27 # ''+org.linphone.specs' contact parameter. This parameter indicates whether they support '')
         @ ''group chat and secured group chat or not.'')])
       ''true'',
     config_item StringList ''supported-media-types''
       (lines [''List of media types supported by the server.'',
         (''This allows to specify if this instance is able to provide chat services or audio/video ''
         @ ''conference services, or both.''),
         ''This parameter cannot be empty.'',
         ''If 'text' media type is enabled, 'database-connection-string' must be set.'',
         ''Valid values: 'audio', 'video', 'text'.'',
         ''Example: audio video text''])
       ''text'',
     config_item StringList ''supported-audio-codecs''
       (lines [''List of audio codecs supported by the server.'',
         (''This allows to specify which audio codecs this instance is able to provide for ''
         @ ''audio/video conferences.''),
         ''If audio-engine-mode is set to 'sfu' then only the first codec is used.'',
         ''This parameter cannot be empty.'',
         ''Example: opus speex pcmu pcma''])
       ''opus speex pcmu pcma'',
     config_item String ''supported-video-codec''
       (lines [''Video codec supported by the server.'',
         (''This allows to specify which video codec this instance is able to provide for video ''
         @ ''conferences.''),
         ''This parameter cannot be empty.'',
         ''Valid values: 'vp8'.''])
       ''vp8'']"

definition server_items_service :: "ConfigItem list" where
  "server_items_service = [
     config_item String ''audio-engine-mode''
       (lines [(''Valid values: 'mixer', 'semi-sfu', 'sfu'' @ [CHR 0x27]),
         (''- 'mixer': The server mixes all relevant streams before sending the final computed ''
         @ ''stream to participants. This mode is quite compute-intensive because it involves ''
         @ ''several decoding/encoding operations.''),
         (''- 'semi-sfu': The server only forwards relevant streams to participants without any ''
         @ ''decoding/encoding operations. However, RTP headers are re-written by the server.''),
         (''- 'sfu': The server only forwards relevant streams to participants without any ''
         @ ''decoding/encoding operations and with only slight modifications made to RTP headers. ''
         @ ''This is the mode required for end-to-end encryption.''),
         ''''])
       ''mixer'',
     config_item String ''video-engine-mode''
       (lines [(''Valid values: 'semi-sfu', 'sfu'' @ [CHR 0x27]),
         (''- 'semi-sfu': The server only forwards relevant streams to participants without any ''
         @ ''decoding/encoding operations. However, RTP headers are re-written by the server.''),
         (''- 'sfu': The server only forwards relevant streams to participants without any ''
         @ ''decoding/encoding operations and with only slight modifications made to RTP headers. ''
         @ ''This is the mode required for end-to-end encryption.''),
         ''''])
       ''semi-sfu'',
     config_item String ''encryption''
       (lines [(''Type of media encryption the server will offer when calling participants to an audio or ''
         @ ''video conference.''),
         ''Valid values: none, sdes, zrtp, dtls-srtp.''])
       ''none'',
     config_item StringList ''nat-addresses''
       (lines [''Public host name or IP addresses of the server.'',
         (''Setting this parameter is required when the conference server is deployed behind a ''
         @ ''firewall. This way, public IP address (v4, v6) can be advertised in SDP, as ICE ''
         @ ''server-reflexive candidates in order for the server to receive RTP media packets from ''
         @ ''clients.''),
         (''If no hostname is given, the v4 and v6 IP addresses can be listed, in any order. It is ''
         @ ''not possible to configure several v4 addresses or several v6 addresses.''),
         ''Examples:'',
         ''nat-addresses=conference.linphone.org'',
         ''nat-addresses=5.135.31.160  2001:41d0:303:3aee::1''])
       '''',
     config_item Boolean ''empty-chat-room-deletion''
       (lines [''Server shall delete chat rooms that have no registered participants.''])
       ''true'',
     config_item String ''state-directory''
       (lines [''Directory where the server state files are stored.'',
         ''''])
       ''/var/opt/belledonne-communications/flexisip-conference/lib'',
     config_item DurationS ''subscription-refresh-delay''
       (lines [''Delay before refreshing external subscriptions to the regevent-server.'',
         (''It is not recommended to reduce this parameter below 1 minute as refreshing all ''
         @ ''subscriptions generates a significant traffic.'')])
       ''10min'',
     config_item DurationS ''call-timeout''
       (lines [''Server will kill all incoming calls that last longer than the defined value.'',
         ''Special value 0 disables this feature.''])
       ''0'',
     config_item DurationS ''no-rtp-timeout''
       (lines [(''Duration after which the server will terminate a call if no RTP packets are received ''
         @ ''from the other call participant. For performance reasons, this parameter cannot be ''
         @ ''disabled.'')])
       ''30'',
     config_item Boolean ''cleanup-expired-conferences''
       (lines [''If enabled, the conference server will periodically remove all expired conferences.''])
       ''true'',
     config_item DurationS ''conferences-availability-before-start''
       (lines [(''Duration used to set how long before the start time of a conference it is possible to ''
         @ ''join it.'')])
       ''100y'',
     config_item DurationS ''conferences-expiry-time''
       (lines [''Duration after the end of the conference for which it is still possible to join it.'',
         (''The end of a conference, here, is the latest time between the scheduled end time, and ''
         @ ''the time when the last participant has left.'')])
       ''30d'',
     config_item Integer ''max-participants-per-chatroom''
       (lines [''Sets the maximum number of participants a chatroom can support on this server.'',
         ''0 means that there is no upper limit.''])
       ''50'',
     config_item Boolean ''chatroom-address-unification''
       (lines [''If enabled, the chatroom address unification process will be done at startup.'',
         (''This process will make all chatrooms addressable with an address following the pattern ''
         @ (CHR 0x27 # ''<conference-focus>;conf-id=<random_string>'.'')),
         (''Chatrooms are still addressable using the old address, though. Nevertheless a ''
         @ ''preference is given to the unified address to benefit of better routing.''),
         (''No migration is performed for chatrooms whose address is already following the ''
         @ ''migration pattern.'')])
       ''false'',
     config_item Boolean ''database-migration-on-startup''
       (lines [''If enabled, the server will migrate the database to the latest version on startup.'',
         (''If not, the database scheme will not be created and you are responsible to ensure that ''
         @ ''it has been created beforehand.'')])
       ''true'',
     config_item String ''handled-chatroom-category''
       (lines [''Sets the category of chatrooms that will be handled by this server.'',
         ''Possible values:'',
         (CHR 0x27 # ''all' -> Handle all chatrooms.''),
         (CHR 0x27 # ''legacy' -> Handle only legacy chatrooms.''),
         (CHR 0x27 # ''focus' -> Handle only chatrooms whose address matches 'conference-focus-uris'.''),
         (CHR 0x27 # ''legacy-and-focus' -> Handle 'legacy' and 'focus' chatrooms.'')])
       ''all'',
     config_item Boolean ''enabled''
       (lines [''Enable conference server''])
       ''true'']"

text \<open>What the section looks up of its items.\<close>

lemma config_item_simps [simp]:
  "item_type (config_item t n h d) = t" "item_name (config_item t n h d) = n"
  by (simp_all add: config_item_def)

declare lines.simps [simp del]

record ConfigSection =
  section_name :: string
  section_help :: string
  section_items :: "ConfigItem list"
  section_deprecated :: "(string \<times> string \<times> string \<times> string) list"
    \<comment> \<open>parameter, date, version, reason\<close>

definition server_section :: ConfigSection where
  "server_section =
     \<lparr>section_name = ''conference-server'',
      section_help = lines [
         ''Flexisip conference server parameters.'',
         ''The Flexisip conference server manages group chat and audio/video conferences.'',
         (''It follows the concepts of RFC4579 for conference establishment and management. Factory ''
         @ ''and focus URIs must be configured.''),
         (''The server requires a MariaDB/MySQL database in order to store chatroom or conference ''
         @ ''states (participants and their devices).''),
         (''For chatting capabilities, the server requires a Registrar backend (see section ''
         @ ''module::Registrar) to discover devices (or client instances) of each participant. This ''
         @ ''requirement creates an explicit dependency on the Flexisip proxy server. Please note ''
         @ ''that this dependency is not required for audio/video conferences.'')],
      section_items = server_items_network @ server_items_service,
      section_deprecated = [(''enabled'', ''2026-06-02'', ''1.0.0'', ''This parameter is always true.'')]\<rparr>"

section \<open>Reading\<close>

text \<open>The value of a parameter, by type; a duration in milliseconds.\<close>

datatype config_value = VBoolean bool | VInteger int | VRange int int | VString string
  | VList "string list" | VDuration int

type_synonym config = "string \<rightharpoonup> config_value"

definition getString :: "config \<Rightarrow> string \<Rightarrow> server_error + string" where
  "getString cfg n = (case cfg n of Some (VString s) \<Rightarrow> Inr s | _ \<Rightarrow> Inl (MissingParameter n))"

definition getList :: "config \<Rightarrow> string \<Rightarrow> server_error + string list" where
  "getList cfg n = (case cfg n of Some (VList l) \<Rightarrow> Inr l | _ \<Rightarrow> Inl (MissingParameter n))"

definition getBool :: "config \<Rightarrow> string \<Rightarrow> server_error + bool" where
  "getBool cfg n = (case cfg n of Some (VBoolean b) \<Rightarrow> Inr b | _ \<Rightarrow> Inl (MissingParameter n))"

definition getInt :: "config \<Rightarrow> string \<Rightarrow> server_error + int" where
  "getInt cfg n = (case cfg n of Some (VInteger i) \<Rightarrow> Inr i | _ \<Rightarrow> Inl (MissingParameter n))"

definition getRange :: "config \<Rightarrow> string \<Rightarrow> server_error + int \<times> int" where
  "getRange cfg n = (case cfg n of Some (VRange a b) \<Rightarrow> Inr (a, b) | _ \<Rightarrow> Inl (MissingParameter n))"

definition getDuration :: "config \<Rightarrow> string \<Rightarrow> server_error + int" where
  "getDuration cfg n = (case cfg n of Some (VDuration d) \<Rightarrow> Inr d | _ \<Rightarrow> Inl (MissingParameter n))"

text \<open>\<^verbatim>\<open>duration_cast<seconds>\<close> truncates towards zero.\<close>

definition seconds_of :: "int \<Rightarrow> int" where
  "seconds_of ms = (if ms < 0 then - ((- ms) div 1000) else ms div 1000)"

text \<open>
  A configuration that was loaded for the declared section: each declared parameter has a value
  of its type.
\<close>

fun value_type :: "config_value \<Rightarrow> config_type" where
  "value_type (VBoolean b) = Boolean"
| "value_type (VInteger i) = Integer"
| "value_type (VRange a b) = IntegerRange"
| "value_type (VString s) = String"
| "value_type (VList l) = StringList"
| "value_type (VDuration d) = DurationS"

definition declared :: "config_type \<Rightarrow> string \<Rightarrow> bool" where
  "declared t n \<longleftrightarrow>
     list_ex (\<lambda>it. item_name it = n \<and> item_type it = t) (section_items server_section)"

definition loaded :: "config \<Rightarrow> bool" where
  "loaded cfg \<longleftrightarrow>
     list_all (\<lambda>it. case cfg (item_name it) of None \<Rightarrow> False | Some v \<Rightarrow> value_type v = item_type it)
       (section_items server_section)"

text \<open>The names and types alone, without the help texts.\<close>

lemma section_types:
  "map (\<lambda>it. (item_name it, item_type it)) (section_items server_section) =
    [(''transport'', String),
     (''conference-factory-uris'', StringList),
     (''conference-focus-uris'', StringList),
     (''outbound-proxy'', String),
     (''local-domains'', StringList),
     (''audio-port'', IntegerRange),
     (''video-port'', IntegerRange),
     (''database-backend'', String),
     (''database-connection-string'', String),
     (''check-capabilities'', Boolean),
     (''supported-media-types'', StringList),
     (''supported-audio-codecs'', StringList),
     (''supported-video-codec'', String),
     (''audio-engine-mode'', String),
     (''video-engine-mode'', String),
     (''encryption'', String),
     (''nat-addresses'', StringList),
     (''empty-chat-room-deletion'', Boolean),
     (''state-directory'', String),
     (''subscription-refresh-delay'', DurationS),
     (''call-timeout'', DurationS),
     (''no-rtp-timeout'', DurationS),
     (''cleanup-expired-conferences'', Boolean),
     (''conferences-availability-before-start'', DurationS),
     (''conferences-expiry-time'', DurationS),
     (''max-participants-per-chatroom'', Integer),
     (''chatroom-address-unification'', Boolean),
     (''database-migration-on-startup'', Boolean),
     (''handled-chatroom-category'', String),
     (''enabled'', Boolean)]"
  by (simp add: server_section_def server_items_network_def server_items_service_def config_item_def)

lemma declared_iff:
  "declared t n \<longleftrightarrow> (n, t) \<in> set (map (\<lambda>it. (item_name it, item_type it)) (section_items server_section))"
  by (auto simp: declared_def list_ex_iff)

lemma loaded_declared:
  assumes "loaded cfg" and "declared t n"
  obtains v where "cfg n = Some v" "value_type v = t"
  using assms by (fastforce simp: loaded_def declared_def list_all_iff list_ex_iff split: option.splits)

lemma get_declared:
  assumes "loaded cfg"
  shows "declared String n \<Longrightarrow> \<exists>s. getString cfg n = Inr s"
    and "declared StringList n \<Longrightarrow> \<exists>l. getList cfg n = Inr l"
    and "declared Boolean n \<Longrightarrow> \<exists>b. getBool cfg n = Inr b"
    and "declared Integer n \<Longrightarrow> \<exists>i. getInt cfg n = Inr i"
    and "declared IntegerRange n \<Longrightarrow> \<exists>p. getRange cfg n = Inr p"
    and "declared DurationS n \<Longrightarrow> \<exists>d. getDuration cfg n = Inr d"
  using loaded_declared [OF assms, of _ n]
  by (auto simp: getString_def getList_def getBool_def getInt_def getRange_def getDuration_def
      split: config_value.splits; fastforce elim!: value_type.elims)+

text \<open>
  Every parameter of the section is declared once, so a lookup by name finds one type; and
  the only deprecated one is declared.
\<close>

lemma parameters_declared_once:
  "distinct (map item_name (section_items server_section))
   \<and> (\<forall>(n, d, v, r) \<in> set (section_deprecated server_section).
        n \<in> set (map item_name (section_items server_section)))
   \<and> (declared t n \<longrightarrow> declared t' n \<longrightarrow> t = t')"
proof -
  have d: "distinct (map item_name (section_items server_section))"
    by (simp add: server_section_def server_items_network_def server_items_service_def)
  have "t = t'" if "declared t n" "declared t' n"
  proof -
    from that obtain a b where "a \<in> set (section_items server_section)" "item_name a = n" "item_type a = t"
      "b \<in> set (section_items server_section)" "item_name b = n" "item_type b = t'"
      by (auto simp: declared_def list_ex_iff)
    with d show ?thesis by (metis distinct_map inj_on_def)
  qed
  moreover have "\<forall>(n, d, v, r) \<in> set (section_deprecated server_section).
      n \<in> set (map item_name (section_items server_section))"
    by (simp add: server_section_def server_items_service_def)
  ultimately show ?thesis using d by blast
qed

section \<open>Which chat rooms are handled\<close>

datatype HandlingSet = All | LegacyOnly | AssociatedToFocusOnly | LegacyAndAssociatedToFocus

definition getChatRoomsHandlingSet :: "string \<Rightarrow> string \<Rightarrow> server_error + HandlingSet" where
  "getChatRoomsHandlingSet config value =
     (if value = ''all'' then Inr All
      else if value = ''legacy'' then Inr LegacyOnly
      else if value = ''focus'' then Inr AssociatedToFocusOnly
      else if value = ''legacy-and-focus'' then Inr LegacyAndAssociatedToFocus
      else Inl (BadConfigurationValue config ''unsupported value''))"

section \<open>The factory and focus URIs\<close>

text \<open>
  The loop over the factory URIs with the iterator over the focus URIs; \<open>acc\<close> is
  \<^verbatim>\<open>mConfServerUris\<close>. \<open>message\<close> is the text of the exception.
\<close>

fun factory_loop :: "string \<Rightarrow> string list \<Rightarrow> string list \<Rightarrow> (string \<times> string) list
    \<Rightarrow> server_error + (string \<times> string) list" where
  "factory_loop message [] focus_it acc = Inr acc"
| "factory_loop message (factoryUri # rest) [] acc = Inl (BadConfiguration message)"
| "factory_loop message (factoryUri # rest) (focus # focus_it) acc =
     factory_loop message rest focus_it (acc @ [(factoryUri, focus)])"

definition loadFactoryUris :: "(nat \<Rightarrow> string) \<Rightarrow> config \<Rightarrow> (string \<times> string) list
    \<Rightarrow> server_error + (string \<times> string) list" where
  "loadFactoryUris to_string cfg confServerUris =
     bindE (getList cfg ''conference-factory-uris'') (\<lambda>conferenceFactoryUris.
     bindE (getList cfg ''conference-focus-uris'') (\<lambda>conferenceFocusUris.
       factory_loop
         (''number of factory SIP URIs ('' @ to_string (length conferenceFactoryUris)
            @ '') must match the number of focus SIP URIs ('' @ to_string (length conferenceFocusUris) @ '')'')
         conferenceFactoryUris conferenceFocusUris confServerUris))"

lemma factory_loop_eq:
  "factory_loop msg fs gs acc =
     (if length fs \<le> length gs then Inr (acc @ zip fs gs) else Inl (BadConfiguration msg))"
  by (induction msg fs gs acc rule: factory_loop.induct) auto

text \<open>
  Each factory URI is paired with the focus URI at the same position. The configuration is
  refused exactly when there are fewer focus URIs than factory URIs; although the message says
  that the numbers must match, focus URIs in excess are ignored, and an empty list of factory
  URIs is accepted.
\<close>

lemma loadFactoryUris_spec:
  assumes "getList cfg ''conference-factory-uris'' = Inr factories"
    and "getList cfg ''conference-focus-uris'' = Inr focuses"
  shows "if length factories \<le> length focuses
         then loadFactoryUris to_string cfg uris = Inr (uris @ zip factories focuses)
         else \<exists>msg. loadFactoryUris to_string cfg uris = Inl (BadConfiguration msg)"
  using assms by (auto simp: loadFactoryUris_def factory_loop_eq)

definition uris_config :: config where
  "uris_config = [''conference-factory-uris'' \<mapsto> VList [''sip:f@a''],
                  ''conference-focus-uris'' \<mapsto> VList [''sip:g@a'', ''sip:h@a'']]"

lemma loadFactoryUris_spec_example:
  "loadFactoryUris (\<lambda>n. ''n'') uris_config [] = Inr [(''sip:f@a'', ''sip:g@a'')]"
  using loadFactoryUris_spec [of uris_config "[''sip:f@a'']" "[''sip:g@a'', ''sip:h@a'']" "\<lambda>n. ''n''" "[]"]
  by (simp add: getList_def uris_config_def)

end
