(* ===== verification/StateDir.thy ===== *)
theory StateDir
  imports Config
begin

text \<open>
  The state directory of the server and the UUID it keeps there: \<^verbatim>\<open>getStateDir\<close>,
  \<^verbatim>\<open>ensureDirectoryCreated\<close>, \<^verbatim>\<open>getUuidFilePath\<close>, \<^verbatim>\<open>readUuid\<close>, \<^verbatim>\<open>writeUuid\<close> of
  \<^verbatim>\<open>conference-server.cc\<close>. \<open>os\<close> is what the operating system answers; the contents of the files
  are a state of their own.
\<close>

section \<open>Paths\<close>

text \<open>\<^verbatim>\<open>std::filesystem::path::append\<close> for POSIX paths.\<close>

definition path_append :: "string \<Rightarrow> string \<Rightarrow> string" where
  "path_append p q =
     (if q \<noteq> [] \<and> hd q = CHR ''/'' then q
      else if p = [] \<or> last p = CHR ''/'' then p @ q
      else p @ ''/'' @ q)"

definition getStateDir :: "string \<Rightarrow> string \<Rightarrow> string" where
  "getStateDir stateDir subdir = path_append stateDir subdir"

definition getUuidFilePath :: "string \<Rightarrow> string" where
  "getUuidFilePath stateDir = path_append (getStateDir stateDir '''') ''uuid''"

section \<open>The operating system\<close>

datatype stat_result = StatOk | StatENOENT | StatError

record os =
  os_stat :: "string \<Rightarrow> stat_result"
  os_system :: "string \<Rightarrow> int"  \<comment> \<open>exit status of the command, \<open>-1\<close> if it could not run\<close>
  os_can_read :: "string \<Rightarrow> bool"
  os_can_write :: "string \<Rightarrow> bool"

datatype os_call = System string | WriteFile string string

text \<open>The contents of the files after the calls made so far.\<close>

definition upd_file :: "os_call \<Rightarrow> (string \<rightharpoonup> string) \<Rightarrow> (string \<rightharpoonup> string)" where
  "upd_file x m = (case x of WriteFile p s \<Rightarrow> m(p \<mapsto> s) | System _ \<Rightarrow> m)"

definition files_after :: "os_call list \<Rightarrow> (string \<rightharpoonup> string) \<Rightarrow> (string \<rightharpoonup> string)" where
  "files_after cs m = fold upd_file cs m"

definition ensureDirectoryCreated :: "os \<Rightarrow> string \<Rightarrow> (os_call, server_error, unit) action" where
  "ensureDirectoryCreated sys directory =
     (if os_stat sys directory = StatENOENT
      then let command = ''mkdir -p'' @ '' \"'' @ directory @ ''\"''
           in seqA (call (System command)) (\<lambda>_.
                guardA (os_system sys command = 0)
                  (FlexisipException (''directory '' @ [CHR 0x27] @ directory @ [CHR 0x27] @
                    '' does not exist and could not be created (insufficient permissions?), please create it manually'')))
      else ret ())"

section \<open>The UUID\<close>

definition is_space :: "char \<Rightarrow> bool" where
  "is_space c \<longleftrightarrow> c \<in> {CHR 0x20, CHR 0x09, CHR 0x0A, CHR 0x0B, CHR 0x0C, CHR 0x0D}"

text \<open>\<^verbatim>\<open>operator>>\<close> into a string: the first word of the stream, or the empty string.\<close>

definition first_word :: "string \<Rightarrow> string" where
  "first_word s = takeWhile (\<lambda>c. \<not> is_space c) (dropWhile is_space s)"

text \<open>The new \<^verbatim>\<open>mUuid\<close>.\<close>

definition readUuid :: "os \<Rightarrow> (string \<rightharpoonup> string) \<Rightarrow> string \<Rightarrow> string" where
  "readUuid sys files stateDir =
     (let path = getUuidFilePath stateDir
      in case files path of
           None \<Rightarrow> ''''
         | Some content \<Rightarrow> (if \<not> os_can_read sys path then '''' else first_word content))"

text \<open>
  \<^verbatim>\<open>mUuid\<close> is set before the file is opened, and stays so when the file cannot be written.
\<close>

definition writeUuid :: "os \<Rightarrow> string \<Rightarrow> string \<Rightarrow> (os_call, server_error, string) action" where
  "writeUuid sys stateDir uuid =
     seqA (ensureDirectoryCreated sys (getStateDir stateDir '''')) (\<lambda>_.
       let mUuid = uuid; path = getUuidFilePath stateDir
       in if \<not> os_can_write sys path then ret mUuid
          else seqA (call (WriteFile path uuid)) (\<lambda>_. ret mUuid))"

section \<open>Properties\<close>

lemma uuid_path:
  "getUuidFilePath d = (if d = [] then ''uuid'' else if last d = CHR ''/'' then d @ ''uuid''
                        else d @ ''/uuid'')"
  by (simp add: getUuidFilePath_def getStateDir_def path_append_def)

lemma first_word_word:
  assumes "\<forall>c \<in> set u. \<not> is_space c"
  shows "first_word u = u"
proof -
  have "dropWhile is_space u = u"
    using assms by (cases u) simp_all
  moreover have "takeWhile (\<lambda>c. \<not> is_space c) u = u"
    using assms by (simp add: takeWhile_eq_all_conv)
  ultimately show ?thesis by (simp add: first_word_def)
qed

text \<open>
  C40. A UUID without white space that was written is the one read at the next start, if the file
  could be written and can be read; the file is \<^verbatim>\<open>uuid\<close> in the state directory, and the directory
  is created first when it does not exist.
\<close>

theorem uuid_roundtrip:
  assumes "writeUuid sys d u = (cs, Inr u')" and "\<forall>c \<in> set u. \<not> is_space c"
    and "os_can_write sys (getUuidFilePath d)" and "os_can_read sys' (getUuidFilePath d)"
  shows "u' = u \<and> readUuid sys' (files_after cs files) d = u
    \<and> (os_stat sys (getStateDir d '''') = StatENOENT \<longrightarrow>
        cs = [System (''mkdir -p \"'' @ getStateDir d '''' @ ''\"''), WriteFile (getUuidFilePath d) u])"
proof -
  from assms(1,3) obtain ds where
    cs: "cs = ds @ [WriteFile (getUuidFilePath d) u]" "u' = u"
    and ds: "ensureDirectoryCreated sys (getStateDir d '''') = (ds, Inr ())"
    by (auto simp: writeUuid_def Let_def call_def ret_def elim!: seqA_okE)
  from cs(1) have "files_after cs files (getUuidFilePath d) = Some u"
    by (simp add: files_after_def upd_file_def)
  then have "readUuid sys' (files_after cs files) d = u"
    using assms(2,4) by (simp add: readUuid_def Let_def first_word_word)
  moreover have "ds = [System (''mkdir -p \"'' @ getStateDir d '''' @ ''\"'')]"
    if "os_stat sys (getStateDir d '''') = StatENOENT"
    using ds that by (auto simp: ensureDirectoryCreated_def Let_def seqA_def guardA_def call_def ret_def
        raise_def split: if_splits)
  ultimately show ?thesis using cs by auto
qed

definition sample_os :: os where
  "sample_os = \<lparr>os_stat = (\<lambda>_. StatENOENT), os_system = (\<lambda>_. 0), os_can_read = (\<lambda>_. True),
                os_can_write = (\<lambda>_. True)\<rparr>"

theorem uuid_roundtrip_witness:
  "readUuid sample_os (files_after [System ''mkdir -p \"/var/\"'', WriteFile ''/var/uuid'' ''abc''] Map.empty) ''/var''
     = ''abc''"
proof -
  have "writeUuid sample_os ''/var'' ''abc'' =
      ([System ''mkdir -p \"/var/\"'', WriteFile ''/var/uuid'' ''abc''], Inr ''abc'')"
    by (simp add: writeUuid_def ensureDirectoryCreated_def sample_os_def getStateDir_def
        uuid_path path_append_def seqA_def call_def ret_def guardA_def)
  from uuid_roundtrip [OF this, of sample_os Map.empty] show ?thesis
    by (simp add: sample_os_def is_space_def uuid_path)
qed

end
