(* ===== verification/ThirdParty.thy ===== *)
theory ThirdParty
  imports Prelude "HOL-Library.Word"
begin

text \<open>
  The interface of the code the program links against but does not contain: liblinphone
  (addresses, chat rooms, the core and its subscribe events), the Flexisip library
  (the registrar database, the \<^verbatim>\<open>Observable\<close> base class, SIP URI parsing, string helpers)
  and the reginfo XML binding. None of it is defined here.

  \<^item> An object that is only read is the record of the values its accessors return
    (\<open>Address\<close>, \<open>ParticipantDeviceIdentity\<close>, \<open>ExtendedContact\<close>, \<open>Record\<close>,
    \<open>Registration\<close>).
  \<^item> An object that is only compared by pointer is a number (\<open>chatroom\<close>, \<open>event_id\<close>).
  \<^item> A function whose result the program uses is a field of the record \<open>env\<close>, an argument of
    every definition that calls it.
  \<^item> A call made for its effect is a value of \<open>ext_call\<close>; the operations of the model return
    the calls they make, in order.
  \<^item> What the program relies on of the state behind these calls is stated over the calls made so
    far (\<open>event_data\<close>, \<open>observers\<close>, \<open>db_subscriptions\<close>, \<open>core_listening\<close>,
    \<open>open_dialogs\<close>).
\<close>

section \<open>Handles and observed objects\<close>

type_synonym chatroom = nat   \<comment> \<open>\<^verbatim>\<open>shared_ptr<linphone::ChatRoom>\<close>, compared by pointer\<close>
type_synonym sub_id = nat     \<comment> \<open>address of a \<^verbatim>\<open>RegistrationSubscription\<close>\<close>
type_synonym client_id = nat  \<comment> \<open>address of a \<^verbatim>\<open>registration_event::Client\<close>\<close>
type_synonym event_id = nat   \<comment> \<open>\<^verbatim>\<open>shared_ptr<linphone::Event>\<close>\<close>

record Address =
  getUsername :: string
  getDomain :: string
  asStringUriOnly :: string
  asStringUriOnlyOrdered :: string

record ParticipantDeviceIdentity =
  pdi_address :: "Address option"  \<comment> \<open>\<open>None\<close> is the null pointer\<close>
  pdi_displayName :: string
  pdi_capabilityList :: "string list"

record ExtendedContact =
  ec_pubGruuUrl :: "string option"   \<comment> \<open>\<^verbatim>\<open>Record::getPubGruu\<close> of this contact, \<open>None\<close> if null\<close>
  getOrgLinphoneSpecs :: string
  getDeviceName :: string

record Record =
  getExtendedContacts :: "ExtendedContact list"
  extractContactByUniqueId :: "string \<Rightarrow> ExtendedContact option"

datatype contact_event = Registered | Created | Refreshed | Shortened | Expired | Deactivated
  | Probation | Unregistered | Rejected

record Contact =
  contact_uri :: string
  contact_displayName :: "string option"
  contact_unknownParams :: "(string \<times> string) list"  \<comment> \<open>name and value\<close>
  contact_event :: contact_event

datatype registration_state = Init | RActive | RTerminated

record Registration =
  reg_aor :: string
  reg_state :: registration_state
  reg_contacts :: "Contact list"

datatype SubscriptionState = SNone | OutgoingProgress | IncomingReceived | Pending | Active
  | Terminated | Error | Expiring

text \<open>The functions of the linked code whose results the program uses.\<close>

record env =
  createAddress :: "string \<Rightarrow> Address option"
  makeSipUri :: "string \<Rightarrow> string option"  \<comment> \<open>\<open>None\<close>: \<^verbatim>\<open>InvalidUrlError\<close>\<close>
  getCapabilities :: "chatroom \<Rightarrow> 32 word"
  cap_OneToOne :: "32 word"
  cap_Conference :: "32 word"
  cap_Encrypted :: "32 word"
  cap_Ephemeral :: "32 word"
  descriptorOf :: "string list \<Rightarrow> string"
    \<comment> \<open>\<^verbatim>\<open>getCapabilityDescriptor()\<close> of an identity with this descriptor list\<close>
  unquote :: "string \<Rightarrow> string"
  nullIdentity :: bool
    \<comment> \<open>whether \<^verbatim>\<open>createParticipantDeviceIdentity\<close> gives an object for a null address\<close>
  parseReginfo :: "string \<Rightarrow> Registration list option"  \<comment> \<open>\<open>None\<close>: the parser raised\<close>
  clearOrder :: "(string \<times> sub_id) list \<Rightarrow> (string \<times> sub_id) list"
    \<comment> \<open>the order in which \<^verbatim>\<open>std::multimap::clear\<close> destroys its elements\<close>
  useGlobalDomain :: bool
  debugLogs :: bool
    \<comment> \<open>whether debug messages are logged; only then are the arguments of \<^verbatim>\<open>LOGD\<close> evaluated\<close>
  infoLogs :: bool  \<comment> \<open>the same for \<^verbatim>\<open>LOGI\<close>\<close>

definition getCapabilityDescriptor :: "env \<Rightarrow> ParticipantDeviceIdentity \<Rightarrow> string" where
  "getCapabilityDescriptor E d = descriptorOf E (pdi_capabilityList d)"

section \<open>Calls made for their effect\<close>

datatype ext_call =
    SetParticipantDevices chatroom Address "ParticipantDeviceIdentity list"
  | NotifyParticipantDeviceRegistration chatroom "Address option"
  | DbFetch string sub_id
  | DbSubscribe string bool sub_id
  | DbUnsubscribe string bool sub_id
  | AddObserver client_id sub_id
  | RemoveObserver client_id sub_id
  | CreateSubscribe event_id Address string int
  | AddCustomHeader event_id string string
  | SetData event_id client_id
  | UnsetData event_id
  | SendSubscribe event_id
  | TerminateEvent event_id
  | CoreAddListener
  | CoreRemoveListener

section \<open>What the calls so far amount to\<close>

text \<open>
  The slot \<^verbatim>\<open>Client::kEventKey\<close> of an event: the client last stored with \<^verbatim>\<open>setData\<close>,
  empty after \<^verbatim>\<open>unsetData\<close> (\<^verbatim>\<open>getData\<close> then raises \<^verbatim>\<open>out_of_range\<close>).
\<close>

definition upd_data :: "ext_call \<Rightarrow> (event_id \<rightharpoonup> client_id) \<Rightarrow> (event_id \<rightharpoonup> client_id)" where
  "upd_data x m = (case x of SetData e c \<Rightarrow> m(e \<mapsto> c) | UnsetData e \<Rightarrow> m(e := None) | _ \<Rightarrow> m)"

definition event_data :: "ext_call list \<Rightarrow> (event_id \<rightharpoonup> client_id)" where
  "event_data cs = fold upd_data cs Map.empty"

text \<open>The observers of each client: those added and not removed since.\<close>

definition upd_observers :: "ext_call \<Rightarrow> (client_id \<times> sub_id) set \<Rightarrow> (client_id \<times> sub_id) set" where
  "upd_observers x S = (case x of AddObserver c s \<Rightarrow> insert (c, s) S
     | RemoveObserver c s \<Rightarrow> S - {(c, s)} | _ \<Rightarrow> S)"

definition observers :: "ext_call list \<Rightarrow> (client_id \<times> sub_id) set" where
  "observers cs = fold upd_observers cs {}"

text \<open>The listeners subscribed to a record of the registrar database.\<close>

definition upd_db :: "ext_call \<Rightarrow> (string \<times> bool \<times> sub_id) set \<Rightarrow> (string \<times> bool \<times> sub_id) set" where
  "upd_db x S = (case x of DbSubscribe u g s \<Rightarrow> insert (u, g, s) S
     | DbUnsubscribe u g s \<Rightarrow> S - {(u, g, s)} | _ \<Rightarrow> S)"

definition db_subscriptions :: "ext_call list \<Rightarrow> (string \<times> bool \<times> sub_id) set" where
  "db_subscriptions cs = fold upd_db cs {}"

text \<open>Whether the client factory is registered as a listener of the core.\<close>

definition upd_listening :: "ext_call \<Rightarrow> bool \<Rightarrow> bool" where
  "upd_listening x b = (case x of CoreAddListener \<Rightarrow> True | CoreRemoveListener \<Rightarrow> False | _ \<Rightarrow> b)"

definition core_listening :: "ext_call list \<Rightarrow> bool" where
  "core_listening cs = fold upd_listening cs False"

text \<open>The SUBSCRIBE dialogs sent and not terminated, with the address they were created for.\<close>

definition upd_dialogs :: "ext_call \<Rightarrow> (event_id \<rightharpoonup> Address) \<Rightarrow> (event_id \<rightharpoonup> Address)" where
  "upd_dialogs x m = (case x of CreateSubscribe e a n d \<Rightarrow> m(e \<mapsto> a)
     | TerminateEvent e \<Rightarrow> m(e := None) | _ \<Rightarrow> m)"

definition open_dialogs :: "ext_call list \<Rightarrow> (event_id \<rightharpoonup> Address)" where
  "open_dialogs cs = fold upd_dialogs cs Map.empty"

lemma trace_Nil [simp, trace_simps]:
  "event_data [] = Map.empty" "observers [] = {}" "db_subscriptions [] = {}"
  "core_listening [] = False" "open_dialogs [] = Map.empty"
  by (simp_all add: event_data_def observers_def db_subscriptions_def core_listening_def
      open_dialogs_def)

lemma trace_append [trace_simps]:
  "event_data (cs @ ds) = fold upd_data ds (event_data cs)"
  "observers (cs @ ds) = fold upd_observers ds (observers cs)"
  "db_subscriptions (cs @ ds) = fold upd_db ds (db_subscriptions cs)"
  "core_listening (cs @ ds) = fold upd_listening ds (core_listening cs)"
  "open_dialogs (cs @ ds) = fold upd_dialogs ds (open_dialogs cs)"
  by (simp_all add: event_data_def observers_def db_subscriptions_def core_listening_def
      open_dialogs_def)

lemmas upd_defs = upd_data_def upd_observers_def upd_db_def upd_listening_def upd_dialogs_def

text \<open>
  The calls that only tell a chat room about devices change none of these.
\<close>

definition is_room_call :: "ext_call \<Rightarrow> bool" where
  "is_room_call x = (case x of SetParticipantDevices _ _ _ \<Rightarrow> True
     | NotifyParticipantDeviceRegistration _ _ \<Rightarrow> True | _ \<Rightarrow> False)"

lemma is_room_call_simps [simp]:
  "is_room_call (SetParticipantDevices r a ds)"
  "is_room_call (NotifyParticipantDeviceRegistration r d)"
  by (simp_all add: is_room_call_def)

lemma upd_room_call:
  assumes "is_room_call x"
  shows "upd_data x m = m" "upd_observers x S = S" "upd_db x D = D" "upd_listening x b = b"
    "upd_dialogs x d = d"
  using assms by (cases x; simp add: is_room_call_def upd_defs)+

lemma fold_room_calls:
  assumes "\<forall>x \<in> set cs. is_room_call x"
  shows "fold upd_data cs m = m" "fold upd_observers cs S = S" "fold upd_db cs D = D"
    "fold upd_listening cs b = b" "fold upd_dialogs cs d = d"
  using assms by (induction cs) (simp_all add: upd_room_call)

text \<open>The chat room a call is about.\<close>

definition call_room :: "ext_call \<Rightarrow> chatroom option" where
  "call_room x = (case x of SetParticipantDevices r _ _ \<Rightarrow> Some r
     | NotifyParticipantDeviceRegistration r _ \<Rightarrow> Some r | _ \<Rightarrow> None)"

lemma call_room_simps [simp]:
  "call_room (SetParticipantDevices r a ds) = Some r"
  "call_room (NotifyParticipantDeviceRegistration r d) = Some r"
  by (simp_all add: call_room_def)

end
