(* ===== verification/Binding.thy ===== *)
theory Binding
  imports StateDir ThirdParty
begin

text \<open>
  The state of \<^verbatim>\<open>ConferenceServer\<close> and the part that records its addresses in the registrar
  database: \<^verbatim>\<open>bindAddresses\<close>, \<^verbatim>\<open>bindFactoryUris\<close>, \<^verbatim>\<open>bindFocusUris\<close> with its listener,
  \<^verbatim>\<open>bindChatRoom\<close> and \<^verbatim>\<open>onRegistrarDbWritable\<close>.
\<close>

section \<open>The state of the server\<close>

record MediaConfig =
  audioEnabled :: bool
  videoEnabled :: bool
  textEnabled :: bool

record ConferenceServer =
  mTransport :: string
  mPath :: string
  mChatRooms :: "chatroom list"
  mMediaConfig :: MediaConfig
  mConfServerUris :: "(string \<times> string) list"
  mLocalDomains :: "string list"
  mUuid :: string
  mAddressesBound :: bool
  mCheckCapabilities_srv :: bool
  mStateDir :: string

definition ConferenceServer_init :: "string \<Rightarrow> ConferenceServer" where
  "ConferenceServer_init pathUri =
     \<lparr>mTransport = '''', mPath = pathUri, mChatRooms = [],
      mMediaConfig = \<lparr>audioEnabled = False, videoEnabled = False, textEnabled = False\<rparr>,
      mConfServerUris = [], mLocalDomains = [], mUuid = '''', mAddressesBound = False,
      mCheckCapabilities_srv = False, mStateDir = ''''\<rparr>"

section \<open>The calls of the server\<close>

record BindingParameters =
  callId :: string
  path :: "string list"
  globalExpire :: int
  aliased :: bool
  version :: int
  withGruu :: bool

record sip_contact =
  contact_url :: string
  contact_param :: "string option"

record Account =
  identityAddress :: "Address option"
  serverAddress :: "Address option"
  registerEnabled :: bool
  outboundProxyEnabled :: bool
  conferenceFactoryAddress :: "Address option"

datatype binding_listener = NoListener | FakeListener | FocusListener nat string

datatype arg = AString string | ABool bool | AInt int | AList "string list"
  | AAddress "Address option" | AAccount nat | ARoom chatroom | AHandling HandlingSet | AThis

text \<open>
  \<open>Method obj name args\<close> is a call of a method of a third-party object. An account is named by its
  number in the order of \<^verbatim>\<open>addAccount\<close>.
\<close>

datatype srv_call =
    Method string string "arg list"
  | Codec string bool                 \<comment> \<open>\<^verbatim>\<open>PayloadType::enable\<close>\<close>
  | AddAccount Account
  | DbClear string string
  | DbBind string sip_contact BindingParameters binding_listener
  | Os os_call

text \<open>The functions of the linked code used here; \<open>core_uuid\<close> is \<^verbatim>\<open>misc/uuid\<close> of the core.\<close>

record server_lib =
  uriParam :: "string \<Rightarrow> string \<Rightarrow> string"
  uriUser :: "string \<Rightarrow> string"
  grToUniqueId :: "string \<Rightarrow> string"
  address_equal :: "Address \<Rightarrow> Address option \<Rightarrow> bool"
    \<comment> \<open>\<open>None\<close> is the null pointer, which the program passes for a string that is no address\<close>
  address_weakEqual :: "Address \<Rightarrow> Address option \<Rightarrow> bool"
  getConferenceFactoryUri :: "Account \<Rightarrow> string"
  core_uuid :: string
  int_max :: int  \<comment> \<open>\<^verbatim>\<open>numeric_limits<int>::max()\<close>\<close>

section \<open>Binding\<close>

definition getUuid :: "server_lib \<Rightarrow> ConferenceServer \<Rightarrow> string \<times> ConferenceServer" where
  "getUuid L srv =
     (let srv' = (if mUuid srv = '''' then srv\<lparr>mUuid := core_uuid L\<rparr> else srv)
      in (mUuid srv', srv'))"

definition server_contact :: "server_lib \<Rightarrow> string \<Rightarrow> string \<Rightarrow> sip_contact" where
  "server_contact L transport uuid =
     \<lparr>contact_url = transport,
      contact_param = (if uuid \<noteq> '''' then Some (''+sip.instance='' @ grToUniqueId L uuid) else None)\<rparr>"

definition binding_parameters :: "server_lib \<Rightarrow> ConferenceServer \<Rightarrow> string \<Rightarrow> BindingParameters" where
  "binding_parameters L srv cid =
     \<lparr>callId = cid, path = [mPath srv], globalExpire = int_max L, aliased = False, version = 0,
      withGruu = True\<rparr>"

definition bindFactoryUris :: "env \<Rightarrow> server_lib \<Rightarrow> ConferenceServer
    \<Rightarrow> (srv_call, server_error, ConferenceServer) action" where
  "bindFactoryUris E L srv =
     (let (uuid, srv') = getUuid L srv
      in seqA (forA (\<lambda>conferenceFactoryUri.
           let sipContact = server_contact L (mTransport srv') uuid
           in case makeSipUri E (fst conferenceFactoryUri) of
                None \<Rightarrow> raise (BadConfiguration
                          (''invalid conference-server SIP URI '' @ [CHR 0x27]
                             @ fst conferenceFactoryUri @ [CHR 0x27]))
              | Some factory \<Rightarrow>
                  (let parameter = binding_parameters L srv' ''CONFERENCE''
                   in seqA (call (DbClear factory (callId parameter))) (\<lambda>_.
                        call (DbBind factory sipContact parameter FakeListener))))
           (mConfServerUris srv')) (\<lambda>_. ret srv'))"

text \<open>\<open>accounts\<close> are the accounts of the core (\<^verbatim>\<open>getAccountList\<close>), with their numbers.\<close>

definition bindFocusUris :: "env \<Rightarrow> server_lib \<Rightarrow> Account list \<Rightarrow> ConferenceServer
    \<Rightarrow> (srv_call, server_error, ConferenceServer) action" where
  "bindFocusUris E L accounts srv =
     (let (uuid, srv') = getUuid L srv
      in seqA (forA (\<lambda>(n, account).
           case identityAddress account of
             None \<Rightarrow> raise NullPointer
           | Some identity \<Rightarrow>
               (if address_equal L identity (createAddress E (getConferenceFactoryUri L account)) then ret ()
                else let sipContact = server_contact L (mTransport srv') uuid;
                         parameter = binding_parameters L srv' ''CONFERENCE''
                     in case makeSipUri E (asStringUriOnly identity) of
                          None \<Rightarrow> raise (InvalidUrlError (asStringUriOnly identity))
                        | Some focus \<Rightarrow>
                            call (DbBind focus sipContact parameter (FocusListener n uuid))))
           (enumerate 0 accounts)) (\<lambda>_. ret srv'))"

text \<open>
  \<^verbatim>\<open>FocusListener::onRecordFound\<close>: the address of the account becomes its public GRUU, which the
  information message dereferences first.
\<close>

definition FocusListener_onRecordFound :: "env \<Rightarrow> server_lib \<Rightarrow> nat \<Rightarrow> string \<Rightarrow> Record option
    \<Rightarrow> (srv_call, server_error, unit) action" where
  "FocusListener_onRecordFound E L account uuid r =
     (case r of
        None \<Rightarrow> raise NullPointer
      | Some r' \<Rightarrow>
          (if getExtendedContacts r' = [] then raise (FlexisipException ''focus address bind failed'')
           else case extractContactByUniqueId r' (grToUniqueId L uuid) of
             None \<Rightarrow> raise (FlexisipException ''focus uri was not recorded in registrar database'')
           | Some ec \<Rightarrow>
               (case ec_pubGruuUrl ec of
                  None \<Rightarrow> raise (FlexisipException ''focus binding does not have public gruu'')
                | Some pub_gruu \<Rightarrow>
                    (let gruuAddr = createAddress E pub_gruu
                     in seqA (guardA (gruuAddr \<noteq> None \<or> \<not> infoLogs E) NullPointer) (\<lambda>_.
                        call (Method ''account'' ''setContactAddress''
                                [AAccount account, AAddress gruuAddr]))))))"

definition bindChatRoom :: "env \<Rightarrow> server_lib \<Rightarrow> string \<Rightarrow> string \<Rightarrow> binding_listener
    \<Rightarrow> ConferenceServer \<Rightarrow> (srv_call, server_error, ConferenceServer) action" where
  "bindChatRoom E L bindingUrl contact listener srv =
     (case makeSipUri E bindingUrl of
        None \<Rightarrow> raise (InvalidUrlError bindingUrl)
      | Some uri \<Rightarrow>
          (let gruu0 = uriParam L uri ''gr'';
               (gruu, srv') = (if gruu0 = '''' then getUuid L srv else (gruu0, srv));
               sipContact = \<lparr>contact_url = contact,
                             contact_param = Some (''+sip.instance='' @ grToUniqueId L gruu)\<rparr>;
               parameter = binding_parameters L srv' ''dummy-call-id''
           in seqA (guardA (uriUser L uri \<noteq> '''') (FlexisipException ''trying to bind with no username'')) (\<lambda>_.
              seqA (call (DbBind uri sipContact parameter listener)) (\<lambda>_. ret srv'))))"

text \<open>Whether a peer address is one of the focus URIs (\<^verbatim>\<open>find_if\<close> stops at the first match).\<close>

fun is_focus :: "env \<Rightarrow> server_lib \<Rightarrow> Address \<Rightarrow> (string \<times> string) list \<Rightarrow> bool" where
  "is_focus E L peerAddress [] = False"
| "is_focus E L peerAddress (p # ps) =
     (if address_weakEqual L peerAddress (createAddress E (snd p)) then True
      else is_focus E L peerAddress ps)"

text \<open>The loop over the chat rooms the core has loaded, given by their peer addresses.\<close>

fun bind_rooms :: "env \<Rightarrow> server_lib \<Rightarrow> Address list \<Rightarrow> ConferenceServer
    \<Rightarrow> (srv_call, server_error, ConferenceServer) action" where
  "bind_rooms E L [] srv = ret srv"
| "bind_rooms E L (peerAddress # peers) srv =
     seqA (if is_focus E L peerAddress (mConfServerUris srv) then ret srv
           else bindChatRoom E L (asStringUriOnly peerAddress) (mTransport srv) NoListener srv)
       (bind_rooms E L peers)"

definition bindAddresses :: "env \<Rightarrow> server_lib \<Rightarrow> Account list \<Rightarrow> Address list \<Rightarrow> ConferenceServer
    \<Rightarrow> (srv_call, server_error, ConferenceServer) action" where
  "bindAddresses E L accounts chatRooms srv =
     (if mAddressesBound srv then ret srv
      else seqA (bindFactoryUris E L srv) (\<lambda>srv1.
           seqA (bindFocusUris E L accounts srv1) (\<lambda>srv2.
           seqA (if textEnabled (mMediaConfig srv2) then bind_rooms E L chatRooms srv2 else ret srv2)
             (\<lambda>srv3. ret (srv3\<lparr>mAddressesBound := True\<rparr>)))))"

definition onRegistrarDbWritable :: "env \<Rightarrow> server_lib \<Rightarrow> Account list \<Rightarrow> Address list \<Rightarrow> bool
    \<Rightarrow> ConferenceServer \<Rightarrow> (srv_call, server_error, ConferenceServer) action" where
  "onRegistrarDbWritable E L accounts chatRooms writable srv =
     (if writable then bindAddresses E L accounts chatRooms srv else ret srv)"

end
