(* ===== verification/Process.thy ===== *)
theory Process
  imports Binding "HOL-Library.Word"
begin

text \<open>
  The process side of \<^verbatim>\<open>src/src/main/flexisip-conference.cc\<close>: the calls and exceptions of the main
  program, the limit of file descriptors, the PID file, the passphrase file, signals, the locks
  given to OpenSSL, and the wait for the clean-up tasks. What the operating system answers is a parameter; \<^verbatim>\<open>operator>>\<close> of the
  standard library is defined here as far as it is used.
\<close>

unbundle bit_operations_syntax

section \<open>Calls and exceptions\<close>

record rlimit =
  rlim_cur :: "64 word"
  rlim_max :: "64 word"

datatype resource = RLIMIT_NOFILE | RLIMIT_CORE

record LoggerParameters =
  enableStandardOutput :: bool
  level :: int
  enableSyslog :: bool
  syslogLevel :: int
  enableUserErrors :: bool
  logFilename :: string
  logDirectory :: string

datatype Mode = DefaultValue | DefaultIfUnset

datatype dumper = TexFileConfigDumper | DokuwikiConfigDumper | FileConfigDumper Mode
  | MediaWikiConfigDumper | XWikiConfigDumper

text \<open>
  A node of the configuration: a \<^verbatim>\<open>GenericStruct\<close> with its children, a \<^verbatim>\<open>ConfigValue\<close>, or an entry of
  another class.
\<close>

datatype entry = GenericStruct string "entry list" | ConfigValue string | OtherEntry string

text \<open>
  \<open>Api f args\<close> is a call of a linked function. \<open>Dump\<close> carries the class of the dumper, the node it
  dumps, and its two switches. \<open>Load path continue\<close> is \<^verbatim>\<open>ConfigManager::load\<close>.
\<close>

datatype main_call =
    Api string "string list"
  | LoggerConfigure LoggerParameters
  | SetOverrideMap "string \<rightharpoonup> string"
  | SetDeprecated string string string string
  | SetHost string string
  | ApplyOverrides bool
  | Dump dumper entry bool bool
  | Load string bool
  | Cout string
  | Getrlimit resource
  | Setrlimit resource rlimit
  | WritePid string string
  | SofiaLevel int
  | ContextualLevel int
  | Server srv_call

text \<open>
  What is thrown: by the command line library, by the program itself and the server (\<open>Thrown\<close>), by
  the linked code otherwise; \<open>Undefined\<close> is undefined behaviour, \<open>NoReturn\<close> a loop that does
  not end.
\<close>

datatype main_error =
    TclapExitException int
  | ExitSuccess "string option"
  | Exit int "string option"
  | Thrown server_error
  | BadValue string
  | StdException string
  | UnknownException
  | Undefined fault
  | NoReturn

definition EXIT_SUCCESS :: int where "EXIT_SUCCESS = 0"
definition EXIT_FAILURE :: int where "EXIT_FAILURE = 1"

section \<open>Reading numbers and words\<close>

text \<open>A decimal number as \<^verbatim>\<open>printf\<close> writes it.\<close>

definition digit_char :: "nat \<Rightarrow> char" where
  "digit_char d = char_of (48 + d)"

definition char_digit :: "char \<Rightarrow> nat" where
  "char_digit c = of_char c - 48"

definition is_digit :: "char \<Rightarrow> bool" where
  "is_digit c \<longleftrightarrow> 48 \<le> (of_char c :: nat) \<and> (of_char c :: nat) \<le> 57"

fun decimal :: "nat \<Rightarrow> string" where
  "decimal n = (if n < 10 then [digit_char n] else decimal (n div 10) @ [digit_char (n mod 10)])"

declare decimal.simps [simp del]

definition digits_value :: "string \<Rightarrow> nat" where
  "digits_value ds = foldl (\<lambda>n c. 10 * n + char_digit c) 0 ds"

text \<open>
  \<^verbatim>\<open>operator>>\<close> into an unsigned 64-bit number, on a stream that throws on \<^verbatim>\<open>badbit\<close>,
  \<^verbatim>\<open>failbit\<close> and \<^verbatim>\<open>eofbit\<close>: the value stored and whether it throws. A number that does not fit
  is stored as the largest one; a number at the very end of the stream is stored and then throws
  because of \<^verbatim>\<open>eofbit\<close>.
\<close>

definition extract_unsigned :: "string \<Rightarrow> 64 word \<times> bool" where
  "extract_unsigned s =
     (let s1 = dropWhile is_space s;
          negative = (s1 \<noteq> [] \<and> hd s1 = CHR ''-'');
          s2 = (if s1 \<noteq> [] \<and> hd s1 \<in> {CHR ''-'', CHR ''+''} then tl s1 else s1);
          digits = takeWhile is_digit s2;
          v = digits_value digits
      in if digits = [] then (0, True)
         else if 2 ^ 64 \<le> v then (- 1, True)
         else ((if negative then - of_nat v else of_nat v), dropWhile is_digit s2 = []))"

lemma is_digit_digit_char: "d < 10 \<Longrightarrow> is_digit (digit_char d)"
  by (simp add: is_digit_def digit_char_def)

lemma char_digit_digit_char: "d < 10 \<Longrightarrow> char_digit (digit_char d) = d"
  by (simp add: char_digit_def digit_char_def)

lemma is_digit_not_space: "is_digit c \<Longrightarrow> \<not> is_space c \<and> c \<noteq> CHR ''-'' \<and> c \<noteq> CHR ''+''"
  by (auto simp: is_digit_def is_space_def)

lemma decimal_digits: "list_all is_digit (decimal n) \<and> decimal n \<noteq> []"
proof (induction n rule: decimal.induct)
  case (1 n)
  then show ?case
    by (subst (1 2) decimal.simps) (simp add: is_digit_digit_char)
qed

lemma digits_value_decimal: "digits_value (decimal n) = n"
proof (induction n rule: decimal.induct)
  case (1 n)
  then show ?case
    by (subst decimal.simps) (simp add: digits_value_def char_digit_digit_char)
qed

lemma extract_decimal:
  assumes "n < 2 ^ 64" and "\<not> is_digit c"
  shows "extract_unsigned (decimal n @ [c]) = (of_nat n, False)"
    and "extract_unsigned (decimal n) = (of_nat n, True)"
proof -
  have d: "list_all is_digit (decimal n)" "decimal n \<noteq> []"
    using decimal_digits by blast+
  then obtain x xs where x: "decimal n = x # xs" "is_digit x" "list_all is_digit xs"
    by (cases "decimal n") auto
  have xs: "takeWhile is_digit (xs @ [c]) = xs" "dropWhile is_digit (xs @ [c]) = [c]"
    "takeWhile is_digit xs = xs" "dropWhile is_digit xs = []"
    using x(3) assms(2) by (auto simp: list_all_iff takeWhile_append2 dropWhile_append2)
  have v: "digits_value (x # xs) = n"
    using digits_value_decimal [of n] x(1) by simp
  from x(1,2) assms(1) v is_digit_not_space [OF x(2)]
  show "extract_unsigned (decimal n @ [c]) = (of_nat n, False)"
    and "extract_unsigned (decimal n) = (of_nat n, True)"
    using assms(2) x(3) by (simp_all add: extract_unsigned_def xs Let_def list_all_iff)
qed

section \<open>The limit of file descriptors\<close>

text \<open>
  \<^verbatim>\<open>getSystemFdLimit\<close> with its static variable \<^verbatim>\<open>maxSysFd\<close> (argument and first component).
  \<open>files\<close> are the files that can be opened.
\<close>

definition getSystemFdLimit :: "(string \<rightharpoonup> string) \<Rightarrow> 64 word \<Rightarrow> 64 word \<times> (main_error + 64 word)" where
  "getSystemFdLimit files maxSysFd =
     (let systemLimitGetError =
            StdException ''unable to get system limit for number of open file descriptors'';
          first = (if maxSysFd = 0
            then (case files ''/proc/sys/fs/file-max'' of
                None \<Rightarrow> (maxSysFd, Inl systemLimitGetError)
              | Some content \<Rightarrow>
                  (let (v, throws) = extract_unsigned content
                   in if throws then (v, Inl systemLimitGetError)
                      else (case files ''/proc/sys/fs/nr_open'' of
                          None \<Rightarrow> (v, Inr ())
                        | Some content' \<Rightarrow>
                            (let (v', throws') = extract_unsigned content'
                             in if throws' then (v, Inr ()) else (min v' v, Inr ())))))
            else (maxSysFd, Inr ()))
      in (fst first,
          case snd first of
            Inl e \<Rightarrow> Inl e
          | Inr _ \<Rightarrow> (if fst first = 0 then Inl systemLimitGetError else Inr (fst first))))"

text \<open>
  \<^verbatim>\<open>increaseFDLimit\<close>: the new static variable and the calls. \<open>nofile\<close> is the answer of
  \<^verbatim>\<open>getrlimit\<close>, \<open>None\<close> if it fails; whether \<^verbatim>\<open>setrlimit\<close> succeeds only decides what is logged.
\<close>

definition increaseFDLimit :: "(string \<rightharpoonup> string) \<Rightarrow> rlimit option \<Rightarrow> 64 word \<Rightarrow> 64 word \<times> main_call list" where
  "increaseFDLimit files nofile maxSysFd =
     (case nofile of
        None \<Rightarrow> (maxSysFd, [Getrlimit RLIMIT_NOFILE])
      | Some lm \<Rightarrow>
          (let m1 = fst (getSystemFdLimit files maxSysFd);
               (m2, limit) = getSystemFdLimit files m1
           in (m2, Getrlimit RLIMIT_NOFILE #
                (case limit of
                   Inl e \<Rightarrow> []
                 | Inr systemLimit \<Rightarrow>
                     (if rlim_cur lm < systemLimit
                      then [Setrlimit RLIMIT_NOFILE (lm\<lparr>rlim_cur := systemLimit, rlim_max := systemLimit\<rparr>),
                            Getrlimit RLIMIT_NOFILE]
                      else [])))))"

section \<open>The PID file and the passphrase file\<close>

definition makePidFile :: "(string \<Rightarrow> bool) \<Rightarrow> nat \<Rightarrow> string \<Rightarrow> main_call list" where
  "makePidFile can_open pid pidfile =
     (if pidfile \<noteq> '''' then (if can_open pidfile then [WritePid pidfile (decimal pid)] else []) else [])"

text \<open>
  An input stream: the characters left, or a stream on which reading fails without reaching the
  end (a directory, an I/O error).
\<close>

datatype istream = Chars string | ReadError

text \<open>
  \<^verbatim>\<open>operator>>\<close> into a string: the string afterwards, the stream afterwards and \<^verbatim>\<open>eof()\<close>. The string
  keeps its value when there is nothing but white space left.
\<close>

fun extract_word :: "istream \<Rightarrow> string \<Rightarrow> string \<times> istream \<times> bool" where
  "extract_word ReadError old = (old, ReadError, False)"
| "extract_word (Chars s) old =
     (let s1 = dropWhile is_space s
      in if s1 = [] then (old, Chars [], True)
         else let rest = dropWhile (\<lambda>c. \<not> is_space c) s1
              in (takeWhile (\<lambda>c. \<not> is_space c) s1, Chars rest, rest = []))"

text \<open>The loop of \<^verbatim>\<open>getPkcsPassphrase\<close>; \<open>None\<close> is a loop that does not end.\<close>

partial_function (option) passphrase_loop :: "istream \<Rightarrow> bool \<Rightarrow> string \<Rightarrow> string option" where
  "passphrase_loop dacb eof passphrase =
     (if eof then Some passphrase
      else let (passphrase', dacb', eof') = extract_word dacb passphrase
           in passphrase_loop dacb' eof' passphrase')"

definition getPkcsPassphrase :: "(string \<rightharpoonup> istream) \<Rightarrow> string \<Rightarrow> string option" where
  "getPkcsPassphrase open_file pkcsFile =
     (if pkcsFile \<noteq> ''''
      then (case open_file pkcsFile of None \<Rightarrow> Some '''' | Some dacb \<Rightarrow> passphrase_loop dacb False '''')
      else Some '''')"

section \<open>Signals, logs, the end\<close>

text \<open>The static variables \<^verbatim>\<open>run\<close> and \<^verbatim>\<open>root\<close> (whether it is set), and the calls.\<close>

definition flexisip_stop :: "bool \<Rightarrow> int \<Rightarrow> int \<times> main_call list" where
  "flexisip_stop root r =
     (if r \<noteq> 0 then (0, if root then [Api ''root->quit'' []] else []) else (r, []))"

text \<open>\<^verbatim>\<open>sofiaLogHandler\<close>: the format that is logged; the last character is removed unseen.\<close>

definition sofiaLogHandler :: "string option \<Rightarrow> main_error + string option" where
  "sofiaLogHandler fmt =
     (case fmt of
        None \<Rightarrow> Inr None
      | Some s \<Rightarrow> (if s = [] then Inl (Undefined DanglingRef) else Inr (Some (butlast s))))"

text \<open>SIGHUP reopens the log files; OpenSSL is given the two functions of the program for its locks.\<close>

definition flexisip_reopen_log_files :: "main_call list" where
  "flexisip_reopen_log_files = [Api ''LogManager::reopenFiles'' []]"

definition setOpenSSLThreadSafe :: "main_call list" where
  "setOpenSSLThreadSafe =
     [Api ''CRYPTO_set_id_callback'' [''threadid_cb''],
      Api ''CRYPTO_set_locking_callback'' [''locking_function'']]"

text \<open>
  A call of the locking function in one thread: it returns with the mutexes that are held, blocks
  until another thread releases the mutex, or does what a mutex does not define (an index out of
  range, the release of a mutex that is not held). \<open>mutextab\<close> is the static pointer: null until
  the first call makes one mutex per lock of the library. The bit \<^verbatim>\<open>CRYPTO_LOCK\<close> is 1.
\<close>

datatype lock_result = Returned "bool list option" | Blocked | UndefinedLock

definition locking_function :: "nat \<Rightarrow> 32 word \<Rightarrow> nat \<Rightarrow> bool list option \<Rightarrow> lock_result" where
  "locking_function num_locks mode n mutextab =
     (let tab = (case mutextab of None \<Rightarrow> replicate num_locks False | Some t \<Rightarrow> t)
      in if length tab \<le> n then UndefinedLock
         else if mode AND 1 \<noteq> 0
              then (if tab ! n then Blocked else Returned (Some (tab[n := True])))
              else (if tab ! n then Returned (Some (tab[n := False])) else UndefinedLock))"

text \<open>\<^verbatim>\<open>--track-allocs\<close> logs the messages that are left; nothing ever enters \<^verbatim>\<open>msg_map\<close>.\<close>

definition msg_map :: "string list" where
  "msg_map = []"

definition dump_remaining_msgs :: "string list \<Rightarrow> string list" where
  "dump_remaining_msgs msgs =
     (''### Remaining messages: '' @ decimal (length msgs))
       # map (\<lambda>m. ''### '' @ [CHR 0x09] @ ''- '' @ m @ [CHR 0x0A]) msgs"

text \<open>
  The wait for the clean-up tasks from its \<open>k\<close>-th pass on: \<open>now k\<close> is the clock read in it,
  \<open>task k\<close> whether the task is finished; the value is \<^verbatim>\<open>errcode\<close>, \<open>None\<close> if the loop does not end.
\<close>

partial_function (option) cleanup_loop ::
    "(nat \<Rightarrow> int) \<Rightarrow> (nat \<Rightarrow> bool) list \<Rightarrow> int \<Rightarrow> int \<Rightarrow> nat \<Rightarrow> int option" where
  "cleanup_loop now cleanupTasks deadline errcode k =
     (let allDone = list_all (\<lambda>finished. finished k) cleanupTasks
      in if allDone then Some errcode
         else if deadline < now k then Some EXIT_FAILURE
         else cleanup_loop now cleanupTasks deadline errcode (Suc k))"

section \<open>Properties\<close>

lemma of_nat_64_less [simp]:
  assumes "0 < n" "n < 2 ^ 64"
  shows "(of_nat n :: 64 word) \<noteq> 0"
  using assms by (simp add: word_of_nat_eq_0_iff nat_dvd_not_less)

lemma of_nat_64_min:
  assumes "n < 2 ^ 64" "k < 2 ^ 64"
  shows "min (of_nat k :: 64 word) (of_nat n) = of_nat (min k n)"
  using assms by (simp add: min_def word_le_nat_alt unsigned_of_nat take_bit_nat_eq_self)

lemma getSystemFdLimit_cached: "m \<noteq> 0 \<Longrightarrow> getSystemFdLimit files m = (m, Inr m)"
  by (simp add: getSystemFdLimit_def)

lemma getSystemFdLimit_read:
  assumes "files ''/proc/sys/fs/file-max'' = Some (decimal n @ [CHR 0x0A])" "0 < n" "n < 2 ^ 64"
    and "files ''/proc/sys/fs/nr_open'' = Some (decimal k @ [CHR 0x0A])" "0 < k" "k < 2 ^ 64"
  shows "getSystemFdLimit files 0 = (of_nat (min k n), Inr (of_nat (min k n)))"
proof -
  have "\<not> is_digit (CHR 0x0A)" by (simp add: is_digit_def)
  note x = extract_decimal(1) [OF assms(3) this] extract_decimal(1) [OF assms(6) this]
  have "(of_nat (min k n) :: 64 word) \<noteq> 0"
    using assms(2,3,5,6) by (intro of_nat_64_less) (auto simp: min_def)
  then show ?thesis
    by (simp add: getSystemFdLimit_def assms(1,4) x of_nat_64_min [OF assms(3,6)] Let_def del: of_nat_min)
qed

lemma setrlimit_raises:
  assumes "Setrlimit r l \<in> set (snd (increaseFDLimit files (Some lm) m))"
  shows "r = RLIMIT_NOFILE \<and> rlim_cur lm < rlim_cur l \<and> rlim_max l = rlim_cur l"
  using assms by (auto simp: increaseFDLimit_def Let_def split: prod.splits sum.splits if_splits)

text \<open>
  C36. With the two files of \<^verbatim>\<open>/proc\<close> as the kernel writes them, both limits of file descriptors are
  set to the smaller of \<^verbatim>\<open>file-max\<close> and \<^verbatim>\<open>nr_open\<close>, and only if the soft limit is below it;
  whatever the files hold, no call of \<^verbatim>\<open>setrlimit\<close> lowers the soft limit.
\<close>

theorem fd_limit_spec:
  assumes "files ''/proc/sys/fs/file-max'' = Some (decimal n @ [CHR 0x0A])" "0 < n" "n < 2 ^ 64"
    and "files ''/proc/sys/fs/nr_open'' = Some (decimal k @ [CHR 0x0A])" "0 < k" "k < 2 ^ 64"
  shows "snd (increaseFDLimit files (Some lm) 0) =
      Getrlimit RLIMIT_NOFILE #
        (if rlim_cur lm < of_nat (min k n)
         then [Setrlimit RLIMIT_NOFILE \<lparr>rlim_cur = of_nat (min k n), rlim_max = of_nat (min k n)\<rparr>,
               Getrlimit RLIMIT_NOFILE]
         else [])
    \<and> (\<forall>files' m r l. Setrlimit r l \<in> set (snd (increaseFDLimit files' (Some lm) m)) \<longrightarrow>
         rlim_cur lm < rlim_cur l)"
proof -
  have "(of_nat (min k n) :: 64 word) \<noteq> 0"
    using assms(2,3,5,6) by (intro of_nat_64_less) (auto simp: min_def)
  note r = getSystemFdLimit_read [OF assms] getSystemFdLimit_cached [OF this]
  show ?thesis
    using setrlimit_raises by (simp add: increaseFDLimit_def r Let_def del: of_nat_min)
qed

definition sample_proc :: "string \<rightharpoonup> string" where
  "sample_proc = [''/proc/sys/fs/file-max'' \<mapsto> decimal 100 @ [CHR 0x0A],
                  ''/proc/sys/fs/nr_open'' \<mapsto> decimal 50 @ [CHR 0x0A]]"

theorem fd_limit_spec_witness:
  "snd (increaseFDLimit sample_proc (Some \<lparr>rlim_cur = 10, rlim_max = 20\<rparr>) 0) =
     [Getrlimit RLIMIT_NOFILE, Setrlimit RLIMIT_NOFILE \<lparr>rlim_cur = 50, rlim_max = 50\<rparr>,
      Getrlimit RLIMIT_NOFILE]"
  using fd_limit_spec [of sample_proc 100 50 "\<lparr>rlim_cur = 10, rlim_max = 20\<rparr>"]
  by (simp add: sample_proc_def)

text \<open>
  A first read that throws after a number was stored leaves that number in the static variable,
  so the second call of \<^verbatim>\<open>getSystemFdLimit\<close> in \<^verbatim>\<open>increaseFDLimit\<close> succeeds with it and the limit
  is not bounded by \<^verbatim>\<open>nr_open\<close>: this is so for a file that ends right after the number.
\<close>

lemma fd_limit_retry:
  assumes "files ''/proc/sys/fs/file-max'' = Some (decimal n)" "0 < n" "n < 2 ^ 64"
    and "rlim_cur lm < of_nat n"
  shows "\<exists>e. snd (getSystemFdLimit files 0) = Inl e"
    and "Setrlimit RLIMIT_NOFILE \<lparr>rlim_cur = of_nat n, rlim_max = of_nat n\<rparr>
           \<in> set (snd (increaseFDLimit files (Some lm) 0))"
proof -
  have d: "\<not> is_digit (CHR 0x0A)" by (simp add: is_digit_def)
  have f: "getSystemFdLimit files 0 = (of_nat n, Inl (StdException
      ''unable to get system limit for number of open file descriptors''))"
    by (simp add: getSystemFdLimit_def assms(1) extract_decimal(2) [OF assms(3) d])
  then show "\<exists>e. snd (getSystemFdLimit files 0) = Inl e" by simp
  show "Setrlimit RLIMIT_NOFILE \<lparr>rlim_cur = of_nat n, rlim_max = of_nat n\<rparr>
      \<in> set (snd (increaseFDLimit files (Some lm) 0))"
    using assms(2-4) by (simp add: increaseFDLimit_def f getSystemFdLimit_cached)
qed

text \<open>The last word of a text, the empty string if there is none.\<close>

definition last_word :: "string \<Rightarrow> string" where
  "last_word s = rev (takeWhile (\<lambda>c. \<not> is_space c) (dropWhile is_space (rev s)))"

lemma last_word_tail:
  assumes "list_all is_space sp" "list_all is_space post" "\<forall>c \<in> set w. \<not> is_space c"
    and "w \<noteq> []"
  shows "last_word (sp @ w @ post) = w"
proof -
  obtain x xs where x: "rev w = x # xs" using assms(4) by (cases "rev w") auto
  then have "x \<in> set w" by (metis list.set_intros(1) set_rev)
  have "dropWhile is_space (rev post @ rev w @ rev sp) = dropWhile is_space (rev w @ rev sp)"
    using assms(2) by (intro dropWhile_append2) (simp add: list_all_iff)
  also have "\<dots> = rev w @ rev sp"
    using assms(3) \<open>x \<in> set w\<close> by (simp add: x)
  finally have d: "dropWhile is_space (rev post @ rev w @ rev sp) = rev w @ rev sp" .
  have "takeWhile (\<lambda>c. \<not> is_space c) (rev w @ rev sp) = rev w @ takeWhile (\<lambda>c. \<not> is_space c) (rev sp)"
    using assms(3) by (intro takeWhile_append2) simp
  also have "takeWhile (\<lambda>c. \<not> is_space c) (rev sp) = []"
    using assms(1) by (cases sp rule: rev_cases) simp_all
  finally show ?thesis by (simp add: last_word_def d)
qed

lemma last_word_append:
  assumes "\<exists>d \<in> set t. \<not> is_space d" and "is_space c"
  shows "last_word (s @ c # t) = last_word (c # t)"
proof -
  obtain d where d: "d \<in> set (rev t)" "\<not> is_space d" using assms(1) by auto
  have t: "takeWhile (\<lambda>c. \<not> is_space c) (ys @ c # xs) = takeWhile (\<lambda>c. \<not> is_space c) ys" for xs ys
    using assms(2) by (induction ys) simp_all
  have "dropWhile is_space (rev t @ xs) = dropWhile is_space (rev t) @ xs" for xs
    using d by (rule dropWhile_append1)
  then show ?thesis by (simp add: last_word_def t)
qed

lemma passphrase_loop_chars:
  "passphrase_loop (Chars s) False p =
     Some (if list_all is_space s then p else last_word s)"
proof (induction "length s" arbitrary: s p rule: less_induct)
  case less
  define sp where "sp = takeWhile is_space s"
  define s1 where "s1 = dropWhile is_space s"
  have s: "s = sp @ s1" "list_all is_space sp"
    by (simp_all add: sp_def s1_def list_all_iff) (meson set_takeWhileD)
  show ?case
  proof (cases "s1 = []")
    case True
    then have "list_all is_space s" using s by simp
    with True show ?thesis
      by (subst passphrase_loop.simps, subst passphrase_loop.simps) (simp add: s1_def)
  next
    case False
    define w where "w = takeWhile (\<lambda>c. \<not> is_space c) s1"
    define rest where "rest = dropWhile (\<lambda>c. \<not> is_space c) s1"
    have w: "s1 = w @ rest" "\<forall>c \<in> set w. \<not> is_space c"
      by (simp add: w_def rest_def) (auto simp: w_def dest: set_takeWhileD)
    have "\<not> is_space (hd s1)" using False hd_dropWhile [of is_space s] by (simp add: s1_def)
    then have "w \<noteq> []" using False by (cases s1) (simp_all add: w_def)
    then have ns: "\<not> list_all is_space s" using w s by (auto simp: list_all_iff neq_Nil_conv)
    have step: "passphrase_loop (Chars s) False p = passphrase_loop (Chars rest) (rest = []) w"
      using False by (subst passphrase_loop.simps) (simp add: s1_def [symmetric] w_def rest_def Let_def)
    show ?thesis
    proof (cases "list_all is_space rest")
      case True
      have "passphrase_loop (Chars rest) (rest = []) w = Some w"
      proof (cases "rest = []")
        case True
        then show ?thesis by (simp add: passphrase_loop.simps)
      next
        case False
        have "length rest < length s" using s w \<open>w \<noteq> []\<close> by simp
        from less [OF this, of w] True False show ?thesis by simp
      qed
      with step have "passphrase_loop (Chars s) False p = Some w" by simp
      moreover have "last_word s = w"
        using last_word_tail [OF s(2) True w(2) \<open>w \<noteq> []\<close>] s(1) w(1) by simp
      ultimately show ?thesis using ns by simp
    next
      case False
      then obtain c t where r: "rest = c # t" by (cases rest) auto
      then have c: "is_space c"
        using hd_dropWhile [of "\<lambda>c. \<not> is_space c" s1] by (simp add: rest_def)
      then have "last_word s = last_word rest"
        using last_word_append [of t c "sp @ w"] False r s w by (auto simp: list_all_iff)
      moreover have "length rest < length s" using s w \<open>w \<noteq> []\<close> by simp
      ultimately show ?thesis using less [of rest w] step ns False r by auto
    qed
  qed
qed

lemma passphrase_loop_error: "passphrase_loop ReadError False p = None"
proof (rule ccontr)
  assume "passphrase_loop ReadError False p \<noteq> None"
  then obtain r where r: "passphrase_loop ReadError False p = Some r" by blast
  have "\<not> (ReadError = ReadError \<and> False = False)"
  proof (rule passphrase_loop.raw_induct [where P = "\<lambda>d e p r. \<not> (d = ReadError \<and> e = False)", OF _ r])
    fix f dacb eof passphrase r
    assume IH: "\<And>d e p r. f d e p = Some r \<Longrightarrow> \<not> (d = ReadError \<and> e = False)"
      and eq: "(if eof then Some passphrase
            else let (passphrase', dacb', eof') = extract_word dacb passphrase
                 in f dacb' eof' passphrase') = Some r"
    show "\<not> (dacb = ReadError \<and> eof = False)"
    proof
      assume "dacb = ReadError \<and> eof = False"
      with eq have "f ReadError False passphrase = Some r" by simp
      from IH [OF this] show False by simp
    qed
  qed
  then show False by simp
qed

text \<open>
  C29. \<^verbatim>\<open>getPkcsPassphrase\<close> returns the last word of the file, and the empty string without an option,
  a file or a word; on a stream that fails before its end, such as a directory, its loop never
  ends.
\<close>

theorem passphrase_spec:
  "getPkcsPassphrase open_file pkcsFile =
     (if pkcsFile = '''' then Some ''''
      else case open_file pkcsFile of
             None \<Rightarrow> Some ''''
           | Some ReadError \<Rightarrow> None
           | Some (Chars s) \<Rightarrow> Some (if list_all is_space s then '''' else last_word s))"
  by (simp add: getPkcsPassphrase_def passphrase_loop_chars passphrase_loop_error
      split: option.split istream.split)

lemma cleanup_loop_skips:
  assumes "\<forall>j. i \<le> j \<and> j < k \<longrightarrow> \<not> list_all (\<lambda>finished. finished j) tasks \<and> \<not> deadline < now j" and "i \<le> k"
  shows "cleanup_loop now tasks deadline errcode i = cleanup_loop now tasks deadline errcode k"
  using assms(2,1)
proof (induction rule: inc_induct)
  case base
  then show ?case by simp
next
  case (step n)
  then show ?case by (subst cleanup_loop.simps) simp
qed

lemma cleanup_loop_endless:
  assumes "\<forall>j. \<not> list_all (\<lambda>finished. finished j) tasks \<and> \<not> deadline < now j"
  shows "cleanup_loop now tasks deadline errcode k = None"
proof (rule ccontr)
  assume "cleanup_loop now tasks deadline errcode k \<noteq> None"
  then obtain r where r: "cleanup_loop now tasks deadline errcode k = Some r" by blast
  have "\<exists>j. list_all (\<lambda>finished. finished j) tasks \<or> deadline < now j"
  proof (rule cleanup_loop.raw_induct
      [where P = "\<lambda>now tasks deadline e k r. \<exists>j. list_all (\<lambda>finished. finished j) tasks \<or> deadline < now j",
       OF _ r])
    fix f now tasks deadline errcode k r
    assume "\<And>now tasks deadline e k r. f now tasks deadline e k = Some r \<Longrightarrow>
        \<exists>j. list_all (\<lambda>finished. finished j) tasks \<or> deadline < now j"
      and "(let allDone = list_all (\<lambda>finished. finished k) tasks
         in if allDone then Some errcode
            else if deadline < now k then Some EXIT_FAILURE
            else f now tasks deadline errcode (Suc k)) = Some r"
    then show "\<exists>j. list_all (\<lambda>finished. finished j) tasks \<or> deadline < now j"
      by (auto simp: Let_def split: if_splits)
  qed
  with assms show False by blast
qed

text \<open>
  C35. The wait for the clean-up tasks ends as soon as, in one pass, all of them are finished or the
  clock is past the deadline, whichever comes first, and \<^verbatim>\<open>errcode\<close> becomes \<^verbatim>\<open>EXIT_FAILURE\<close>
  exactly in the second case; it does not end if neither ever happens.
\<close>

theorem cleanup_loop_spec:
  "cleanup_loop now tasks deadline errcode 0 =
     (if \<exists>k. list_all (\<lambda>finished. finished k) tasks \<or> deadline < now k
      then let k = (LEAST k. list_all (\<lambda>finished. finished k) tasks \<or> deadline < now k)
           in Some (if list_all (\<lambda>finished. finished k) tasks then errcode else EXIT_FAILURE)
      else None)"
proof (cases "\<exists>k. list_all (\<lambda>finished. finished k) tasks \<or> deadline < now k")
  case True
  define k where "k = (LEAST k. list_all (\<lambda>finished. finished k) tasks \<or> deadline < now k)"
  have k: "list_all (\<lambda>finished. finished k) tasks \<or> deadline < now k"
    using LeastI_ex [OF True] by (simp add: k_def)
  have "\<forall>j. 0 \<le> j \<and> j < k \<longrightarrow> \<not> list_all (\<lambda>finished. finished j) tasks \<and> \<not> deadline < now j"
    using not_less_Least unfolding k_def by blast
  from cleanup_loop_skips [OF this] have "cleanup_loop now tasks deadline errcode 0
      = cleanup_loop now tasks deadline errcode k" by simp
  also have "\<dots> = Some (if list_all (\<lambda>finished. finished k) tasks then errcode else EXIT_FAILURE)"
    using k by (subst cleanup_loop.simps) auto
  finally show ?thesis using True by (simp add: k_def Let_def)
next
  case False
  then show ?thesis using cleanup_loop_endless by simp
qed

text \<open>However many signals arrive, the main loop is told to quit once.\<close>

fun signals :: "bool \<Rightarrow> nat \<Rightarrow> int \<Rightarrow> int \<times> main_call list" where
  "signals root 0 r = (r, [])"
| "signals root (Suc n) r =
     (let (r1, cs1) = flexisip_stop root r; (r2, cs2) = signals root n r1 in (r2, cs1 @ cs2))"

lemma signals_after: "signals root n 0 = (0, [])"
  by (induction n) (simp_all add: flexisip_stop_def)

lemma signals_quit_once:
  "0 < n \<Longrightarrow> r \<noteq> 0 \<Longrightarrow> signals True n r = (0, [Api ''root->quit'' []])"
  by (cases n) (simp_all add: flexisip_stop_def signals_after)

text \<open>
  The locks exclude each other: from the first call on there is one mutex per lock of the library, a
  lock that was taken blocks a second call, and its release lets the next one in; other locks are
  not affected.
\<close>

lemma locking_excludes:
  assumes "n < num" "mode AND 1 \<noteq> 0" "mode' AND 1 = 0"
  shows "locking_function num mode n None = Returned (Some ((replicate num False)[n := True]))"
    and "length t = num \<Longrightarrow> locking_function num mode n (Some t) = Returned (Some t')
      \<Longrightarrow> length t' = num \<and> locking_function num mode n (Some t') = Blocked
        \<and> locking_function num mode' n (Some t') = Returned (Some t)
        \<and> (\<forall>i < num. i \<noteq> n \<longrightarrow> t' ! i = t ! i)"
  using assms
  by (auto simp: locking_function_def list_update_same_conv split: if_splits)

lemma dump_remaining_none: "dump_remaining_msgs msg_map = [''### Remaining messages: 0'']"
  by code_simp

end
