(* ===== verification/CommandLine.thy ===== *)
theory CommandLine
  imports Process
begin

text \<open>
  The command line of \<^verbatim>\<open>src/src/main/flexisip-conference.cc\<close>: the declared options, the overrides of
  the configuration and of host addresses, the sections marked as deprecated, and the options that
  print something and leave. Parsing the arguments is the TCLAP library's.
\<close>

section \<open>The options\<close>

datatype arg_kind = ValueArg | SwitchArg | MultiArg

record Arg =
  arg_kind :: arg_kind
  arg_flag :: string
  arg_name :: string
  arg_desc :: string
  arg_default :: "string option"
  arg_type :: "string option"

definition arg :: "arg_kind \<Rightarrow> string \<Rightarrow> string \<Rightarrow> string \<Rightarrow> string option \<Rightarrow> string option \<Rightarrow> Arg" where
  "arg k f n d v t = \<lparr>arg_kind = k, arg_flag = f, arg_name = n, arg_desc = d, arg_default = v, arg_type = t\<rparr>"

definition default_config_file :: "string \<Rightarrow> string" where
  "default_config_file config_dir = config_dir @ ''/flexisip-conference.conf''"

definition cmd_args :: "string \<Rightarrow> Arg list" where
  "cmd_args config_dir = [
     arg ValueArg ''c'' ''config''
       (''Location of the configuration file.''
        @ ''Default is: ''
        @ default_config_file config_dir)
       (Some (default_config_file config_dir)) (Some ''file''),
     arg SwitchArg '''' ''disable-stdout''
       ''Do not display logs in the standard output. They are still printed in log files.''
       None None,
     arg SwitchArg ''d'' ''debug''
       (''Print logs in debug level to the terminal ''
        @ ''(does not affect the logging level of log files).'')
       None None,
     arg ValueArg ''p'' ''pidfile''
       ''PID file location (when running in daemon mode).''
       (Some '''') (Some ''file''),
     arg SwitchArg '''' ''syslog''
       ''Enable system logs (syslog).''
       None None,
     arg ValueArg ''t'' ''transports''
       (''List of transports to handle (overrides those ''
        @ ''defined in the configuration file).'')
       (Some '''') (Some ''sips:* sip:*''),
     arg ValueArg '''' ''dump-default''
       (''Dump default configuration in the standard ''
        @ ''output. Use 'all' to dump the configuration of ''
        @ ''all modules, or '<module_name>' to dump the ''
        @ ''configuration of a specific module.'')
       (Some '''') (Some ''all''),
     arg SwitchArg '''' ''dump-all-default''
       (''Dump all default configurations in the standard ''
        @ ''output (equivalent to '--dump-default all'). '')
       None None,
     arg ValueArg '''' ''dump-format''
       (''Output format of configuration dump ''
        @ ''(default: 'file'). Possible values: 'file', ''
        @ (CHR 0x27 # ''tex', 'doku', 'media', 'xwiki'.''))
       (Some ''file'') (Some ''file''),
     arg SwitchArg '''' ''list-modules''
       (''Dump the list of available modules in the ''
        @ ''standard output. It can be useful to combine ''
        @ ''with '--dump-default' in order to have specific ''
        @ ''documentation for a module.'')
       None None,
     arg SwitchArg '''' ''list-sections''
       (''Dump the list of available sections in the ''
        @ ''standard output. It can be useful to combine ''
        @ ''with '--dump-default' in order to have specific ''
        @ ''documentation for a section.'')
       None None,
     arg SwitchArg '''' ''rewrite-config''
       (''Load the configuration file and dump a new one ''
        @ ''in the standard output adding the new settings ''
        @ ''and updating documentations. All the existing ''
        @ ''settings are preserved even if they are equal ''
        @ ''to the default value and the default value has ''
        @ ''changed.'')
       None None,
     arg SwitchArg '''' ''remove-deprecated''
       (''When dumping the configuration, remove all ''
        @ ''deprecated parameters even if they had a value ''
        @ ''explicitly set.'')
       None None,
     arg SwitchArg '''' ''dump-mibs''
       (''Dump the MIB files for Flexisip performance ''
        @ ''counters and other related SNMP items in the ''
        @ ''standard output.'')
       None None,
     arg ValueArg '''' ''p12-passphrase-file''
       ''Location of the pkcs12 passphrase file.''
       (Some '''') (Some ''file''),
     arg SwitchArg '''' ''show-experimental''
       (''Dump the configuration of experimental modules in the ''
        @ ''standard output. It MUST be used with''
        @ (CHR 0x27 # ''--dump-default', '--dump-all-default' or'')
        @ (CHR 0x27 # ''--rewrite-config' options''))
       None None,
     arg ValueArg '''' ''list-overrides''
       (''Dump the list of configuration values that you ''
        @ ''can override. Use 'all' to get all possible ''
        @ ''overrides or '<module_name>' to get all ''
        @ ''possible overrides for a specific module. It ''
        @ ''can be useful to use with '--set'.'')
       (Some '''') (Some ''module''),
     arg MultiArg ''s'' ''set''
       (''Allows to override a setting in the ''
        @ ''configuration file. Use --list-overrides to get ''
        @ ''the list of all values that you can override.'')
       None (Some ''global/debug=true''),
     arg MultiArg '''' ''hosts''
       (''Overrides a host address. You can use this flag ''
        @ ''multiple times. Also, you can remove an ''
        @ ''association by providing an empty ''
        @ ''value: '--hosts myhost='.'')
       None (Some ''host=ip''),
     arg SwitchArg '''' ''track-allocations''
       (''Track allocations of SIP messages (use with ''
        @ ''caution).'')
       None None]"

text \<open>The values of the options after \<^verbatim>\<open>cmd.parse\<close>.\<close>

record Options =
  configFile :: string
  disableStdout :: bool
  useDebug :: bool
  pidFile :: string
  useSyslog :: bool
  transportsArg :: string
  dumpDefault :: string
  dumpAll :: bool
  dumpFormat :: string
  listModules :: bool
  listSections :: bool
  rewriteConf :: bool
  removeDeprecated :: bool
  dumpMibs :: bool
  pkcsFile :: string
  displayExperimental :: bool
  listOverrides :: string
  overrideConfig :: "string list"
  hostsOverride :: "string list"
  trackAllocs :: bool

section \<open>Overrides\<close>

text \<open>A text split at its first \<open>=\<close>.\<close>

definition split_equal :: "string \<Rightarrow> (string \<times> string) option" where
  "split_equal kv = map_option (\<lambda>pos. (take pos kv, drop (pos + 1) kv)) (str_find ''='' kv)"

text \<open>The loop that fills \<^verbatim>\<open>oset\<close>; texts without \<open>=\<close> are passed over.\<close>

fun oset_loop :: "string list \<Rightarrow> (string \<rightharpoonup> string) \<Rightarrow> (string \<rightharpoonup> string)" where
  "oset_loop [] oset = oset"
| "oset_loop (kv # kvs) oset =
     oset_loop kvs (case split_equal kv of None \<Rightarrow> oset | Some (k, v) \<Rightarrow> oset(k \<mapsto> v))"

definition override_hosts :: "string list \<Rightarrow> main_call list" where
  "override_hosts hosts =
     concat (map (\<lambda>it. case split_equal it of None \<Rightarrow> [] | Some (host, ip) \<Rightarrow> [SetHost host ip]) hosts)"

section \<open>Deprecated sections\<close>

fun getName :: "entry \<Rightarrow> string" where
  "getName (GenericStruct n children) = n"
| "getName (ConfigValue n) = n"
| "getName (OtherEntry n) = n"

fun getChildren :: "entry \<Rightarrow> entry list" where
  "getChildren (GenericStruct n children) = children"
| "getChildren _ = []"

definition sectionsToDeprecate :: "string list" where
  "sectionsToDeprecate = [''event-logs'', ''mdns-register'', ''regevent-server'', ''stun-server'',
     ''global::flexiapi'', ''inter-domain-connections'']"

definition modulesToKeep :: "string list" where
  "modulesToKeep = [''module::Registrar'']"

definition deprecate_section :: "string \<Rightarrow> main_call list" where
  "deprecate_section sectionName =
     (if sectionName \<in> set sectionsToDeprecate
      then [SetDeprecated sectionName ''2026-06-01'' ''1.0.0''
             (''This section is not needed for the conference server since it was separated from ''
              @ ''the other Flexisip servers.'')]
      else if prefix ''module::'' sectionName \<and> sectionName \<notin> set modulesToKeep
      then [SetDeprecated sectionName ''2026-06-01'' ''1.0.0''
             ''Section not needed by the conference server since it was separated from the other Flexisip servers.'']
      else [])"

definition deprecate_sections :: "entry \<Rightarrow> main_call list" where
  "deprecate_sections root = concat (map (\<lambda>section. deprecate_section (getName section)) (getChildren root))"

section \<open>Listing\<close>

text \<open>\<^verbatim>\<open>depthFirstSearch\<close>; the last argument is \<^verbatim>\<open>allCompletions\<close>.\<close>

fun depthFirstSearch :: "string \<Rightarrow> entry \<Rightarrow> string list \<Rightarrow> string list" where
  "depthFirstSearch path0 (GenericStruct name children) = (\<lambda>allCompletions.
      let newpath = (if path0 \<noteq> '''' then path0 @ ''/'' else '''') @ (if name \<noteq> ''flexisip'' then name else '''')
      in fold (depthFirstSearch newpath) children allCompletions)"
| "depthFirstSearch path0 (ConfigValue name) = (\<lambda>allCompletions.
      allCompletions @ [(if path0 \<noteq> '''' then path0 @ ''/'' else '''') @ name])"
| "depthFirstSearch path0 (OtherEntry name) = (\<lambda>allCompletions. allCompletions)"

text \<open>\<^verbatim>\<open>compare(0, n, s) == 0\<close>: the first \<open>n\<close> characters, or all of a shorter text.\<close>

definition list_overrides :: "string \<Rightarrow> entry \<Rightarrow> main_call list" where
  "list_overrides filter_text rootCfg =
     concat (map (\<lambda>it. if filter_text = ''all'' then [Cout (it @ [CHR 0x0A])]
                       else if take (length filter_text) it = filter_text then [Cout (it @ [CHR 0x0A])]
                       else [])
       (depthFirstSearch '''' rootCfg [''nosnmp'']))"

definition list_sections :: "entry \<Rightarrow> bool \<Rightarrow> main_call list" where
  "list_sections root moduleOnly =
     concat (map (\<lambda>child. if \<not> moduleOnly \<or> take (length ''module::'') (getName child) = ''module::''
                          then [Cout (getName child @ [CHR 0x0A])] else []) (getChildren root))"

text \<open>\<open>join_text\<close> is \<^verbatim>\<open>string_utils::join\<close> of the library.\<close>

definition version_text :: "(string list \<Rightarrow> nat \<Rightarrow> string \<Rightarrow> string) \<Rightarrow> bool \<Rightarrow> string \<Rightarrow> string \<Rightarrow> string" where
  "version_text join_text enable_snmp git sofia =
     (let options = (if enable_snmp then [''SNMP''] else []) @ [''Redis'', ''Soci'', ''Conference'']
      in git @ '' (sofia-sip: '' @ sofia @ '')''
         @ (if options \<noteq> [] then '' compiled with '' @ join_text options 0 '' - '' else ''''))"

section \<open>Dumping the configuration\<close>

text \<open>The part after \<open>module::\<close> of a text the regular expression \<open>^module::(.*)$\<close> matches.\<close>

definition match_module :: "string \<Rightarrow> string option" where
  "match_module s =
     (if prefix ''module::'' s \<and> list_all (\<lambda>c. c \<noteq> CHR 0x0A \<and> c \<noteq> CHR 0x0D) (drop 8 s)
      then Some (drop 8 s) else None)"

definition dumper_for :: "string \<Rightarrow> bool \<Rightarrow> dumper option" where
  "dumper_for format dump_default =
     (if format = ''tex'' then Some TexFileConfigDumper
      else if format = ''doku'' then Some DokuwikiConfigDumper
      else if format = ''file'' then Some (FileConfigDumper (if dump_default then DefaultValue else DefaultIfUnset))
      else if format = ''media'' then Some MediaWikiConfigDumper
      else if format = ''xwiki'' then Some XWikiConfigDumper
      else None)"

text \<open>
  \<open>find_node\<close> is \<^verbatim>\<open>find\<close> of the root, \<open>chain\<close> the names of the modules with whether they are
  experimental.
\<close>

definition dump_config :: "entry \<Rightarrow> (string \<Rightarrow> entry option) \<Rightarrow> (string \<times> bool) list
    \<Rightarrow> string \<Rightarrow> bool \<Rightarrow> bool \<Rightarrow> bool \<Rightarrow> string \<Rightarrow> (main_call, main_error, unit) action" where
  "dump_config root find_node chain dump_cfg_part with_experimental dump_default remove_deprecated format =
     seqA (call (ApplyOverrides True)) (\<lambda>_.
     seqA (if dump_cfg_part \<noteq> ''all''
           then (case find_node dump_cfg_part of
               Some (GenericStruct n children) \<Rightarrow>
                 seqA (case match_module dump_cfg_part of
                     None \<Rightarrow> ret ()
                   | Some moduleName \<Rightarrow>
                       (case find (\<lambda>(name, experimental). name = moduleName) chain of
                          None \<Rightarrow> ret ()
                        | Some (name, experimental) \<Rightarrow>
                            guardA (\<not> (experimental \<and> \<not> with_experimental)) (Thrown (ExitFailure
                              (''module '' @ moduleName @ '' is experimental, not returning anything. ''
                               @ ''To override, specify '' @ [CHR 0x27] @ ''--show-experimental'' @ [CHR 0x27] @ ''.'')))))
                   (\<lambda>_. ret (GenericStruct n children))
             | _ \<Rightarrow> raise (Thrown (ExitFailure (''couldn't find node '' @ dump_cfg_part))))
           else ret root) (\<lambda>rootStruct.
     case dumper_for format dump_default of
       None \<Rightarrow> raise (Thrown (ExitFailure (''invalid output format '' @ [CHR 0x27] @ format @ [CHR 0x27])))
     | Some d \<Rightarrow> call (Dump d rootStruct with_experimental remove_deprecated)))"

section \<open>Properties\<close>

text \<open>
  No two options share a flag or a name, and none has a name of the options the library adds
  (\<open>help\<close>, \<open>version\<close>, \<open>ignore_rest\<close>), so the declarations are accepted.
\<close>

lemma cmd_args_distinct:
  "distinct (map arg_name (cmd_args config_dir))"
  "distinct (filter (\<lambda>f. f \<noteq> '''') (map arg_flag (cmd_args config_dir)))"
  "set (map arg_name (cmd_args config_dir)) \<inter> {''help'', ''version'', ''ignore_rest''} = {}"
  "set (map arg_flag (cmd_args config_dir)) \<inter> {''h'', ''-''} = {}"
  by (simp_all add: cmd_args_def arg_def)

lemma split_equal_absent: "CHR ''='' \<notin> set kv \<Longrightarrow> split_equal kv = None"
  by (simp add: split_equal_def str_find_None_iff sublist_Cons_right)
    (induction kv, auto simp: str_find_None_iff sublist_Cons_right)

lemma str_find_char: "c \<notin> set k \<Longrightarrow> str_find [c] (k @ c # v) = Some (length k)"
  by (induction k) auto

lemma split_equal_present: "CHR ''='' \<notin> set k \<Longrightarrow> split_equal (k @ ''='' @ v) = Some (k, v)"
  by (simp add: split_equal_def str_find_char)

lemma oset_loop_append: "oset_loop (xs @ ys) m = oset_loop ys (oset_loop xs m)"
  by (induction xs arbitrary: m) simp_all

text \<open>
  \<^verbatim>\<open>--set key=value\<close> overrides \<open>key\<close> with \<open>value\<close>, which may itself contain \<open>=\<close>, whatever
  was set before, and leaves the other keys alone; a text without \<open>=\<close> is ignored; \<^verbatim>\<open>--hosts\<close> splits
  its texts in the same way, and \<^verbatim>\<open>host=\<close> sets the empty address.
\<close>

lemma overrides_spec:
  assumes "CHR ''='' \<notin> set k"
  shows "oset_loop (kvs @ [k @ ''='' @ v]) oset = (oset_loop kvs oset)(k \<mapsto> v)
    \<and> oset_loop (kvs @ [k]) oset = oset_loop kvs oset
    \<and> override_hosts (kvs @ [k @ ''='' @ v]) = override_hosts kvs @ [SetHost k v]"
  using split_equal_present [OF assms, of v] split_equal_absent [OF assms]
  by (simp_all add: oset_loop_append override_hosts_def)

lemma overrides_spec_example:
  "oset_loop [''a=1'', ''b'', ''a=2=3''] Map.empty ''a'' = Some ''2=3''"
  using overrides_spec [of "''a''" "[''a=1'', ''b'']" "''2=3''" Map.empty] by simp

text \<open>The paths from a node to its values, and a path as it is written.\<close>

fun leaf_paths :: "entry \<Rightarrow> string list list" where
  "leaf_paths (GenericStruct name children) = map (\<lambda>p. name # p) (concat (map leaf_paths children))"
| "leaf_paths (ConfigValue name) = [[name]]"
| "leaf_paths (OtherEntry name) = []"

fun slash_join :: "string list \<Rightarrow> string" where
  "slash_join [] = ''''"
| "slash_join [n] = n"
| "slash_join (n # ns) = n @ ''/'' @ slash_join ns"

text \<open>No section below the root is without a name or called \<open>flexisip\<close>.\<close>

fun plain :: "entry \<Rightarrow> bool" where
  "plain (GenericStruct name children) \<longleftrightarrow> name \<noteq> '''' \<and> name \<noteq> ''flexisip'' \<and> list_all plain children"
| "plain _ \<longleftrightarrow> True"

lemma leaf_paths_nonempty: "p \<in> set (leaf_paths e) \<Longrightarrow> p \<noteq> []"
  by (cases e) auto

lemma slash_join_Cons: "p \<noteq> [] \<Longrightarrow> slash_join (n # p) = n @ ''/'' @ slash_join p"
  by (cases p) simp_all

lemma fold_append_each:
  assumes "\<And>x acc. x \<in> set xs \<Longrightarrow> f x acc = acc @ g x"
  shows "fold f xs acc = acc @ concat (map g xs)"
  using assms by (induction xs arbitrary: acc) simp_all

lemma depthFirstSearch_plain:
  "plain e \<Longrightarrow> depthFirstSearch pre e acc =
     acc @ map (\<lambda>p. (if pre \<noteq> '''' then pre @ ''/'' else '''') @ slash_join p) (leaf_paths e)"
proof (induction e arbitrary: pre acc)
  case (GenericStruct name children)
  let ?pre = "(if pre \<noteq> '''' then pre @ ''/'' else '''') @ name"
  have "depthFirstSearch pre (GenericStruct name children) acc
      = fold (depthFirstSearch ?pre) children acc"
    using GenericStruct.prems by (simp add: Let_def)
  also have "\<dots> = acc @ concat (map (\<lambda>e. map (\<lambda>p. ?pre @ ''/'' @ slash_join p) (leaf_paths e)) children)"
    using GenericStruct by (intro fold_append_each) (auto simp: list_all_iff)
  also have "concat (map (\<lambda>e. map (\<lambda>p. ?pre @ ''/'' @ slash_join p) (leaf_paths e)) children)
      = map (\<lambda>p. (if pre \<noteq> '''' then pre @ ''/'' else '''') @ slash_join p)
          (leaf_paths (GenericStruct name children))"
    by (auto simp: map_concat comp_def slash_join_Cons leaf_paths_nonempty intro!: arg_cong [of _ _ concat])
  finally show ?case .
qed simp_all

text \<open>
  C37. \<^verbatim>\<open>--list-overrides\<close> prints, in the order of the configuration, the path of every value below
  the root that starts with the given text, or every one for \<open>all\<close>: the names of its sections and
  its own name with slashes between them, without that of the root.
\<close>

theorem list_overrides_spec:
  assumes "list_all plain children"
  shows "list_overrides filter_text (GenericStruct ''flexisip'' children) =
    map (\<lambda>c. Cout (c @ [CHR 0x0A]))
      (filter (\<lambda>c. filter_text = ''all'' \<or> prefix filter_text c)
        (''nosnmp'' # map slash_join (concat (map leaf_paths children))))"
proof -
  have "depthFirstSearch '''' (GenericStruct ''flexisip'' children) acc
      = acc @ concat (map (\<lambda>e. map slash_join (leaf_paths e)) children)" for acc
    using assms fold_append_each [of children "depthFirstSearch ''''" "\<lambda>e. map slash_join (leaf_paths e)" acc]
    by (simp add: depthFirstSearch_plain list_all_iff)
  then have d: "depthFirstSearch '''' (GenericStruct ''flexisip'' children) [''nosnmp'']
      = ''nosnmp'' # map slash_join (concat (map leaf_paths children))"
    by (simp add: map_concat comp_def del: depthFirstSearch.simps)
  have t: "take (length f) c = f \<longleftrightarrow> prefix f c" for f c :: string
    by (metis append_eq_conv_conj prefix_def take_is_prefix)
  have c: "concat (map (\<lambda>it. if f = ''all'' then [Cout (it @ [CHR 0x0A])]
      else if take (length f) it = f then [Cout (it @ [CHR 0x0A])] else []) cs)
      = map (\<lambda>c. Cout (c @ [CHR 0x0A])) (filter (\<lambda>c. f = ''all'' \<or> prefix f c) cs)" for f cs
    by (induction cs) (simp_all add: t)
  show ?thesis by (simp only: list_overrides_def d c)
qed

definition sample_root :: "entry list" where
  "sample_root = [GenericStruct ''global'' [ConfigValue ''debug'', OtherEntry ''count''],
     GenericStruct ''conference-server'' [ConfigValue ''transport'']]"

theorem list_overrides_spec_witness:
  "list_overrides ''conference-server'' (GenericStruct ''flexisip'' sample_root)
     = [Cout (''conference-server/transport'' @ [CHR 0x0A])]"
proof -
  have "list_all plain sample_root" by (simp add: sample_root_def)
  from list_overrides_spec [OF this, of "''conference-server''"] show ?thesis
    by (simp add: sample_root_def prefix_def)
qed

lemma deprecated_sections:
  "(\<exists>d v t. SetDeprecated n d v t \<in> set (deprecate_sections root)) \<longleftrightarrow>
     n \<in> getName ` set (getChildren root)
   \<and> (n \<in> set sectionsToDeprecate \<or> prefix ''module::'' n \<and> n \<noteq> ''module::Registrar'')"
proof -
  let ?P = "n \<in> set sectionsToDeprecate \<or> prefix ''module::'' n \<and> n \<noteq> ''module::Registrar''"
  have one: "(\<exists>d v t. SetDeprecated n d v t \<in> set (deprecate_section m)) \<longleftrightarrow> n = m \<and> ?P" for m
    by (auto simp: deprecate_section_def modulesToKeep_def)
  have "(\<exists>d v t. SetDeprecated n d v t \<in> set (deprecate_sections root)) \<longleftrightarrow>
      (\<exists>x \<in> set (getChildren root). \<exists>d v t. SetDeprecated n d v t \<in> set (deprecate_section (getName x)))"
    unfolding deprecate_sections_def set_concat set_map by blast
  then show ?thesis unfolding one by (simp add: image_iff)
qed

text \<open>Whether a text names a module that is experimental.\<close>

definition experimental_module :: "(string \<times> bool) list \<Rightarrow> string \<Rightarrow> bool" where
  "experimental_module chain part =
     (case match_module part of
        None \<Rightarrow> False
      | Some m \<Rightarrow> (case find (\<lambda>(name, ex). name = m) chain of None \<Rightarrow> False | Some (n, ex) \<Rightarrow> ex))"

text \<open>
  \<^verbatim>\<open>dump_config\<close> succeeds exactly for the five formats of the help text, and, unless everything
  is asked for, for a node that is found, is a section and is not an experimental module that was not
  asked for; it then makes one dump, of that node. When it raises, nothing was dumped.
\<close>

lemma dump_config_spec:
  "(snd (dump_config root find_node chain part ex dd rd format) = Inr ()) =
     (format \<in> {''file'', ''tex'', ''doku'', ''media'', ''xwiki''}
      \<and> (part = ''all''
         \<or> (\<exists>n cs. find_node part = Some (GenericStruct n cs))
           \<and> \<not> (experimental_module chain part \<and> \<not> ex)))
   \<and> fst (dump_config root find_node chain part ex dd rd format) =
     ApplyOverrides True #
     (if snd (dump_config root find_node chain part ex dd rd format) = Inr ()
      then [Dump (the (dumper_for format dd)) (if part = ''all'' then root else the (find_node part)) ex rd]
      else [])" (is "?ok = ?accepted \<and> ?calls")
proof
  have f: "dumper_for format dd = None \<longleftrightarrow> format \<notin> {''file'', ''tex'', ''doku'', ''media'', ''xwiki''}"
    by (simp add: dumper_for_def)
  show "?ok = ?accepted"
    using f by (cases "dumper_for format dd")
      (auto simp: dump_config_def seqA_def experimental_module_def guardA_def
        split: option.splits entry.splits prod.splits)
  show ?calls
    by (cases "dumper_for format dd")
      (auto simp: dump_config_def seqA_def guardA_def split: option.splits entry.splits prod.splits)
qed

end
