(* ===== verification/Capabilities.thy ===== *)
theory Capabilities
  imports ThirdParty
begin

unbundle bit_operations_syntax

text \<open>
  The base class \<^verbatim>\<open>RegistrationSubscription\<close> of
  \<^verbatim>\<open>src/src/conference/registration-subscription.cc\<close>: its members, the two notifications it
  sends to its chat room and the capability check of a device.
\<close>

section \<open>State and operations\<close>

record RegistrationSubscription =
  mCheckCapabilities :: bool
  mChatRoom :: chatroom
  mParticipant :: Address

definition RegistrationSubscription_init ::
    "bool \<Rightarrow> chatroom \<Rightarrow> Address \<Rightarrow> RegistrationSubscription" where
  "RegistrationSubscription_init checkCapabilities cr participant =
     \<lparr>mCheckCapabilities = checkCapabilities, mChatRoom = cr, mParticipant = participant\<rparr>"

definition getChatRoom :: "'a RegistrationSubscription_scheme \<Rightarrow> chatroom" where
  "getChatRoom b = mChatRoom b"

definition notify ::
    "'a RegistrationSubscription_scheme \<Rightarrow> ParticipantDeviceIdentity list \<Rightarrow> ext_call list" where
  "notify b participantDevices =
     [SetParticipantDevices (mChatRoom b) (mParticipant b) participantDevices]"

text \<open>The debug message of \<^verbatim>\<open>notifyRegistration\<close> dereferences the address it is given.\<close>

definition notifyRegistration :: "env \<Rightarrow> 'a RegistrationSubscription_scheme \<Rightarrow> Address option
    \<Rightarrow> fault + ext_call list" where
  "notifyRegistration E b participantDevice =
     (if debugLogs E \<and> participantDevice = None then Inl NullDeref
      else Inr [NotifyParticipantDeviceRegistration (mChatRoom b) participantDevice])"

definition getMaskFromSpecs :: "env \<Rightarrow> string \<Rightarrow> 32 word" where
  "getMaskFromSpecs E specs =
     (let mask0 = 0;
          mask1 = (if str_find ''groupchat'' specs \<noteq> None then mask0 OR cap_Conference E else mask0);
          mask2 = (if str_find ''lime'' specs \<noteq> None then mask1 OR cap_Encrypted E else mask1);
          mask3 = (if str_find ''ephemeral'' specs \<noteq> None then mask2 OR cap_Ephemeral E else mask2)
      in mask3)"

definition isContactCompatible ::
    "env \<Rightarrow> 'a RegistrationSubscription_scheme \<Rightarrow> string \<Rightarrow> bool" where
  "isContactCompatible E b specs =
     (if \<not> mCheckCapabilities b then True
      else let mask = cap_OneToOne E OR getMaskFromSpecs E specs;
               chatRoomCapabilities = getCapabilities E (mChatRoom b)
           in mask AND chatRoomCapabilities = chatRoomCapabilities)"

section \<open>The notifications concern the subscription's own chat room\<close>

lemma notify_room_calls: "\<forall>x \<in> set (notify b ds). is_room_call x \<and> call_room x = Some (mChatRoom b)"
  by (simp add: notify_def)

lemma notifyRegistration_room_calls:
  "notifyRegistration E b d = Inr cs \<Longrightarrow>
     \<forall>x \<in> set cs. is_room_call x \<and> call_room x = Some (mChatRoom b)"
  by (auto simp: notifyRegistration_def split: if_splits)

lemma notifyRegistration_Some [simp]:
  "notifyRegistration E b (Some a) = Inr [NotifyParticipantDeviceRegistration (mChatRoom b) (Some a)]"
  by (simp add: notifyRegistration_def)

section \<open>Which devices are compatible\<close>

lemma bit_getMaskFromSpecs:
  "bit (getMaskFromSpecs E specs) n \<longleftrightarrow>
     sublist ''groupchat'' specs \<and> bit (cap_Conference E) n
   \<or> sublist ''lime'' specs \<and> bit (cap_Encrypted E) n
   \<or> sublist ''ephemeral'' specs \<and> bit (cap_Ephemeral E) n"
  by (auto simp: getMaskFromSpecs_def Let_def str_find_None_iff bit_or_iff)

lemma and_absorb_iff_bits:
  fixes m c :: "'l::len word"
  shows "m AND c = c \<longleftrightarrow> (\<forall>n. bit c n \<longrightarrow> bit m n)"
  by (metis bit_and_iff bit_eqI)

lemma compatible_iff:
  "isContactCompatible E b specs \<longleftrightarrow>
     \<not> mCheckCapabilities b
   \<or> (\<forall>n. bit (getCapabilities E (mChatRoom b)) n \<longrightarrow>
          bit (cap_OneToOne E) n
        \<or> sublist ''groupchat'' specs \<and> bit (cap_Conference E) n
        \<or> sublist ''lime'' specs \<and> bit (cap_Encrypted E) n
        \<or> sublist ''ephemeral'' specs \<and> bit (cap_Ephemeral E) n)"
  by (auto simp: isContactCompatible_def Let_def and_absorb_iff_bits bit_or_iff
      bit_getMaskFromSpecs)

text \<open>
  C27. A device is compatible with a chat room exactly when checking is disabled or every
  capability bit of the room is a bit of \<open>OneToOne\<close> or of a capability the device's specs name
  (\<open>groupchat\<close>, \<open>lime\<close> and \<open>ephemeral\<close> occurring anywhere in the string).
\<close>

theorem isContactCompatible_iff:
  "isContactCompatible E b specs =
     (if mCheckCapabilities b
      then {n. bit (getCapabilities E (mChatRoom b)) n}
           \<subseteq> {n. bit (cap_OneToOne E) n}
             \<union> (if sublist ''groupchat'' specs then {n. bit (cap_Conference E) n} else {})
             \<union> (if sublist ''lime'' specs then {n. bit (cap_Encrypted E) n} else {})
             \<union> (if sublist ''ephemeral'' specs then {n. bit (cap_Ephemeral E) n} else {})
      else True)"
  unfolding compatible_iff by auto

text \<open>
  Adding to the specs string of a device never makes a compatible device incompatible.
\<close>

lemma isContactCompatible_mono:
  assumes "sublist specs specs'" and "isContactCompatible E b specs"
  shows "isContactCompatible E b specs'"
  using assms sublist_order.order.trans [OF _ assms(1)]
  unfolding compatible_iff by blast

section \<open>A concrete environment\<close>

text \<open>
  The values of the third-party functions used in the witnesses: capability flags on distinct
  bits, a room number as its capabilities, an address for every string.
\<close>

definition sample_address :: "string \<Rightarrow> string \<Rightarrow> Address" where
  "sample_address user domain =
     \<lparr>getUsername = user, getDomain = domain,
      asStringUriOnly = ''sip:'' @ user @ ''@'' @ domain,
      asStringUriOnlyOrdered = ''sip:'' @ user @ ''@'' @ domain\<rparr>"

definition sample_env :: env where
  "sample_env =
     \<lparr>createAddress = (\<lambda>s. Some (sample_address s ''example.org'')),
      makeSipUri = (\<lambda>s. Some s),
      getCapabilities = (\<lambda>r. 4),
      cap_OneToOne = 32, cap_Conference = 4, cap_Encrypted = 64, cap_Ephemeral = 128,
      descriptorOf = concat, unquote = (\<lambda>s. s), nullIdentity = True,
      parseReginfo = (\<lambda>_. Some []), clearOrder = (\<lambda>m. m),
      useGlobalDomain = False, debugLogs = True, infoLogs = True\<rparr>"

end
