(* ===== verification/RegEventClient.thy ===== *)
theory RegEventClient
  imports ThirdParty
begin

text \<open>
  The client of the \<^verbatim>\<open>reg\<close> event package: \<^verbatim>\<open>registration_event::ClientFactory\<close>
  (\<^verbatim>\<open>src/src/registration-events/client-factory.cc\<close>) and \<^verbatim>\<open>registration_event::Client\<close>
  (\<^verbatim>\<open>src/src/registration-events/client.cc\<close>). The operations return the new state of the object,
  the calls made, and the callbacks to give to the observers, in order.
\<close>

section \<open>The factory\<close>

record ClientFactory =
  mUseCount :: int
  mSubscriptionRefreshDelay :: int

definition ClientFactory_init :: "int \<Rightarrow> ClientFactory" where
  "ClientFactory_init subscriptionRefreshDelay =
     \<lparr>mUseCount = 0, mSubscriptionRefreshDelay = subscriptionRefreshDelay\<rparr>"

definition getSubscriptionRefreshDelay :: "ClientFactory \<Rightarrow> int" where
  [simp]: "getSubscriptionRefreshDelay f = mSubscriptionRefreshDelay f"

definition registerClient :: "ClientFactory \<Rightarrow> ClientFactory \<times> ext_call list" where
  "registerClient f =
     (f\<lparr>mUseCount := mUseCount f + 1\<rparr>, if mUseCount f = 0 then [CoreAddListener] else [])"

definition unregisterClient :: "ClientFactory \<Rightarrow> ClientFactory \<times> ext_call list" where
  "unregisterClient f =
     (let n = mUseCount f - 1
      in (f\<lparr>mUseCount := n\<rparr>, if n = 0 then [CoreRemoveListener] else []))"

subsection \<open>The factory listens to the core exactly while it is used\<close>

text \<open>
  The contract a client relies on: \<open>acquire\<close> and \<open>release\<close> count the users and switch a
  listener on with the first user and off with the last one.
\<close>

locale use_counter =
  fixes acquire :: "'f \<Rightarrow> 'f \<times> ext_call list"
    and release :: "'f \<Rightarrow> 'f \<times> ext_call list"
    and count :: "'f \<Rightarrow> int"
  assumes acquire_count: "count (fst (acquire f)) = count f + 1"
    and release_count: "count (fst (release f)) = count f - 1"
    and acquire_listening:
      "0 \<le> count f \<Longrightarrow> fold upd_listening (snd (acquire f)) (0 < count f)"
    and release_listening:
      "0 < count f \<Longrightarrow> fold upd_listening (snd (release f)) True \<longleftrightarrow> 1 < count f"
begin

definition consistent :: "'f \<Rightarrow> ext_call list \<Rightarrow> bool" where
  "consistent f cs \<longleftrightarrow> 0 \<le> count f \<and> (core_listening cs \<longleftrightarrow> 0 < count f)"

lemma consistent_acquire:
  "consistent f cs \<Longrightarrow> consistent (fst (acquire f)) (cs @ snd (acquire f))"
  using acquire_listening [of f]
  by (simp add: consistent_def acquire_count trace_append)

lemma consistent_release:
  "consistent f cs \<Longrightarrow> 0 < count f \<Longrightarrow> consistent (fst (release f)) (cs @ snd (release f))"
  using release_listening [of f]
  by (simp add: consistent_def release_count trace_append)

text \<open>Any history of users, \<open>True\<close> for one that comes, \<open>False\<close> for one that goes.\<close>

fun run :: "bool list \<Rightarrow> 'f \<Rightarrow> ext_call list \<Rightarrow> 'f \<times> ext_call list" where
  "run [] f cs = (f, cs)"
| "run (b # bs) f cs =
     (let (f', ds) = (if b then acquire f else release f) in run bs f' (cs @ ds))"

fun balanced :: "int \<Rightarrow> bool list \<Rightarrow> bool" where
  "balanced n [] = True"
| "balanced n (b # bs) = (if b then balanced (n + 1) bs else 0 < n \<and> balanced (n - 1) bs)"

lemma run_consistent:
  "consistent f cs \<Longrightarrow> balanced (count f) bs \<Longrightarrow>
     consistent (fst (run bs f cs)) (snd (run bs f cs))"
proof (induction bs arbitrary: f cs)
  case Nil
  then show ?case by simp
next
  case (Cons b bs)
  show ?case
  proof (cases b)
    case True
    have "consistent (fst (acquire f)) (cs @ snd (acquire f))"
      using Cons.prems(1) by (rule consistent_acquire)
    moreover have "balanced (count (fst (acquire f))) bs"
      using Cons.prems(2) True by (simp add: acquire_count)
    ultimately show ?thesis
      using Cons.IH True by (simp add: case_prod_beta)
  next
    case False
    with Cons.prems(2) have "0 < count f" and bal: "balanced (count (fst (release f))) bs"
      by (simp_all add: release_count)
    with Cons.prems(1) have "consistent (fst (release f)) (cs @ snd (release f))"
      by (blast intro: consistent_release)
    with bal show ?thesis
      using Cons.IH False by (simp add: case_prod_beta)
  qed
qed

end

interpretation fac: use_counter registerClient unregisterClient mUseCount
  by unfold_locales
    (auto simp: registerClient_def unregisterClient_def Let_def upd_listening_def)

lemmas factory_defs = registerClient_def unregisterClient_def

lemma factory_delay [simp, frame_simps]:
  "mSubscriptionRefreshDelay (fst (registerClient f)) = mSubscriptionRefreshDelay f"
  "mSubscriptionRefreshDelay (fst (unregisterClient f)) = mSubscriptionRefreshDelay f"
  by (simp_all add: factory_defs Let_def)

lemma factory_calls_frame [frame_simps]:
  "fold upd_data (snd (registerClient f)) m = m"
  "fold upd_data (snd (unregisterClient f)) m = m"
  "fold upd_observers (snd (registerClient f)) S = S"
  "fold upd_observers (snd (unregisterClient f)) S = S"
  "fold upd_db (snd (registerClient f)) D = D"
  "fold upd_db (snd (unregisterClient f)) D = D"
  "fold upd_dialogs (snd (registerClient f)) d = d"
  "fold upd_dialogs (snd (unregisterClient f)) d = d"
  by (simp_all add: factory_defs Let_def upd_defs)

section \<open>The client\<close>

datatype listener_call =
    OnNotifyReceived "ParticipantDeviceIdentity list"
  | OnRefreshed ParticipantDeviceIdentity

record Client =
  mSubscribeEvent :: "event_id option"
  mTo :: Address
  mParticipantDevices :: "ParticipantDeviceIdentity list"

definition Client_init :: "Address \<Rightarrow> Client" where
  "Client_init to = \<lparr>mSubscribeEvent = None, mTo = to, mParticipantDevices = []\<rparr>"

text \<open>
  \<open>this\<close> is the address of the client, \<open>ev\<close> the event returned by
  \<^verbatim>\<open>Core::createSubscribe\<close>, which is taken never to be null, \<open>delay\<close> the refresh delay of the factory. The third component is
  what the new listener is told at once.
\<close>

definition Client_subscribe ::
    "int \<Rightarrow> client_id \<Rightarrow> event_id \<Rightarrow> Client \<Rightarrow> Client \<times> ext_call list \<times> listener_call list" where
  "Client_subscribe delay this ev cl =
     (case mSubscribeEvent cl of
        Some _ \<Rightarrow> (cl, [], [OnNotifyReceived (mParticipantDevices cl)])
      | None \<Rightarrow>
          (cl\<lparr>mSubscribeEvent := Some ev\<rparr>,
           [CreateSubscribe ev (mTo cl) ''reg'' delay,
            AddCustomHeader ev ''Accept'' ''application/reginfo+xml'',
            SetData ev this,
            SendSubscribe ev],
           []))"

definition Client_unsubscribe :: "Client \<Rightarrow> Client \<times> ext_call list" where
  "Client_unsubscribe cl =
     (case mSubscribeEvent cl of
        None \<Rightarrow> (cl, [])
      | Some ev \<Rightarrow> (cl\<lparr>mSubscribeEvent := None\<rparr>, [UnsetData ev, TerminateEvent ev]))"

text \<open>The destructor: the factory is told first, then the dialog is ended.\<close>

definition Client_destroy :: "ClientFactory \<Rightarrow> Client \<Rightarrow> ClientFactory \<times> ext_call list" where
  "Client_destroy f cl =
     (let (f', cs) = unregisterClient f; (_, ds) = Client_unsubscribe cl in (f', cs @ ds))"

subsection \<open>Receiving a NOTIFY\<close>

text \<open>
  How the processing of a NOTIFY can end early: with an exception, or with a null pointer used,
  when \<^verbatim>\<open>createParticipantDeviceIdentity\<close> gave none for a null address.
\<close>

datatype notify_error = EmptyNotifyContent | ReginfoParsingError | NullIdentity

text \<open>The loop over the unknown parameters of a contact, left at the first specs parameter.\<close>

fun param_loop :: "env \<Rightarrow> Address option \<Rightarrow> string \<Rightarrow> (string \<times> string) list
    \<Rightarrow> notify_error + ParticipantDeviceIdentity option" where
  "param_loop E partDeviceAddr displayName [] = Inr None"
| "param_loop E partDeviceAddr displayName ((name, param) # unknownParams) =
     (if name \<noteq> ''+org.linphone.specs'' then param_loop E partDeviceAddr displayName unknownParams
      else if partDeviceAddr = None \<and> \<not> nullIdentity E then Inl NullIdentity
      else Inr (Some \<lparr>pdi_address = partDeviceAddr, pdi_displayName = displayName,
                      pdi_capabilityList = [unquote E param]\<rparr>))"

definition contact_identity ::
    "env \<Rightarrow> Contact \<Rightarrow> notify_error + ParticipantDeviceIdentity option" where
  "contact_identity E contact =
     param_loop E (createAddress E (contact_uri contact))
       (case contact_displayName contact of None \<Rightarrow> '''' | Some d \<Rightarrow> d)
       (contact_unknownParams contact)"

text \<open>The loop over the contacts: refreshed count, devices, callbacks so far.\<close>

fun contact_loop :: "env \<Rightarrow> Contact list
    \<Rightarrow> nat \<times> ParticipantDeviceIdentity list \<times> listener_call list
    \<Rightarrow> notify_error + nat \<times> ParticipantDeviceIdentity list \<times> listener_call list" where
  "contact_loop E [] acc = Inr acc"
| "contact_loop E (contact # contacts) (refreshed, devices, cbs) =
     bindE (contact_identity E contact) (\<lambda>found.
       case found of
         None \<Rightarrow> contact_loop E contacts (refreshed, devices, cbs)
       | Some identity \<Rightarrow>
           (if contact_event contact = Refreshed
            then contact_loop E contacts
                   (refreshed + 1, devices @ [identity], cbs @ [OnRefreshed identity])
            else contact_loop E contacts (refreshed, devices @ [identity], cbs)))"

fun registration_loop :: "env \<Rightarrow> Registration list \<Rightarrow> Client \<Rightarrow> listener_call list
    \<Rightarrow> notify_error + Client \<times> listener_call list" where
  "registration_loop E [] cl cbs = Inr (cl, cbs)"
| "registration_loop E (reg # regs) cl cbs =
     (if reg_aor reg \<noteq> asStringUriOnly (mTo cl) then registration_loop E regs cl cbs
      else if reg_state reg = RTerminated
      then Inr (cl\<lparr>mParticipantDevices := []\<rparr>, cbs @ [OnNotifyReceived []])
      else
        bindE (contact_loop E (reg_contacts reg) (0, [], cbs)) (\<lambda>(refreshed, devices, cbs').
          let cbs'' = (if refreshed < length devices then cbs' @ [OnNotifyReceived devices]
                       else cbs')
          in registration_loop E regs (cl\<lparr>mParticipantDevices := devices\<rparr>) cbs''))"

definition Client_onNotifyReceived ::
    "env \<Rightarrow> string option \<Rightarrow> Client \<Rightarrow> notify_error + Client \<times> listener_call list" where
  "Client_onNotifyReceived E body cl =
     (case body of
        None \<Rightarrow> Inl EmptyNotifyContent
      | Some text \<Rightarrow>
          (case parseReginfo E text of
             None \<Rightarrow> Inl ReginfoParsingError
           | Some regs \<Rightarrow> registration_loop E regs cl []))"

subsection \<open>A change of the dialog's state\<close>

definition Client_onSubscriptionStateChanged ::
    "SubscriptionState \<Rightarrow> Client \<Rightarrow> fault + Client \<times> ext_call list" where
  "Client_onSubscriptionStateChanged state cl =
     (case state of
        SNone \<Rightarrow> Inr (cl, [])
      | OutgoingProgress \<Rightarrow> Inr (cl, [])
      | IncomingReceived \<Rightarrow> Inr (cl, [])
      | Pending \<Rightarrow> Inr (cl, [])
      | Active \<Rightarrow> Inr (cl, [])
      | Expiring \<Rightarrow> Inr (cl, [])
      | Terminated \<Rightarrow>
          (case mSubscribeEvent cl of None \<Rightarrow> Inl NullDeref
           | Some ev \<Rightarrow> Inr (cl\<lparr>mSubscribeEvent := None, mParticipantDevices := []\<rparr>,
                            [UnsetData ev, TerminateEvent ev]))
      | Error \<Rightarrow>
          (case mSubscribeEvent cl of None \<Rightarrow> Inl NullDeref
           | Some ev \<Rightarrow> Inr (cl\<lparr>mSubscribeEvent := None, mParticipantDevices := []\<rparr>,
                            [UnsetData ev, TerminateEvent ev])))"

section \<open>What a NOTIFY does\<close>

text \<open>
  The reference description: the devices of a registration are its contacts with a specs
  parameter; its listeners are told of each refreshed one, then of the whole list unless every
  device was refreshed. A device whose address could not be parsed has an identity only if the
  library makes one.
\<close>

definition contact_device :: "env \<Rightarrow> Contact \<Rightarrow> ParticipantDeviceIdentity option" where
  "contact_device E c =
     map_option (\<lambda>specs. \<lparr>pdi_address = createAddress E (contact_uri c),
         pdi_displayName = (case contact_displayName c of None \<Rightarrow> '''' | Some d \<Rightarrow> d),
         pdi_capabilityList = [unquote E specs]\<rparr>)
       (map_of (contact_unknownParams c) ''+org.linphone.specs'')"

definition devices_of :: "env \<Rightarrow> Registration \<Rightarrow> ParticipantDeviceIdentity list" where
  "devices_of E reg = List.map_filter (contact_device E) (reg_contacts reg)"

definition refreshed_of :: "env \<Rightarrow> Registration \<Rightarrow> ParticipantDeviceIdentity list" where
  "refreshed_of E reg =
     List.map_filter (contact_device E)
       (filter (\<lambda>c. contact_event c = Refreshed) (reg_contacts reg))"

definition null_identity :: "env \<Rightarrow> Registration \<Rightarrow> bool" where
  "null_identity E reg \<longleftrightarrow>
     \<not> nullIdentity E \<and> list_ex (\<lambda>d. pdi_address d = None) (devices_of E reg)"

definition callbacks_of :: "env \<Rightarrow> Registration \<Rightarrow> listener_call list" where
  "callbacks_of E reg =
     map OnRefreshed (refreshed_of E reg)
     @ (if length (refreshed_of E reg) < length (devices_of E reg)
        then [OnNotifyReceived (devices_of E reg)] else [])"

definition matching :: "Client \<Rightarrow> Registration list \<Rightarrow> Registration list" where
  "matching cl regs = filter (\<lambda>r. reg_aor r = asStringUriOnly (mTo cl)) regs"

definition before_termination :: "Registration list \<Rightarrow> Registration list" where
  "before_termination regs = takeWhile (\<lambda>r. reg_state r \<noteq> RTerminated) regs"

definition terminates :: "Registration list \<Rightarrow> bool" where
  "terminates regs = list_ex (\<lambda>r. reg_state r = RTerminated) regs"

text \<open>The specs value of a contact: the first parameter of that name.\<close>

lemma param_loop_eq:
  "param_loop E a d ps =
     (case map_of ps ''+org.linphone.specs'' of
        None \<Rightarrow> Inr None
      | Some v \<Rightarrow>
          (if a = None \<and> \<not> nullIdentity E then Inl NullIdentity
           else Inr (Some \<lparr>pdi_address = a, pdi_displayName = d, pdi_capabilityList = [unquote E v]\<rparr>)))"
  by (induction ps) auto

lemma contact_identity_eq:
  "contact_identity E c =
     (case contact_device E c of
        None \<Rightarrow> Inr None
      | Some d \<Rightarrow> (if pdi_address d = None \<and> \<not> nullIdentity E then Inl NullIdentity else Inr (Some d)))"
  by (simp add: contact_identity_def param_loop_eq contact_device_def split: option.split)

lemma map_filter_Cons_eq:
  "List.map_filter f (x # xs) =
     (case f x of None \<Rightarrow> List.map_filter f xs | Some y \<Rightarrow> y # List.map_filter f xs)"
  by (simp add: List.map_filter_def split: option.split)

lemma contact_loop_eq:
  "contact_loop E contacts (r, ds, cbs) =
     (if \<not> nullIdentity E \<and> list_ex (\<lambda>d. pdi_address d = None) (List.map_filter (contact_device E) contacts)
      then Inl NullIdentity
      else Inr (r + length (List.map_filter (contact_device E)
             (filter (\<lambda>c. contact_event c = Refreshed) contacts)),
        ds @ List.map_filter (contact_device E) contacts,
        cbs @ map OnRefreshed (List.map_filter (contact_device E)
             (filter (\<lambda>c. contact_event c = Refreshed) contacts))))"
proof (induction contacts arbitrary: r ds cbs)
  case Nil
  then show ?case by (simp add: List.map_filter_def)
next
  case (Cons c cs)
  then show ?case
    by (cases "contact_device E c"; simp add: map_filter_Cons_eq contact_identity_eq)
qed

lemma contact_loop_registration:
  "contact_loop E (reg_contacts reg) (0, [], cbs) =
     (if null_identity E reg then Inl NullIdentity
      else Inr (length (refreshed_of E reg), devices_of E reg, cbs @ map OnRefreshed (refreshed_of E reg)))"
  by (simp add: contact_loop_eq refreshed_of_def devices_of_def null_identity_def)

lemma registration_loop_eq:
  "registration_loop E regs cl cbs =
     (if list_ex (null_identity E) (before_termination (matching cl regs)) then Inl NullIdentity
      else Inr (cl\<lparr>mParticipantDevices :=
          (if terminates (matching cl regs) then []
           else if matching cl regs = [] then mParticipantDevices cl
           else devices_of E (last (matching cl regs)))\<rparr>,
      cbs @ concat (map (callbacks_of E) (before_termination (matching cl regs)))
        @ (if terminates (matching cl regs) then [OnNotifyReceived []] else [])))"
proof (induction regs arbitrary: cl cbs)
  case Nil
  then show ?case
    by (simp add: matching_def terminates_def before_termination_def)
next
  case (Cons reg regs)
  show ?case
  proof (cases "reg_aor reg = asStringUriOnly (mTo cl)")
    case False
    with Cons.IH show ?thesis by (simp add: matching_def cong: if_cong)
  next
    case match: True
    then have m: "matching cl (reg # regs) = reg # matching cl regs"
      by (simp add: matching_def)
    show ?thesis
    proof (cases "reg_state reg = RTerminated")
      case True
      with match show ?thesis
        by (simp add: m terminates_def before_termination_def)
    next
      case False
      let ?cl = "cl\<lparr>mParticipantDevices := devices_of E reg\<rparr>"
      have m': "matching ?cl regs = matching cl regs"
        by (simp add: matching_def)
      have "registration_loop E (reg # regs) cl cbs =
              (if null_identity E reg then Inl NullIdentity
               else registration_loop E regs ?cl (cbs @ callbacks_of E reg))"
        using match False by (simp add: contact_loop_registration callbacks_of_def Let_def)
      with False show ?thesis
        by (simp add: Cons.IH m m' terminates_def before_termination_def)
    qed
  qed
qed

lemma onNotifyReceived_InrD:
  assumes "Client_onNotifyReceived E body cl = Inr (cl', lcs)"
  obtains b regs where "body = Some b" "parseReginfo E b = Some regs"
    "\<not> list_ex (null_identity E) (before_termination (matching cl regs))"
    "mTo cl' = mTo cl" "mSubscribeEvent cl' = mSubscribeEvent cl"
    "lcs = concat (map (callbacks_of E) (before_termination (matching cl regs)))
       @ (if terminates (matching cl regs) then [OnNotifyReceived []] else [])"
proof -
  from assms obtain b regs where t: "body = Some b" "parseReginfo E b = Some regs"
    and "registration_loop E regs cl [] = Inr (cl', lcs)"
    by (auto simp: Client_onNotifyReceived_def split: option.splits)
  then show thesis by (intro that [OF t]) (auto simp: registration_loop_eq split: if_splits)
qed

text \<open>
  C9. A NOTIFY whose body parses is processed as its matching registrations say, in order, up
  to the first terminated one: per registration one \<open>onRefreshed\<close> for each refreshed device
  and then the device list unless all were refreshed; a terminated registration empties the
  list and ends the processing. Registrations of other addresses have no effect. The processing
  breaks off exactly when one of these registrations has a device without an address and the library
  makes no identity for it: the program then uses a null pointer.
\<close>

theorem onNotifyReceived_spec:
  assumes "parseReginfo E text = Some regs"
  shows "Client_onNotifyReceived E (Some text) cl =
    (if \<exists>reg \<in> set (before_termination (matching cl regs)). null_identity E reg then Inl NullIdentity
     else Inr (cl\<lparr>mParticipantDevices :=
           (if terminates (matching cl regs) then []
            else if matching cl regs = [] then mParticipantDevices cl
            else devices_of E (last (matching cl regs)))\<rparr>,
         concat (map (callbacks_of E) (before_termination (matching cl regs)))
           @ (if terminates (matching cl regs) then [OnNotifyReceived []] else [])))"
  using assms by (simp add: Client_onNotifyReceived_def registration_loop_eq list_ex_iff)

end
