(* ===== verification/Subscriptions.thy ===== *)
theory Subscriptions
  imports Capabilities RegEventClient
begin

text \<open>
  The two kinds of registration subscription of
  \<^verbatim>\<open>src/src/conference/registration-subscription.cc\<close>: \<open>OwnRegistrationSubscription\<close>, fed by
  the registrar database, and \<open>ExternalRegistrationSubscription\<close>, fed by a client of the
  \<^verbatim>\<open>reg\<close> event package. \<open>this\<close> is the address of the object.
\<close>

section \<open>OwnRegistrationSubscription\<close>

record OwnRegistrationSubscription = RegistrationSubscription +
  mParticipantAor :: string  \<comment> \<open>the empty string is the empty \<^verbatim>\<open>SipUri\<close>\<close>
  mActive :: bool

definition Own_init ::
    "env \<Rightarrow> bool \<Rightarrow> chatroom \<Rightarrow> Address \<Rightarrow> OwnRegistrationSubscription" where
  "Own_init E checkCapabilities cr participant =
     RegistrationSubscription.extend (RegistrationSubscription_init checkCapabilities cr participant)
       \<lparr>mParticipantAor =
          (case makeSipUri E (asStringUriOnly participant) of None \<Rightarrow> '''' | Some u \<Rightarrow> u),
        mActive = False\<rparr>"

definition Own_start :: "env \<Rightarrow> sub_id \<Rightarrow> OwnRegistrationSubscription
    \<Rightarrow> OwnRegistrationSubscription \<times> ext_call list" where
  "Own_start E this o1 =
     (if mParticipantAor o1 = '''' then (o1, [])
      else (o1\<lparr>mActive := True\<rparr>,
            [DbFetch (mParticipantAor o1) this,
             DbSubscribe (mParticipantAor o1) (useGlobalDomain E) this]))"

definition Own_stop :: "env \<Rightarrow> sub_id \<Rightarrow> OwnRegistrationSubscription
    \<Rightarrow> OwnRegistrationSubscription \<times> ext_call list" where
  "Own_stop E this o1 =
     (if \<not> mActive o1 then (o1, [])
      else (o1\<lparr>mActive := False\<rparr>,
            [DbUnsubscribe (mParticipantAor o1) (useGlobalDomain E) this]))"

definition Own_getPubGruu :: "env \<Rightarrow> ExtendedContact \<Rightarrow> Address option" where
  "Own_getPubGruu E ec =
     (case ec_pubGruuUrl ec of
        Some pub_gruu \<Rightarrow> createAddress E (''<'' @ pub_gruu @ ''>'')
      | None \<Rightarrow> None)"

text \<open>The loop of \<^verbatim>\<open>processRecord\<close> over the contacts of a record.\<close>

fun processRecord_loop :: "env \<Rightarrow> OwnRegistrationSubscription \<Rightarrow> ExtendedContact list
    \<Rightarrow> ParticipantDeviceIdentity list \<Rightarrow> ParticipantDeviceIdentity list" where
  "processRecord_loop E o1 [] compatibleParticipantDevices = compatibleParticipantDevices"
| "processRecord_loop E o1 (ec # ecs) compatibleParticipantDevices =
     (case Own_getPubGruu E ec of
        None \<Rightarrow> processRecord_loop E o1 ecs compatibleParticipantDevices
      | Some addr \<Rightarrow>
          (if isContactCompatible E o1 (getOrgLinphoneSpecs ec)
           then processRecord_loop E o1 ecs
                  (compatibleParticipantDevices @
                   [\<lparr>pdi_address = Some addr, pdi_displayName = getDeviceName ec,
                     pdi_capabilityList = [unquote E (getOrgLinphoneSpecs ec)]\<rparr>])
           else processRecord_loop E o1 ecs compatibleParticipantDevices))"

definition Own_processRecord ::
    "env \<Rightarrow> OwnRegistrationSubscription \<Rightarrow> Record option \<Rightarrow> ext_call list" where
  "Own_processRecord E o1 r =
     (if \<not> mActive o1 then []
      else notify o1 (case r of None \<Rightarrow> []
                      | Some r' \<Rightarrow> processRecord_loop E o1 (getExtendedContacts r') []))"

definition Own_onRecordFound ::
    "env \<Rightarrow> OwnRegistrationSubscription \<Rightarrow> Record option \<Rightarrow> ext_call list" where
  "Own_onRecordFound E o1 r = Own_processRecord E o1 r"

definition Own_onContactRegistered ::
    "env \<Rightarrow> OwnRegistrationSubscription \<Rightarrow> Record option \<Rightarrow> string \<Rightarrow> fault + ext_call list" where
  "Own_onContactRegistered E o1 r uid =
     (if \<not> mActive o1 then Inr []
      else let cs = Own_processRecord E o1 r
           in if uid = '''' then Inr cs
              else (case r of
                      None \<Rightarrow> Inl NullDeref
                    | Some r' \<Rightarrow>
                        (case extractContactByUniqueId r' uid of
                           None \<Rightarrow> Inr cs
                         | Some ct \<Rightarrow>
                             (let pubGruu = Own_getPubGruu E ct
                              in if pubGruu \<noteq> None \<and> isContactCompatible E o1 (getOrgLinphoneSpecs ct)
                                 then bindE (notifyRegistration E o1 pubGruu) (\<lambda>ds. Inr (cs @ ds))
                                 else Inr cs))))"

section \<open>ExternalRegistrationSubscription\<close>

record ExternalRegistrationSubscription = RegistrationSubscription +
  mClient :: "client_id option"

definition External_init :: "bool \<Rightarrow> chatroom \<Rightarrow> Address \<Rightarrow> client_id option
    \<Rightarrow> ExternalRegistrationSubscription" where
  "External_init checkCapabilities cr participant client =
     RegistrationSubscription.extend (RegistrationSubscription_init checkCapabilities cr participant)
       \<lparr>mClient = client\<rparr>"

definition External_onNotifyReceived :: "env \<Rightarrow> ExternalRegistrationSubscription
    \<Rightarrow> ParticipantDeviceIdentity list \<Rightarrow> ext_call list" where
  "External_onNotifyReceived E x participantDevices =
     notify x (filter (\<lambda>d. isContactCompatible E x (getCapabilityDescriptor E d)) participantDevices)"

definition External_onRefreshed :: "env \<Rightarrow> ExternalRegistrationSubscription
    \<Rightarrow> ParticipantDeviceIdentity \<Rightarrow> fault + ext_call list" where
  "External_onRefreshed E x participantDevice =
     (if isContactCompatible E x (getCapabilityDescriptor E participantDevice)
      then notifyRegistration E x (pdi_address participantDevice) else Inr [])"

definition External_callback :: "env \<Rightarrow> ExternalRegistrationSubscription \<Rightarrow> listener_call
    \<Rightarrow> fault + ext_call list" where
  "External_callback E x lc =
     (case lc of OnNotifyReceived ds \<Rightarrow> Inr (External_onNotifyReceived E x ds)
      | OnRefreshed d \<Rightarrow> External_onRefreshed E x d)"

text \<open>The callbacks a subscription gets one after the other.\<close>

fun External_callbacks :: "env \<Rightarrow> ExternalRegistrationSubscription \<Rightarrow> listener_call list
    \<Rightarrow> fault + ext_call list" where
  "External_callbacks E x [] = Inr []"
| "External_callbacks E x (lc # lcs) =
     bindE (External_callback E x lc) (\<lambda>cs.
     bindE (External_callbacks E x lcs) (\<lambda>ds. Inr (cs @ ds)))"

section \<open>The class hierarchy\<close>

datatype subscription = Own OwnRegistrationSubscription | External ExternalRegistrationSubscription

fun sub_base :: "subscription \<Rightarrow> RegistrationSubscription" where
  "sub_base (Own o1) = RegistrationSubscription.truncate o1"
| "sub_base (External x) = RegistrationSubscription.truncate x"

definition sub_room :: "subscription \<Rightarrow> chatroom" where
  "sub_room s = getChatRoom (sub_base s)"

definition sub_participant :: "subscription \<Rightarrow> Address" where
  "sub_participant s = mParticipant (sub_base s)"

lemma sub_simps [simp]:
  "sub_room (Own o1) = mChatRoom o1" "sub_room (External x) = mChatRoom x"
  "sub_participant (Own o1) = mParticipant o1" "sub_participant (External x) = mParticipant x"
  by (simp_all add: sub_room_def sub_participant_def getChatRoom_def
      RegistrationSubscription.truncate_def)

lemma Own_init_simps [simp]:
  "mChatRoom (Own_init E b r a) = r" "mParticipant (Own_init E b r a) = a"
  "mCheckCapabilities (Own_init E b r a) = b" "mActive (Own_init E b r a) = False"
  by (simp_all add: Own_init_def RegistrationSubscription.extend_def
      RegistrationSubscription_init_def)

lemma External_init_simps [simp]:
  "mChatRoom (External_init b r a c) = r" "mParticipant (External_init b r a c) = a"
  "mCheckCapabilities (External_init b r a c) = b" "mClient (External_init b r a c) = c"
  by (simp_all add: External_init_def RegistrationSubscription.extend_def
      RegistrationSubscription_init_def)

section \<open>What is reported to the chat room\<close>

lemma processRecord_loop_eq:
  "processRecord_loop E o1 ecs ds =
     ds @ List.map_filter
       (\<lambda>ec. case Own_getPubGruu E ec of None \<Rightarrow> None
         | Some addr \<Rightarrow>
             if isContactCompatible E o1 (getOrgLinphoneSpecs ec)
             then Some \<lparr>pdi_address = Some addr, pdi_displayName = getDeviceName ec,
                        pdi_capabilityList = [unquote E (getOrgLinphoneSpecs ec)]\<rparr>
             else None) ecs"
proof (induction ecs arbitrary: ds)
  case Nil
  then show ?case by (simp add: List.map_filter_def)
next
  case (Cons ec ecs)
  then show ?case by (cases "Own_getPubGruu E ec"; simp add: map_filter_Cons_eq)
qed

section \<open>The listener interface\<close>

text \<open>
  \<^verbatim>\<open>ClientListener\<close>, as a client of the \<^verbatim>\<open>reg\<close> event package relies on it: a listener stands for
  one chat room, whatever it is told it only passes on to that room, a device list is always passed
  on, and only what is not \<open>readable\<close> can make it fail.
\<close>

locale client_listener =
  fixes deliver :: "'l \<Rightarrow> listener_call \<Rightarrow> fault + ext_call list"
    and room :: "'l \<Rightarrow> chatroom"
    and readable :: "listener_call \<Rightarrow> bool"
  assumes deliver_ok: "readable lc \<Longrightarrow> \<exists>cs. deliver l lc = Inr cs"
    and deliver_room:
      "deliver l lc = Inr cs \<Longrightarrow> x \<in> set cs \<Longrightarrow> is_room_call x \<and> call_room x = Some (room l)"
    and deliver_list:
      "\<exists>cs a ds'. deliver l (OnNotifyReceived ds) = Inr cs
         \<and> SetParticipantDevices (room l) a ds' \<in> set cs"
begin

definition hears :: "'l \<Rightarrow> listener_call \<Rightarrow> ext_call list" where
  "hears l lc = (case deliver l lc of Inl _ \<Rightarrow> [] | Inr cs \<Rightarrow> cs)"

definition told :: "'l list \<Rightarrow> listener_call list \<Rightarrow> ext_call list" where
  "told ls lcs = concat (map (\<lambda>lc. concat (map (\<lambda>l. hears l lc) ls)) lcs)"

lemma deliver_hears: "deliver l lc = Inr cs \<Longrightarrow> hears l lc = cs"
  by (simp add: hears_def)

lemma deliver_readable: "readable lc \<Longrightarrow> deliver l lc = Inr (hears l lc)"
  using deliver_ok [of lc l] by (auto simp: hears_def)

lemma hears_room:
  "x \<in> set (hears l lc) \<Longrightarrow> is_room_call x \<and> call_room x = Some (room l)"
  using deliver_room [of l lc] by (cases "deliver l lc") (auto simp: hears_def)

lemma told_simps:
  "told ls [] = []" "told ls (lc # lcs) = concat (map (\<lambda>l. hears l lc) ls) @ told ls lcs"
  by (simp_all add: told_def)

lemma told_room_calls: "\<forall>x \<in> set (told ls lcs). is_room_call x"
  using hears_room by (auto simp: told_def)

lemma told_rooms:
  "x \<in> set (told ls lcs) \<Longrightarrow> \<exists>l \<in> set ls. call_room x = Some (room l)"
  using hears_room by (fastforce simp: told_def)

lemma told_list:
  assumes "l \<in> set ls" and "OnNotifyReceived ds \<in> set lcs"
  shows "\<exists>a ds'. SetParticipantDevices (room l) a ds' \<in> set (told ls lcs)"
proof -
  obtain a ds' where "SetParticipantDevices (room l) a ds' \<in> set (hears l (OnNotifyReceived ds))"
    using deliver_list [of l ds] deliver_hears by metis
  with assms show ?thesis unfolding told_def by fastforce
qed

end

text \<open>A subscription fails on a refreshed device without an address that it would have logged.\<close>

definition readable_call :: "env \<Rightarrow> listener_call \<Rightarrow> bool" where
  "readable_call E lc =
     (case lc of OnNotifyReceived ds \<Rightarrow> True
      | OnRefreshed d \<Rightarrow> debugLogs E \<longrightarrow> pdi_address d \<noteq> None)"

interpretation ext: client_listener "External_callback E" mChatRoom "readable_call E" for E
  by unfold_locales
    (auto simp: External_callback_def External_onNotifyReceived_def External_onRefreshed_def
      notify_def notifyRegistration_def readable_call_def split: listener_call.splits if_splits)

lemma External_callback_fails_iff:
  "External_callback E x lc = Inl f \<longleftrightarrow>
     f = NullDeref \<and> debugLogs E
     \<and> (\<exists>d. lc = OnRefreshed d \<and> pdi_address d = None
          \<and> isContactCompatible E x (getCapabilityDescriptor E d))"
  by (auto simp: External_callback_def External_onRefreshed_def notifyRegistration_def
      split: listener_call.split)

lemma External_callbacks_eq:
  "list_all (readable_call E) lcs \<Longrightarrow> External_callbacks E x lcs = Inr (ext.told E [x] lcs)"
  by (induction lcs) (simp_all add: ext.deliver_readable ext.told_simps)

end
