(* ===== verification/Multimap.thy ===== *)
theory Multimap
  imports Prelude "HOL-Library.Multiset"
begin

text \<open>
  \<^verbatim>\<open>std::multimap\<close>, the container of the subscription store: a sequence of pairs sorted by key,
  pairs of equal keys in the order of their insertion. \<open>mm_insert\<close> puts a pair at the end of the
  pairs of its key, \<open>mm_range\<close> is the range of \<^verbatim>\<open>equal_range\<close>, \<open>mm_erase\<close> removes the node an
  iterator points to.
\<close>

type_synonym ('k, 'v) multimap = "('k \<times> 'v) list"

definition mm_sorted :: "('k::linorder, 'v) multimap \<Rightarrow> bool" where
  "mm_sorted m \<longleftrightarrow> sorted (map fst m)"

definition mm_lower :: "'k::linorder \<Rightarrow> ('k, 'v) multimap \<Rightarrow> ('k, 'v) multimap" where
  "mm_lower k m = takeWhile (\<lambda>p. fst p < k) m"

definition mm_range :: "'k::linorder \<Rightarrow> ('k, 'v) multimap \<Rightarrow> ('k, 'v) multimap" where
  "mm_range k m = takeWhile (\<lambda>p. fst p = k) (dropWhile (\<lambda>p. fst p < k) m)"

definition mm_upper :: "'k::linorder \<Rightarrow> ('k, 'v) multimap \<Rightarrow> ('k, 'v) multimap" where
  "mm_upper k m = dropWhile (\<lambda>p. fst p = k) (dropWhile (\<lambda>p. fst p < k) m)"

definition mm_insert :: "'k::linorder \<Rightarrow> 'v \<Rightarrow> ('k, 'v) multimap \<Rightarrow> ('k, 'v) multimap" where
  "mm_insert k v m = mm_lower k m @ mm_range k m @ (k, v) # mm_upper k m"

definition mm_erase :: "'k \<times> 'v \<Rightarrow> ('k, 'v) multimap \<Rightarrow> ('k, 'v) multimap" where
  "mm_erase p m = remove1 p m"

section \<open>The container's contract\<close>

locale multimap_spec =
  fixes ins :: "'k \<Rightarrow> 'v \<Rightarrow> 'm \<Rightarrow> 'm"
    and rng :: "'k \<Rightarrow> 'm \<Rightarrow> ('k \<times> 'v) list"
    and del :: "'k \<times> 'v \<Rightarrow> 'm \<Rightarrow> 'm"
    and elems :: "'m \<Rightarrow> ('k \<times> 'v) multiset"
    and wf :: "'m \<Rightarrow> bool"
  assumes elems_ins: "wf m \<Longrightarrow> elems (ins k v m) = add_mset (k, v) (elems m)"
    and elems_del: "wf m \<Longrightarrow> elems (del p m) = elems m - {#p#}"
    and mset_rng: "wf m \<Longrightarrow> mset (rng k m) = filter_mset (\<lambda>p. fst p = k) (elems m)"
    and wf_ins: "wf m \<Longrightarrow> wf (ins k v m)"
    and wf_del: "wf m \<Longrightarrow> wf (del p m)"
begin

lemma set_rng: "wf m \<Longrightarrow> set (rng k m) = {p. p \<in># elems m \<and> fst p = k}"
proof -
  assume "wf m"
  then have "set_mset (mset (rng k m)) = {p. p \<in># elems m \<and> fst p = k}"
    by (simp add: mset_rng)
  then show ?thesis by simp
qed

lemma mset_rng_ins:
  "wf m \<Longrightarrow> mset (rng k (ins k' v m)) =
     (if k' = k then add_mset (k, v) (mset (rng k m)) else mset (rng k m))"
  by (simp add: mset_rng wf_ins elems_ins)

lemma ex_rng_ins:
  "wf m \<Longrightarrow> list_ex P (rng k (ins k' v m)) \<longleftrightarrow> k' = k \<and> P (k, v) \<or> list_ex P (rng k m)"
  by (auto simp: list_ex_iff set_rng wf_ins elems_ins)

lemma size_ins: "wf m \<Longrightarrow> size (elems (ins k v m)) = Suc (size (elems m))"
  by (simp add: elems_ins)

lemma size_del: "wf m \<Longrightarrow> p \<in># elems m \<Longrightarrow> Suc (size (elems (del p m))) = size (elems m)"
  by (simp add: elems_del size_Suc_Diff1)

end

section \<open>The sorted sequence meets it\<close>

lemma mm_parts: "m = mm_lower k m @ mm_range k m @ mm_upper k m"
  by (simp add: mm_lower_def mm_range_def mm_upper_def)

lemma sorted_map_dropWhile: "sorted (map f xs) \<Longrightarrow> sorted (map f (dropWhile P xs))"
  by (induction xs) auto

lemma mm_upper_greater:
  assumes "mm_sorted m" and "p \<in> set (mm_upper k m)"
  shows "k < fst p"
proof -
  let ?d = "dropWhile (\<lambda>p. fst p < k) m"
  have sd: "sorted (map fst ?d)"
    using assms(1) by (simp add: mm_sorted_def sorted_map_dropWhile)
  have "mm_upper k m \<noteq> []" using assms(2) by auto
  then obtain q qs where q: "mm_upper k m = q # qs" by (cases "mm_upper k m") auto
  then have "fst q \<noteq> k"
    unfolding mm_upper_def by (metis (mono_tags, lifting) hd_dropWhile list.distinct(1) list.sel(1))
  moreover have "\<not> fst (hd ?d) < k"
    using q unfolding mm_upper_def by (metis (mono_tags, lifting) dropWhile.simps(1) hd_dropWhile list.distinct(1))
  moreover have "fst (hd ?d) \<le> fst q"
  proof -
    have "q \<in> set ?d"
      using q unfolding mm_upper_def by (metis list.set_intros(1) set_dropWhileD)
    with sd show ?thesis by (cases ?d) auto
  qed
  ultimately have "k < fst q" by auto
  moreover have "sorted (map fst (mm_upper k m))"
    using sd by (simp add: mm_upper_def sorted_map_dropWhile)
  ultimately show ?thesis using assms(2) q by auto
qed

lemma mm_lower_less: "p \<in> set (mm_lower k m) \<Longrightarrow> fst p < k"
  by (auto simp: mm_lower_def dest: set_takeWhileD)

lemma mm_range_eq: "p \<in> set (mm_range k m) \<Longrightarrow> fst p = k"
  by (auto simp: mm_range_def dest: set_takeWhileD)

lemma mm_range_filter:
  assumes "mm_sorted m"
  shows "mm_range k m = filter (\<lambda>p. fst p = k) m"
proof -
  have "filter (\<lambda>p. fst p = k) m =
      filter (\<lambda>p. fst p = k) (mm_lower k m) @ filter (\<lambda>p. fst p = k) (mm_range k m)
      @ filter (\<lambda>p. fst p = k) (mm_upper k m)"
    using mm_parts [of m k] by (metis filter_append)
  moreover have "filter (\<lambda>p. fst p = k) (mm_lower k m) = []"
    by (auto simp: filter_empty_conv dest: mm_lower_less)
  moreover have "filter (\<lambda>p. fst p = k) (mm_upper k m) = []"
    using assms by (auto simp: filter_empty_conv dest: mm_upper_greater)
  moreover have "filter (\<lambda>p. fst p = k) (mm_range k m) = mm_range k m"
    by (auto simp: filter_id_conv dest: mm_range_eq)
  ultimately show ?thesis by simp
qed

lemma mset_mm_insert: "mset (mm_insert k v m) = add_mset (k, v) (mset m)"
proof -
  have "mset m = mset (mm_lower k m) + mset (mm_range k m) + mset (mm_upper k m)"
    using mm_parts [of m k] by (metis mset_append add.assoc)
  then show ?thesis by (simp add: mm_insert_def)
qed

lemma mm_sorted_insert:
  assumes "mm_sorted m"
  shows "mm_sorted (mm_insert k v m)"
proof -
  have "sorted (map fst (mm_lower k m @ mm_range k m @ mm_upper k m))"
    using assms mm_parts [of m k] by (simp add: mm_sorted_def)
  moreover have "\<forall>p \<in> set (mm_lower k m). fst p \<le> k" "\<forall>p \<in> set (mm_range k m). fst p = k"
    "\<forall>p \<in> set (mm_upper k m). k \<le> fst p"
    using assms by (auto dest: mm_lower_less mm_range_eq mm_upper_greater)
  ultimately show ?thesis
    by (auto simp: mm_insert_def mm_sorted_def sorted_append)
qed

lemma mm_sorted_erase: "mm_sorted m \<Longrightarrow> mm_sorted (mm_erase p m)"
  by (simp add: mm_sorted_def mm_erase_def sorted_map_remove1)

lemma mset_mm_erase: "mset (mm_erase p m) = mset m - {#p#}"
  by (simp add: mm_erase_def)

interpretation mm: multimap_spec mm_insert mm_range mm_erase mset mm_sorted
  by unfold_locales
    (simp_all add: mset_mm_insert mset_mm_erase mm_range_filter mm_sorted_insert mm_sorted_erase)

lemma set_mm_insert: "set (mm_insert k v m) = insert (k, v) (set m)"
proof -
  have "set_mset (mset (mm_insert k v m)) = insert (k, v) (set m)"
    unfolding mset_mm_insert by simp
  then show ?thesis by simp
qed

lemma set_mm_erase: "distinct m \<Longrightarrow> set (mm_erase p m) = set m - {p}"
  by (simp add: mm_erase_def)

lemma distinct_snd_mm_insert:
  "v \<notin> snd ` set m \<Longrightarrow> distinct (map snd m) \<Longrightarrow> distinct (map snd (mm_insert k v m))"
proof -
  assume v: "v \<notin> snd ` set m" and d: "distinct (map snd m)"
  have "mset (map snd (mm_insert k v m)) = mset (v # map snd m)"
    by (simp add: mset_mm_insert)
  then have "distinct (map snd (mm_insert k v m)) = distinct (v # map snd m)"
    by (rule mset_eq_imp_distinct_iff)
  with v d show ?thesis by simp
qed

lemma distinct_snd_mm_erase: "distinct (map snd m) \<Longrightarrow> distinct (map snd (mm_erase p m))"
  by (induction m) (force simp: mm_erase_def dest: set_remove1_subset [THEN subsetD])+

end
