(* ===== verification/World.thy ===== *)
theory World
  imports Subscriptions Multimap
begin

text \<open>
  The objects of the subscription system and the operations on them:
  \<^verbatim>\<open>RegistrationSubscriptionStore\<close> and \<^verbatim>\<open>ParticipantRegistrationSubscriptionHandler\<close>
  (\<^verbatim>\<open>participant-registration-subscription-handler.cc\<close>), the subscription factories and the store
  of external clients (\<^verbatim>\<open>registration-subscription-factory.cc\<close>), the parts of
  \<^verbatim>\<open>ExternalRegistrationSubscription\<close> that reach its client, and the two core callbacks of
  \<^verbatim>\<open>ClientFactory\<close> (\<^verbatim>\<open>client-factory.cc\<close>).

  \<open>world\<close> holds the heap objects (\<open>subs\<close>, \<open>clients\<close>), the members of the handler
  (\<open>mSubscriptions\<close>, \<open>mClients\<close>), the factory, and the calls made so far. An object absent from
  its heap does not exist (yet or any more). \<open>use_count c\<close> is the number of \<^verbatim>\<open>shared_ptr\<close> that
  own the client \<open>c\<close>; the entries of \<open>mClients\<close> are \<^verbatim>\<open>weak_ptr\<close>.
\<close>

record world =
  subs :: "sub_id \<rightharpoonup> subscription"
  next_sub :: sub_id
  clients :: "client_id \<rightharpoonup> Client"
  use_count :: "client_id \<Rightarrow> nat"
  next_client :: client_id
  next_event :: event_id
  mSubscriptions :: "(string, sub_id) multimap"
  mClients :: "string \<rightharpoonup> client_id"
  mRegEventClientFactory :: ClientFactory
  calls :: "ext_call list"

definition world_init :: "int \<Rightarrow> world" where
  "world_init delay =
     \<lparr>subs = Map.empty, next_sub = 0, clients = Map.empty, use_count = (\<lambda>_. 0),
      next_client = 0, next_event = 0, mSubscriptions = [], mClients = Map.empty,
      mRegEventClientFactory = ClientFactory_init delay, calls = []\<rparr>"

definition emit :: "ext_call list \<Rightarrow> world \<Rightarrow> world" where
  "emit cs w = w\<lparr>calls := calls w @ cs\<rparr>"

section \<open>Clients: creation, sharing, destruction\<close>

definition make_client :: "Address \<Rightarrow> world \<Rightarrow> client_id \<times> world" where
  "make_client address w =
     (let c = next_client w;
          (f, cs) = registerClient (mRegEventClientFactory w)
      in (c, w\<lparr>clients := (clients w)(c \<mapsto> Client_init address),
               use_count := (use_count w)(c := 1),
               next_client := c + 1,
               mRegEventClientFactory := f,
               calls := calls w @ cs\<rparr>))"

text \<open>
  \<^verbatim>\<open>acquireClient\<close>: \<open>lock\<close> of the weak pointer succeeds while the client has an owner, and makes
  the caller one more owner; an expired entry is erased first.
\<close>

definition acquireClient :: "Address \<Rightarrow> world \<Rightarrow> client_id \<times> world" where
  "acquireClient address w =
     (let uri = asStringUriOnlyOrdered address;
          fresh = (\<lambda>w. let (c, w') = make_client address w
                       in (c, w'\<lparr>mClients := (mClients w')(uri \<mapsto> c)\<rparr>))
      in case mClients w uri of
           Some c \<Rightarrow>
             (if 0 < use_count w c
              then (c, w\<lparr>use_count := (use_count w)(c := use_count w c + 1)\<rparr>)
              else fresh (w\<lparr>mClients := (mClients w)(uri := None)\<rparr>))
         | None \<Rightarrow> fresh w)"

text \<open>One owner of a client goes away; the last one destroys it.\<close>

definition release_client :: "client_id \<Rightarrow> world \<Rightarrow> fault + world" where
  "release_client c w =
     (case clients w c of
        None \<Rightarrow> Inl DanglingRef
      | Some cl \<Rightarrow>
          (let n = use_count w c - 1;
               w' = w\<lparr>use_count := (use_count w)(c := n)\<rparr>
           in if n = 0
              then let (f, cs) = Client_destroy (mRegEventClientFactory w') cl
                   in Inr (w'\<lparr>clients := (clients w')(c := None), mRegEventClientFactory := f,
                              calls := calls w' @ cs\<rparr>)
              else Inr w'))"

section \<open>The virtual operations of a subscription\<close>

definition External_start :: "env \<Rightarrow> sub_id \<Rightarrow> ExternalRegistrationSubscription \<Rightarrow> world
    \<Rightarrow> fault + world" where
  "External_start E this x w =
     (case mClient x of
        None \<Rightarrow> Inl NullDeref
      | Some c \<Rightarrow>
          (case clients w c of
             None \<Rightarrow> Inl DanglingRef
           | Some cl \<Rightarrow>
               (let (cl', cs, lcs) = Client_subscribe
                      (getSubscriptionRefreshDelay (mRegEventClientFactory w)) c (next_event w) cl
                in bindE (External_callbacks E x lcs) (\<lambda>ds.
                     Inr (w\<lparr>clients := (clients w)(c \<mapsto> cl'),
                            next_event := (if mSubscribeEvent cl = None then next_event w + 1
                                           else next_event w),
                            calls := calls w @ [AddObserver c this] @ cs @ ds\<rparr>)))))"

definition External_stop :: "sub_id \<Rightarrow> ExternalRegistrationSubscription \<Rightarrow> world
    \<Rightarrow> fault + world" where
  "External_stop this x w =
     (case mClient x of
        None \<Rightarrow> Inr w
      | Some c \<Rightarrow>
          (case clients w c of
             None \<Rightarrow> Inl DanglingRef
           | Some _ \<Rightarrow> Inr (emit [RemoveObserver c this] w)))"

definition sub_start :: "env \<Rightarrow> sub_id \<Rightarrow> world \<Rightarrow> fault + world" where
  "sub_start E s w =
     (case subs w s of
        None \<Rightarrow> Inl DanglingRef
      | Some (Own o1) \<Rightarrow>
          (let (o2, cs) = Own_start E s o1
           in Inr (w\<lparr>subs := (subs w)(s \<mapsto> Own o2), calls := calls w @ cs\<rparr>))
      | Some (External x) \<Rightarrow> External_start E s x w)"

definition sub_stop :: "env \<Rightarrow> sub_id \<Rightarrow> world \<Rightarrow> fault + world" where
  "sub_stop E s w =
     (case subs w s of
        None \<Rightarrow> Inl DanglingRef
      | Some (Own o1) \<Rightarrow>
          (let (o2, cs) = Own_stop E s o1
           in Inr (w\<lparr>subs := (subs w)(s \<mapsto> Own o2), calls := calls w @ cs\<rparr>))
      | Some (External x) \<Rightarrow> External_stop s x w)"

text \<open>
  The store drops its pointer to a subscription. An external one has no other owner and dies,
  with its share of its client. An own one may still be referenced by a pending fetch of the
  registrar database; it stays in the heap, so that late callbacks to it are part of the model
  (its destructor only logs).
\<close>

definition sub_release :: "sub_id \<Rightarrow> world \<Rightarrow> fault + world" where
  "sub_release s w =
     (case subs w s of
        None \<Rightarrow> Inl DanglingRef
      | Some (Own _) \<Rightarrow> Inr w
      | Some (External x) \<Rightarrow>
          (let w' = w\<lparr>subs := (subs w)(s := None)\<rparr>
           in case mClient x of None \<Rightarrow> Inr w' | Some c \<Rightarrow> release_client c w'))"

section \<open>RegistrationSubscriptionStore\<close>

definition getSubscriptionKey :: "Address \<Rightarrow> string" where
  "getSubscriptionKey address = getUsername address @ ''@'' @ getDomain address"

definition addSubscription :: "Address \<Rightarrow> sub_id \<Rightarrow> world \<Rightarrow> world" where
  "addSubscription address s w =
     w\<lparr>mSubscriptions := mm_insert (getSubscriptionKey address) s (mSubscriptions w)\<rparr>"

fun findSubscription_loop :: "(sub_id \<rightharpoonup> subscription) \<Rightarrow> chatroom
    \<Rightarrow> (string, sub_id) multimap \<Rightarrow> fault + bool" where
  "findSubscription_loop h chatRoom [] = Inr False"
| "findSubscription_loop h chatRoom ((k, s) # it) =
     (case h s of
        None \<Rightarrow> Inl DanglingRef
      | Some sub \<Rightarrow> (if sub_room sub = chatRoom then Inr True
                     else findSubscription_loop h chatRoom it))"

definition findSubscription :: "chatroom \<Rightarrow> Address \<Rightarrow> world \<Rightarrow> fault + bool" where
  "findSubscription chatRoom address w =
     findSubscription_loop (subs w) chatRoom
       (mm_range (getSubscriptionKey address) (mSubscriptions w))"

fun removeSubscription_loop :: "env \<Rightarrow> chatroom \<Rightarrow> (string, sub_id) multimap \<Rightarrow> world
    \<Rightarrow> fault + world" where
  "removeSubscription_loop E chatRoom [] w = Inr w"
| "removeSubscription_loop E chatRoom ((k, s) # it) w =
     (case subs w s of
        None \<Rightarrow> Inl DanglingRef
      | Some sub \<Rightarrow>
          (if sub_room sub = chatRoom
           then bindE (sub_stop E s w) (\<lambda>w1.
                bindE (sub_release s (w1\<lparr>mSubscriptions := mm_erase (k, s) (mSubscriptions w1)\<rparr>))
                  (removeSubscription_loop E chatRoom it))
           else removeSubscription_loop E chatRoom it w))"

definition removeSubscription :: "env \<Rightarrow> chatroom \<Rightarrow> Address \<Rightarrow> world \<Rightarrow> fault + world" where
  "removeSubscription E chatRoom address w =
     removeSubscription_loop E chatRoom
       (mm_range (getSubscriptionKey address) (mSubscriptions w)) w"

fun stop_loop :: "env \<Rightarrow> (string, sub_id) multimap \<Rightarrow> world \<Rightarrow> fault + world" where
  "stop_loop E [] w = Inr w"
| "stop_loop E ((k, s) # it) w = bindE (sub_stop E s w) (stop_loop E it)"

text \<open>
  \<^verbatim>\<open>clear()\<close>: every node is destroyed, with the pointer it holds, in an order that the language leaves
  open: any rearrangement of the elements, given by the environment.
\<close>

definition clear_order :: "env \<Rightarrow> (string, sub_id) multimap \<Rightarrow> (string, sub_id) multimap" where
  "clear_order E m = (if mset (clearOrder E m) = mset m then clearOrder E m else m)"

fun clear_loop :: "(string, sub_id) multimap \<Rightarrow> world \<Rightarrow> fault + world" where
  "clear_loop [] w = Inr w"
| "clear_loop ((k, s) # it) w =
     bindE (sub_release s (w\<lparr>mSubscriptions := mm_erase (k, s) (mSubscriptions w)\<rparr>))
       (clear_loop it)"

definition removeAllSubscriptions :: "env \<Rightarrow> world \<Rightarrow> fault + world" where
  "removeAllSubscriptions E w =
     bindE (stop_loop E (mSubscriptions w) w) (\<lambda>w1. clear_loop (clear_order E (mSubscriptions w1)) w1)"

section \<open>The factories\<close>

text \<open>The value an object is created with and its new address.\<close>

definition new_sub :: "subscription \<Rightarrow> world \<Rightarrow> sub_id \<times> world" where
  "new_sub sub w =
     (next_sub w, w\<lparr>subs := (subs w)(next_sub w \<mapsto> sub), next_sub := next_sub w + 1\<rparr>)"

definition OwnFactory_create :: "env \<Rightarrow> bool \<Rightarrow> chatroom \<Rightarrow> Address \<Rightarrow> world \<Rightarrow> sub_id \<times> world" where
  "OwnFactory_create E checkCapabilities chatRoom address w =
     new_sub (Own (Own_init E checkCapabilities chatRoom address)) w"

definition ExternalFactory_create :: "bool \<Rightarrow> chatroom \<Rightarrow> Address \<Rightarrow> world \<Rightarrow> sub_id \<times> world" where
  "ExternalFactory_create checkCapabilities chatRoom address w =
     (let (client, w') = acquireClient address w
      in new_sub (External (External_init checkCapabilities chatRoom address (Some client))) w')"

section \<open>ParticipantRegistrationSubscriptionHandler\<close>

text \<open>What the handler reads of the server it belongs to.\<close>

record server_view =
  capabilityCheckEnabled :: bool
  getLocalDomains :: "string list"

definition startSubscription ::
    "env \<Rightarrow> (world \<Rightarrow> sub_id \<times> world) \<Rightarrow> Address \<Rightarrow> world \<Rightarrow> fault + world" where
  "startSubscription E create address w =
     (let (s, w1) = create w in sub_start E s (addSubscription address s w1))"

definition subscribe :: "env \<Rightarrow> server_view \<Rightarrow> chatroom \<Rightarrow> Address \<Rightarrow> world \<Rightarrow> fault + world" where
  "subscribe E srv chatRoom address w =
     bindE (findSubscription chatRoom address w) (\<lambda>found.
       if \<not> found
       then (if getDomain address \<in> set (getLocalDomains srv)
             then startSubscription E
                    (OwnFactory_create E (capabilityCheckEnabled srv) chatRoom address) address w
             else startSubscription E
                    (ExternalFactory_create (capabilityCheckEnabled srv) chatRoom address) address w)
       else Inr w)"

definition unsubscribe :: "env \<Rightarrow> chatroom \<Rightarrow> Address \<Rightarrow> world \<Rightarrow> fault + world" where
  "unsubscribe E chatRoom address w = removeSubscription E chatRoom address w"

definition unsubscribeAll :: "env \<Rightarrow> world \<Rightarrow> fault + world" where
  "unsubscribeAll E w = removeAllSubscriptions E w"

section \<open>Callbacks of the registrar database\<close>

definition onRecordFound :: "env \<Rightarrow> sub_id \<Rightarrow> Record option \<Rightarrow> world \<Rightarrow> fault + world" where
  "onRecordFound E s r w =
     (case subs w s of
        Some (Own o1) \<Rightarrow> Inr (emit (Own_onRecordFound E o1 r) w)
      | _ \<Rightarrow> Inl DanglingRef)"

definition onContactRegistered :: "env \<Rightarrow> sub_id \<Rightarrow> Record option \<Rightarrow> string \<Rightarrow> world
    \<Rightarrow> fault + world" where
  "onContactRegistered E s r uid w =
     (case subs w s of
        Some (Own o1) \<Rightarrow>
          bindE (Own_onContactRegistered E o1 r uid) (\<lambda>cs. Inr (emit cs w))
      | _ \<Rightarrow> Inl DanglingRef)"

section \<open>Callbacks of the core\<close>

text \<open>
  \<^verbatim>\<open>Observable::notify\<close> gives one callback to each observer; \<open>targets\<close> are the observers in the
  order in which it visits them.
\<close>

fun notify_observers :: "env \<Rightarrow> (sub_id \<rightharpoonup> subscription) \<Rightarrow> sub_id list \<Rightarrow> listener_call
    \<Rightarrow> fault + ext_call list" where
  "notify_observers E h [] lc = Inr []"
| "notify_observers E h (s # targets) lc =
     (case h s of
        Some (External x) \<Rightarrow>
          bindE (External_callback E x lc) (\<lambda>cs.
          bindE (notify_observers E h targets lc) (\<lambda>ds. Inr (cs @ ds)))
      | _ \<Rightarrow> Inl DanglingRef)"

fun deliver_all :: "env \<Rightarrow> (sub_id \<rightharpoonup> subscription) \<Rightarrow> sub_id list \<Rightarrow> listener_call list
    \<Rightarrow> fault + ext_call list" where
  "deliver_all E h targets [] = Inr []"
| "deliver_all E h targets (lc # lcs) =
     bindE (notify_observers E h targets lc) (\<lambda>cs.
     bindE (deliver_all E h targets lcs) (\<lambda>ds. Inr (cs @ ds)))"

text \<open>
  \<open>data\<close> is the result of \<^verbatim>\<open>getData\<close> on the event, \<open>None\<close> when it raises. Exceptions of the
  client are caught and logged; the use of a null pointer is not one.
\<close>

definition ClientFactory_onNotifyReceived ::
    "env \<Rightarrow> client_id option \<Rightarrow> string option \<Rightarrow> sub_id list \<Rightarrow> world \<Rightarrow> fault + world" where
  "ClientFactory_onNotifyReceived E data body targets w =
     (case data of
        None \<Rightarrow> Inr w
      | Some c \<Rightarrow>
          (case clients w c of
             None \<Rightarrow> Inl DanglingRef
           | Some cl \<Rightarrow>
               (case Client_onNotifyReceived E body cl of
                  Inl EmptyNotifyContent \<Rightarrow> Inr w
                | Inl ReginfoParsingError \<Rightarrow> Inr w
                | Inl NullIdentity \<Rightarrow> Inl NullDeref
                | Inr (cl', lcs) \<Rightarrow>
                    bindE (deliver_all E (subs w) targets lcs) (\<lambda>cs.
                      Inr (w\<lparr>clients := (clients w)(c \<mapsto> cl'), calls := calls w @ cs\<rparr>)))))"

definition ClientFactory_onSubscriptionStateChanged ::
    "client_id option \<Rightarrow> SubscriptionState \<Rightarrow> world \<Rightarrow> fault + world" where
  "ClientFactory_onSubscriptionStateChanged data state w =
     (case data of
        None \<Rightarrow> Inr w
      | Some c \<Rightarrow>
          (case clients w c of
             None \<Rightarrow> Inl DanglingRef
           | Some cl \<Rightarrow>
               bindE (Client_onSubscriptionStateChanged state cl) (\<lambda>(cl', cs).
                 Inr (w\<lparr>clients := (clients w)(c \<mapsto> cl'), calls := calls w @ cs\<rparr>))))"

section \<open>The system: inputs, steps, reachable states\<close>

datatype input =
    Subscribe chatroom Address
  | Unsubscribe chatroom Address
  | UnsubscribeAll
  | RecordFound sub_id "Record option"
  | ContactRegistered sub_id "Record option" string
  | CoreNotify event_id "string option" "sub_id list"
  | CoreStateChanged event_id SubscriptionState

fun step :: "env \<Rightarrow> server_view \<Rightarrow> input \<Rightarrow> world \<Rightarrow> fault + world" where
  "step E srv (Subscribe r a) w = subscribe E srv r a w"
| "step E srv (Unsubscribe r a) w = unsubscribe E r a w"
| "step E srv UnsubscribeAll w = unsubscribeAll E w"
| "step E srv (RecordFound s r) w = onRecordFound E s r w"
| "step E srv (ContactRegistered s r uid) w = onContactRegistered E s r uid w"
| "step E srv (CoreNotify e body targets) w =
     ClientFactory_onNotifyReceived E (event_data (calls w) e) body targets w"
| "step E srv (CoreStateChanged e st) w =
     ClientFactory_onSubscriptionStateChanged (event_data (calls w) e) st w"

text \<open>
  What the linked code is relied on to do: the registrar database calls back only listeners it
  was given, and reports a contact id only with a record; \<^verbatim>\<open>Observable::notify\<close> visits each
  current observer once. Any chat room request and any core event may happen at any time.
\<close>

definition is_own :: "world \<Rightarrow> sub_id \<Rightarrow> bool" where
  "is_own w s = (case subs w s of Some (Own _) \<Rightarrow> True | _ \<Rightarrow> False)"

definition admissible :: "input \<Rightarrow> world \<Rightarrow> bool" where
  "admissible i w =
     (case i of
        RecordFound s r \<Rightarrow> is_own w s
      | ContactRegistered s r uid \<Rightarrow> is_own w s \<and> (uid \<noteq> '''' \<longrightarrow> r \<noteq> None)
      | CoreNotify e body targets \<Rightarrow>
          (case event_data (calls w) e of None \<Rightarrow> True
           | Some c \<Rightarrow> distinct targets \<and> set targets = {s. (c, s) \<in> observers (calls w)})
      | _ \<Rightarrow> True)"

text \<open>
  A body in which the program uses no null pointer: a contact with a specs parameter has an address
  that can be parsed, unless the library makes an identity without an address, and the address is not
  logged, as the one of a refreshed contact is with debug messages on.
\<close>

definition readable :: "env \<Rightarrow> input \<Rightarrow> bool" where
  "readable E i =
     (case i of
        CoreNotify e (Some body) targets \<Rightarrow>
          (case parseReginfo E body of None \<Rightarrow> True
           | Some regs \<Rightarrow>
               list_all (\<lambda>reg. list_all (\<lambda>c.
                 map_of (contact_unknownParams c) ''+org.linphone.specs'' \<noteq> None \<longrightarrow>
                 createAddress E (contact_uri c) = None \<longrightarrow>
                 nullIdentity E \<and> (debugLogs E \<longrightarrow> contact_event c \<noteq> Refreshed)) (reg_contacts reg)) regs)
      | _ \<Rightarrow> True)"

inductive reachable :: "bool \<Rightarrow> world \<Rightarrow> bool" for g where
  start: "reachable g (world_init delay)"
| step: "reachable g w \<Longrightarrow> useGlobalDomain E = g \<Longrightarrow> admissible i w \<Longrightarrow>
           step E srv i w = Inr w' \<Longrightarrow> reachable g w'"

end
