(* ===== verification/ServerInit.thy ===== *)
theory ServerInit
  imports Binding World
begin

text \<open>
  \<^verbatim>\<open>ConferenceServer::_init\<close>, in the phases the function has, in their order: each one reads
  its parameters, makes the calls to the linked code and may raise. \<open>init_server\<close> is the whole
  function. What the linked code answers is in \<open>init_lib\<close>: \<open>lib_error\<close> is the exception a
  call raises, if any.
\<close>

section \<open>The linked code\<close>

record init_lib = server_lib +
  lib_error :: "srv_call \<Rightarrow> server_error option"
  uri_getHost :: "string \<Rightarrow> string"
  string2MediaEncryption :: "string \<Rightarrow> int option"
  getAudioPayloadTypes :: "string list"
  getVideoPayloadTypes :: "string list"
  core_start :: int                \<comment> \<open>the status of \<^verbatim>\<open>Core::start\<close>\<close>
  isWritable :: bool               \<comment> \<open>of the registrar database\<close>
  getChatRooms :: "Address list"   \<comment> \<open>the peer addresses of the loaded chat rooms\<close>
  getCompleteName :: "string \<Rightarrow> string"
  git_version :: string

definition libcall :: "'a init_lib_scheme \<Rightarrow> string \<Rightarrow> string \<Rightarrow> arg list \<Rightarrow> (srv_call, server_error, unit) action" where
  "libcall I obj name args =
     (let c = Method obj name args
      in ([c], case lib_error I c of None \<Rightarrow> Inr () | Some e \<Rightarrow> Inl e))"

definition invoke :: "string \<Rightarrow> string \<Rightarrow> arg list \<Rightarrow> (srv_call, server_error, unit) action" where
  "invoke obj name args = call (Method obj name args)"

definition mapA :: "('c \<Rightarrow> 'd) \<Rightarrow> ('c, 'e, 'a) action \<Rightarrow> ('d, 'e, 'a) action" where
  "mapA f m = (map f (fst m), snd m)"

text \<open>A list of calls that do not raise.\<close>

definition invokes :: "(string \<times> string \<times> arg list) list \<Rightarrow> (srv_call, server_error, unit) action" where
  "invokes ms = forA (\<lambda>(obj, name, args). invoke obj name args) ms"

section \<open>The phases\<close>

text \<open>Transport, capabilities, state directory, media types.\<close>

definition init_transport :: "env \<Rightarrow> init_lib \<Rightarrow> config \<Rightarrow> ConferenceServer
    \<Rightarrow> (srv_call, server_error, ConferenceServer) action" where
  "init_transport E I cfg srv =
     seqA (liftA (getString cfg ''transport'')) (\<lambda>transport.
     seqA (guardA (transport \<noteq> '''') (BadConfigurationEmpty ''transport'')) (\<lambda>_.
     seqA (libcall I ''configuration_utils'' ''configureTransport''
             [AString transport, AList ['''', ''udp'', ''tcp'']]) (\<lambda>_.
       case makeSipUri E transport of
         None \<Rightarrow> raise (InvalidUrlError transport)
       | Some uri \<Rightarrow> ret (srv\<lparr>mTransport := uri\<rparr>))))"

definition init_media :: "config \<Rightarrow> ConferenceServer \<Rightarrow> (srv_call, server_error, ConferenceServer) action" where
  "init_media cfg srv =
     seqA (liftA (getBool cfg ''check-capabilities'')) (\<lambda>checkCapabilities.
     seqA (liftA (getString cfg ''state-directory'')) (\<lambda>stateDirectory.
     seqA (liftA (getList cfg ''supported-media-types'')) (\<lambda>mediaTypes.
       let m0 = mMediaConfig srv;
           m1 = (if ''audio'' \<in> set mediaTypes then m0\<lparr>audioEnabled := True\<rparr> else m0);
           m2 = (if ''video'' \<in> set mediaTypes then m1\<lparr>videoEnabled := True\<rparr> else m1);
           m3 = (if ''text'' \<in> set mediaTypes then m2\<lparr>textEnabled := True\<rparr> else m2)
       in seqA (guardA (audioEnabled m3 \<or> videoEnabled m3 \<or> textEnabled m3)
                  (BadConfigurationWithHelp ''supported-media-types''
                     ''no media types enabled in conference server (at least one media type must be enabled)''))
            (\<lambda>_. ret (srv\<lparr>mCheckCapabilities_srv := checkCapabilities, mStateDir := stateDirectory,
                          mMediaConfig := m3\<rparr>)))))"

text \<open>The configuration object of the core, then the UUID of the last run.\<close>

definition init_core_config :: "init_lib \<Rightarrow> os \<Rightarrow> (string \<rightharpoonup> string) \<Rightarrow> config \<Rightarrow> ConferenceServer
    \<Rightarrow> (srv_call, server_error, ConferenceServer) action" where
  "init_core_config I sys files cfg srv =
     seqA (invokes [
       (''configLinphone'', ''setString'', [AString ''sip'', AString ''bind_address'', AString (uri_getHost I (mTransport srv))]),
       (''configLinphone'', ''setBool'', [AString ''misc'', AString ''conference_server_enabled'', ABool True]),
       (''configLinphone'', ''setBool'', [AString ''misc'', AString ''enable_one_to_one_chat_room'', ABool True])]) (\<lambda>_.
     seqA (liftA (getBool cfg ''empty-chat-room-deletion'')) (\<lambda>emptyDeletion.
     seqA (invokes [
       (''configLinphone'', ''setBool'', [AString ''misc'', AString ''empty_chat_room_deletion'', ABool emptyDeletion]),
       (''configLinphone'', ''setInt'', [AString ''misc'', AString ''history_max_size'', AInt 0])]) (\<lambda>_.
     seqA (if textEnabled (mMediaConfig srv)
       then seqA (liftA (getString cfg ''database-connection-string'')) (\<lambda>dbUri.
            seqA (guardA (dbUri \<noteq> '''') (BadConfigurationWithHelp ''database-connection-string''
               (getCompleteName I ''database-connection-string''
                  @ '' is not set but is mandatory when '' @ [CHR 0x27] @ ''text'' @ [CHR 0x27]
                  @ '' media type is enabled''))) (\<lambda>_.
            seqA (invokes [
              (''configLinphone'', ''setInt'', [AString ''misc'', AString ''hide_empty_chat_rooms'', AInt 0]),
              (''configLinphone'', ''setInt'', [AString ''misc'', AString ''hide_chat_rooms_from_removed_proxies'', AInt 0])]) (\<lambda>_.
            seqA (liftA (getString cfg ''database-backend'')) (\<lambda>backend.
              invokes [
              (''configLinphone'', ''setString'', [AString ''storage'', AString ''backend'', AString backend]),
              (''configLinphone'', ''setString'', [AString ''storage'', AString ''uri'', AString dbUri]),
              (''configLinphone'', ''setBool'', [AString ''misc'', AString ''keep_gruu_in_conference_address'', ABool True]),
              (''configLinphone'', ''setString'', [AString ''storage'', AString ''zrtp_secrets_db_uri'', AString ''null'']) ]))))
       else ret ()) (\<lambda>_.
     seqA (invokes [
       (''configLinphone'', ''setString'', [AString ''lime'', AString ''x3dh_db_path'', AString '':memory:'']),
       (''configLinphone'', ''setInt'', [AString ''misc'', AString ''max_calls'', AInt 1000]),
       (''configLinphone'', ''setBool'', [AString ''sip'', AString ''reject_duplicated_calls'', ABool False]),
       (''configLinphone'', ''setInt'', [AString ''sound'', AString ''conference_rate'', AInt 48000]),
       (''configLinphone'', ''setBool'', [AString ''rtp'', AString ''symmetric'', ABool True]),
       (''configLinphone'', ''setBool'', [AString ''rtp'', AString ''rtcp_enabled'', ABool True]),
       (''configLinphone'', ''setBool'', [AString ''rtp'', AString ''rtcp_mux'', ABool True]),
       (''configLinphone'', ''setBool'', [AString ''video'', AString ''dont_check_codecs'', ABool True]),
       (''configLinphone'', ''setBool'', [AString ''net'', AString ''enable_nat_helper'', ABool False])]) (\<lambda>_.
     seqA (liftA (getString cfg ''audio-engine-mode'')) (\<lambda>audioEngineMode.
     seqA (libcall I ''configuration_utils'' ''configureMediaEngineMode'' [AString ''AUDIO'', AString audioEngineMode]) (\<lambda>_.
     seqA (liftA (getString cfg ''video-engine-mode'')) (\<lambda>videoEngineMode.
     seqA (libcall I ''configuration_utils'' ''configureMediaEngineMode'' [AString ''VIDEO'', AString videoEngineMode]) (\<lambda>_.
       let uuid = readUuid sys files (mStateDir srv);
           srv' = srv\<lparr>mUuid := uuid\<rparr>
       in seqA (whenA (uuid \<noteq> '''') (invoke ''configLinphone'' ''setString''
                 [AString ''misc'', AString ''uuid'', AString uuid])) (\<lambda>_.
          seqA (invoke ''configLinphone'' ''setBool'' [AString ''logging'', AString ''disable_stdout'', ABool True]) (\<lambda>_.
            ret srv')))))))))))"

text \<open>The core itself: timeouts, user agent, transports, media ports.\<close>

definition init_core :: "init_lib \<Rightarrow> config \<Rightarrow> ConferenceServer \<Rightarrow> (srv_call, server_error, unit) action" where
  "init_core I cfg srv =
     seqA (libcall I ''Factory'' ''createCoreWithConfig'' []) (\<lambda>_.
     seqA (liftA (getDuration cfg ''call-timeout'')) (\<lambda>callTimeout.
     seqA (invokes [
       (''mCore'', ''setInCallTimeout'', [AInt (seconds_of callTimeout)]),
       (''mCore'', ''enableRtpBundle'', [ABool True]),
       (''mCore'', ''enableEchoCancellation'', [ABool False])]) (\<lambda>_.
     seqA (whenA (\<not> textEnabled (mMediaConfig srv)) (invoke ''mCore'' ''enableDatabase'' [ABool False])) (\<lambda>_.
     seqA (liftA (getDuration cfg ''no-rtp-timeout'')) (\<lambda>noRTPTimeout.
     seqA (guardA (0 < noRTPTimeout) (BadConfigurationValue ''no-rtp-timeout'' ''duration must be strictly positive'')) (\<lambda>_.
     seqA (invokes [
       (''mCore'', ''setNortpTimeout'', [AInt (seconds_of noRTPTimeout)]),
       (''mCore'', ''setUserAgent'', [AString ''Flexisip-conference'', AString (git_version I)]),
       (''mCore'', ''addListener'', [AThis]),
       (''mCore'', ''enableConferenceServer'', [ABool True]),
       (''mCore'', ''setTransports'', []),
       (''mCore'', ''enableLimeX3Dh'', [ABool True])]) (\<lambda>_.
     seqA (liftA (getRange cfg ''audio-port'')) (\<lambda>(audioPortMin, audioPortMax).
     seqA (libcall I ''configuration_utils'' ''setMediaPort'' [AInt audioPortMin, AInt audioPortMax, AString ''setAudioPort'', AString ''setAudioPortRange'']) (\<lambda>_.
     seqA (liftA (getRange cfg ''video-port'')) (\<lambda>(videoPortMin, videoPortMax).
     seqA (libcall I ''configuration_utils'' ''setMediaPort'' [AInt videoPortMin, AInt videoPortMax, AString ''setVideoPort'', AString ''setVideoPortRange'']) (\<lambda>_.
       invoke ''mCore'' ''setUseFiles'' [ABool True])))))))))))"

definition init_codecs :: "string_lib \<Rightarrow> init_lib \<Rightarrow> config \<Rightarrow> (srv_call, server_error, unit) action" where
  "init_codecs SL I cfg =
     seqA (liftA (getList cfg ''supported-audio-codecs'')) (\<lambda>audioCodecs.
     seqA (liftA (getString cfg ''audio-engine-mode'')) (\<lambda>audioEngineMode.
     seqA (if audioEngineMode = ''sfu''
           then (case audioCodecs of [] \<Rightarrow> raise EmptyFront
                 | first # _ \<Rightarrow> mapA (\<lambda>(m, b). Codec m b)
                     (enableSelectedCodecs SL (getAudioPayloadTypes I) [first] ''supported-audio-codecs''))
           else mapA (\<lambda>(m, b). Codec m b)
                  (enableSelectedCodecs SL (getAudioPayloadTypes I) audioCodecs ''supported-audio-codecs'')) (\<lambda>_.
     seqA (liftA (getString cfg ''supported-video-codec'')) (\<lambda>videoCodec.
     seqA (guardA (videoCodec = ''vp8'') (BadConfigurationValue ''supported-video-codec''
             ''only VP8 is supported as of today for video conferences'')) (\<lambda>_.
       mapA (\<lambda>(m, b). Codec m b)
         (enableSelectedCodecs SL (getVideoPayloadTypes I) [videoCodec] ''supported-video-codec''))))))"

text \<open>Encryption, certificates, ICE, factory URIs; the address of the outbound proxy.\<close>

definition init_network :: "env \<Rightarrow> init_lib \<Rightarrow> os \<Rightarrow> (nat \<Rightarrow> string) \<Rightarrow> config \<Rightarrow> ConferenceServer
    \<Rightarrow> (srv_call, server_error, ConferenceServer \<times> Address) action" where
  "init_network E I sys to_string cfg srv =
     seqA (liftA (getString cfg ''encryption'')) (\<lambda>encryption.
     seqA (case string2MediaEncryption I encryption of None \<Rightarrow> ret ()
           | Some encryptionMode \<Rightarrow> invoke ''mCore'' ''setMediaEncryption'' [AInt encryptionMode]) (\<lambda>_.
       let dtlsDir = getStateDir (mStateDir srv) ''dtls-srtp''
       in seqA (mapA Os (ensureDirectoryCreated sys dtlsDir)) (\<lambda>_.
          seqA (invokes [
            (''mCore'', ''setUserCertificatesPath'', [AString dtlsDir]),
            (''mCore'', ''setVideoDisplayFilter'', [AString ''MSExtDisplay'']),
            (''natPolicy'', ''enableIce'', [ABool True])]) (\<lambda>_.
          seqA (liftA (getList cfg ''nat-addresses'')) (\<lambda>natAddresses.
          seqA (libcall I ''configuration_utils'' ''configureNatAddresses'' [AList natAddresses]) (\<lambda>_.
          seqA (invoke ''mCore'' ''setNatPolicy'' []) (\<lambda>_.
          seqA (liftA (loadFactoryUris to_string cfg (mConfServerUris srv))) (\<lambda>uris.
          seqA (liftA (getString cfg ''outbound-proxy'')) (\<lambda>outboundProxy.
            case createAddress E outboundProxy of
              None \<Rightarrow> raise (BadConfigurationValue ''outbound-proxy'' '''')
            | Some outboundProxyAddress \<Rightarrow>
                ret (srv\<lparr>mConfServerUris := uris\<rparr>, outboundProxyAddress))))))))))"

text \<open>The loop over the pairs of URIs; the accounts made so far are the accounts of the core.\<close>

fun init_accounts :: "env \<Rightarrow> Address \<Rightarrow> (string \<times> string) list \<Rightarrow> bool \<Rightarrow> Account list
    \<Rightarrow> ConferenceServer \<Rightarrow> (srv_call, server_error, ConferenceServer \<times> Account list) action" where
  "init_accounts E outboundProxyAddress [] defaultAccountSet accounts srv = ret (srv, accounts)"
| "init_accounts E outboundProxyAddress ((factory, focus) # uris) defaultAccountSet accounts srv =
     (let factoryUri = createAddress E factory;
          identity = (if focus \<noteq> '''' then createAddress E focus else factoryUri);
          account = \<lparr>identityAddress = identity, serverAddress = Some outboundProxyAddress,
                     registerEnabled = False, outboundProxyEnabled = True,
                     conferenceFactoryAddress = factoryUri\<rparr>;
          n = length accounts
      in seqA (invoke ''account'' ''setContactAddress'' [AAccount n, AAddress (identityAddress account)]) (\<lambda>_.
         seqA (call (AddAccount account)) (\<lambda>_.
         seqA (whenA (\<not> defaultAccountSet) (invoke ''mCore'' ''setDefaultAccount'' [AAccount n])) (\<lambda>_.
           case factoryUri of
             None \<Rightarrow> raise NullPointer
           | Some a \<Rightarrow>
               init_accounts E outboundProxyAddress uris True (accounts @ [account])
                 (srv\<lparr>mLocalDomains := mLocalDomains srv @ [getDomain a]\<rparr>)))))"

text \<open>Additional local domains: \<^verbatim>\<open>list::sort\<close> and \<^verbatim>\<open>list::unique\<close>.\<close>

definition init_domains :: "config \<Rightarrow> ConferenceServer \<Rightarrow> (srv_call, server_error, ConferenceServer) action" where
  "init_domains cfg srv =
     seqA (liftA (getList cfg ''local-domains'')) (\<lambda>otherLocalDomains.
       ret (srv\<lparr>mLocalDomains := remdups_adj (sort (mLocalDomains srv @ otherLocalDomains))\<rparr>))"

text \<open>The settings of the started server; the value is the refresh delay of the client factory.\<close>

definition init_settings :: "config \<Rightarrow> (srv_call, server_error, int) action" where
  "init_settings cfg =
     seqA (liftA (getDuration cfg ''subscription-refresh-delay'')) (\<lambda>refreshDelay.
     seqA (liftA (getBool cfg ''empty-chat-room-deletion'')) (\<lambda>emptyDeletion.
     seqA (invoke ''mCore'' ''enableEmptyChatroomsDeletion'' [ABool emptyDeletion]) (\<lambda>_.
     seqA (liftA (getBool cfg ''cleanup-expired-conferences'')) (\<lambda>cleanup.
     seqA (whenA cleanup (invoke ''mCore'' ''setConferenceCleanupPeriod'' [AInt 600])) (\<lambda>_.
     seqA (liftA (getDuration cfg ''conferences-availability-before-start'')) (\<lambda>availability.
     seqA (invoke ''mCore'' ''setConferenceAvailabilityBeforeStart'' [AInt (seconds_of availability)]) (\<lambda>_.
     seqA (liftA (getDuration cfg ''conferences-expiry-time'')) (\<lambda>expiry.
     seqA (invoke ''mCore'' ''setConferenceExpirePeriod'' [AInt (seconds_of expiry)]) (\<lambda>_.
     seqA (liftA (getInt cfg ''max-participants-per-chatroom'')) (\<lambda>maxParticipants.
     seqA (invoke ''mCore'' ''setMaxParticipantsPerChatroom'' [AInt maxParticipants]) (\<lambda>_.
     seqA (liftA (getBool cfg ''chatroom-address-unification'')) (\<lambda>unification.
     seqA (invoke ''mCore'' ''enableChatRoomAddressUnification'' [ABool unification]) (\<lambda>_.
     seqA (liftA (getBool cfg ''database-migration-on-startup'')) (\<lambda>migration.
     seqA (invoke ''mCore'' ''enableUpdateDbAtStartup'' [ABool migration]) (\<lambda>_.
     seqA (liftA (getString cfg ''handled-chatroom-category'')) (\<lambda>category.
     seqA (liftA (getChatRoomsHandlingSet ''handled-chatroom-category'' category)) (\<lambda>handling.
     seqA (invoke ''mCore'' ''setChatRoomsHandlingSet'' [AHandling handling]) (\<lambda>_.
       ret (seconds_of refreshDelay)))))))))))))))))))"

text \<open>
  Starting the core; the UUID is checked or kept; the addresses are bound if the registrar
  database is writable. \<open>bind\<close> is the virtual function \<^verbatim>\<open>bindAddresses\<close>.
\<close>

definition init_start_with :: "init_lib \<Rightarrow> os
    \<Rightarrow> (ConferenceServer \<Rightarrow> (srv_call, server_error, ConferenceServer) action) \<Rightarrow> ConferenceServer
    \<Rightarrow> (srv_call, server_error, ConferenceServer) action" where
  "init_start_with I sys bind srv =
     seqA (invoke ''mCore'' ''start'' []) (\<lambda>_.
     seqA (guardA (core_start I \<noteq> - 2) (ExitFailure
        ''the Linphone core could not start because the connection to the database failed'')) (\<lambda>_.
     seqA (guardA (0 \<le> core_start I) (ExitFailure
        ''the Linphone core failed to start (please check the logs)'')) (\<lambda>_.
     seqA (if mUuid srv = ''''
           then seqA (mapA Os (writeUuid sys (mStateDir srv) (core_uuid I))) (\<lambda>uuid. ret (srv\<lparr>mUuid := uuid\<rparr>))
           else seqA (guardA (core_uuid I = mUuid srv) (BadConfiguration ''inconsistent uuid'')) (\<lambda>_. ret srv)) (\<lambda>srv1.
     seqA (invoke ''mRegistrarDb'' ''addStateListener'' [AThis]) (\<lambda>_.
       if isWritable I then bind srv1 else ret srv1)))))"

definition init_start :: "env \<Rightarrow> init_lib \<Rightarrow> os \<Rightarrow> Account list \<Rightarrow> ConferenceServer
    \<Rightarrow> (srv_call, server_error, ConferenceServer) action" where
  "init_start E I sys accounts =
     init_start_with I sys (bindAddresses E (server_lib.truncate I) accounts (getChatRooms I))"

text \<open>The whole function; the second component is the state of the subscription handler.\<close>

definition init_server_with :: "env \<Rightarrow> string_lib \<Rightarrow> init_lib \<Rightarrow> os \<Rightarrow> (string \<rightharpoonup> string) \<Rightarrow> (nat \<Rightarrow> string)
    \<Rightarrow> config \<Rightarrow> (Account list \<Rightarrow> ConferenceServer \<Rightarrow> (srv_call, server_error, ConferenceServer) action)
    \<Rightarrow> ConferenceServer \<Rightarrow> (srv_call, server_error, ConferenceServer \<times> world) action" where
  "init_server_with E SL I sys files to_string cfg bind srv0 =
     seqA (init_transport E I cfg srv0) (\<lambda>srv1.
     seqA (init_media cfg srv1) (\<lambda>srv2.
     seqA (init_core_config I sys files cfg srv2) (\<lambda>srv3.
     seqA (init_core I cfg srv3) (\<lambda>_.
     seqA (init_codecs SL I cfg) (\<lambda>_.
     seqA (init_network E I sys to_string cfg srv3) (\<lambda>(srv4, outboundProxyAddress).
     seqA (init_accounts E outboundProxyAddress (mConfServerUris srv4) False [] srv4) (\<lambda>(srv5, accounts).
     seqA (init_domains cfg srv5) (\<lambda>srv6.
     seqA (init_settings cfg) (\<lambda>refreshDelay.
     seqA (init_start_with I sys (bind accounts) srv6) (\<lambda>srv7.
       ret (srv7, world_init refreshDelay)))))))))))"

definition init_server :: "env \<Rightarrow> string_lib \<Rightarrow> init_lib \<Rightarrow> os \<Rightarrow> (string \<rightharpoonup> string) \<Rightarrow> (nat \<Rightarrow> string)
    \<Rightarrow> config \<Rightarrow> ConferenceServer \<Rightarrow> (srv_call, server_error, ConferenceServer \<times> world) action" where
  "init_server E SL I sys files to_string cfg =
     init_server_with E SL I sys files to_string cfg
       (\<lambda>accounts. bindAddresses E (server_lib.truncate I) accounts (getChatRooms I))"

lemmas init_start_unfold = init_start_def init_start_with_def
lemmas init_server_unfold = init_server_def init_server_with_def init_start_def [symmetric]

end
