(* ===== verification/BindingProps.thy ===== *)
theory BindingProps
  imports Binding Capabilities
begin

text \<open>
  What \<^verbatim>\<open>bindAddresses\<close> records in the registrar database, when it does nothing, and what the
  listener of a focus binding does with the answer.
\<close>

section \<open>The UUID of a server\<close>

definition uuid_of :: "server_lib \<Rightarrow> ConferenceServer \<Rightarrow> string" where
  "uuid_of L srv = (if mUuid srv = '''' then core_uuid L else mUuid srv)"

lemma getUuid_eq: "getUuid L srv = (uuid_of L srv, srv\<lparr>mUuid := uuid_of L srv\<rparr>)"
  by (simp add: getUuid_def uuid_of_def Let_def)

lemma uuid_of_again [simp]: "uuid_of L (srv\<lparr>mUuid := uuid_of L srv\<rparr>) = uuid_of L srv"
  by (simp add: uuid_of_def)

lemma params_uuid [simp]: "binding_parameters L (srv\<lparr>mUuid := u\<rparr>) cid = binding_parameters L srv cid"
  by (simp add: binding_parameters_def)

section \<open>The bindings of a successful run\<close>

definition factory_bindings :: "env \<Rightarrow> server_lib \<Rightarrow> ConferenceServer \<Rightarrow> srv_call list" where
  "factory_bindings E L srv = concat (map (\<lambda>(f, g).
     [DbClear (the (makeSipUri E f)) ''CONFERENCE'',
      DbBind (the (makeSipUri E f)) (server_contact L (mTransport srv) (uuid_of L srv))
        (binding_parameters L srv ''CONFERENCE'') FakeListener]) (mConfServerUris srv))"

definition focus_bindings :: "env \<Rightarrow> server_lib \<Rightarrow> Account list \<Rightarrow> ConferenceServer \<Rightarrow> srv_call list" where
  "focus_bindings E L accounts srv = concat (map (\<lambda>(n, account).
     if address_equal L (the (identityAddress account)) (createAddress E (getConferenceFactoryUri L account))
     then []
     else [DbBind (the (makeSipUri E (asStringUriOnly (the (identityAddress account)))))
             (server_contact L (mTransport srv) (uuid_of L srv))
             (binding_parameters L srv ''CONFERENCE'') (FocusListener n (uuid_of L srv))])
     (enumerate 0 accounts))"

definition room_gruu :: "server_lib \<Rightarrow> ConferenceServer \<Rightarrow> string \<Rightarrow> string" where
  "room_gruu L srv uri = (if uriParam L uri ''gr'' = '''' then uuid_of L srv else uriParam L uri ''gr'')"

definition is_focus_address :: "env \<Rightarrow> server_lib \<Rightarrow> ConferenceServer \<Rightarrow> Address \<Rightarrow> bool" where
  "is_focus_address E L srv peer \<longleftrightarrow>
     (\<exists>(f, g) \<in> set (mConfServerUris srv). address_weakEqual L peer (createAddress E g))"

definition room_bindings :: "env \<Rightarrow> server_lib \<Rightarrow> Address list \<Rightarrow> ConferenceServer \<Rightarrow> srv_call list" where
  "room_bindings E L peers srv = concat (map (\<lambda>peer.
     if is_focus_address E L srv peer then []
     else let uri = the (makeSipUri E (asStringUriOnly peer))
          in [DbBind uri \<lparr>contact_url = mTransport srv,
                contact_param = Some (''+sip.instance='' @ grToUniqueId L (room_gruu L srv uri))\<rparr>
                (binding_parameters L srv ''dummy-call-id'') NoListener]) peers)"

lemma bindFactoryUris_ok:
  assumes "snd (bindFactoryUris E L srv) = Inr srv'"
  shows "srv' = srv\<lparr>mUuid := uuid_of L srv\<rparr>" and "fst (bindFactoryUris E L srv) = factory_bindings E L srv"
proof -
  let ?s = "srv\<lparr>mUuid := uuid_of L srv\<rparr>"
  define body where "body = (\<lambda>conferenceFactoryUri :: string \<times> string.
     let sipContact = server_contact L (mTransport ?s) (uuid_of L srv)
     in case makeSipUri E (fst conferenceFactoryUri) of
          None \<Rightarrow> raise (BadConfiguration (''invalid conference-server SIP URI '' @ [CHR 0x27]
                       @ fst conferenceFactoryUri @ [CHR 0x27]))
        | Some factory \<Rightarrow>
            (let parameter = binding_parameters L ?s ''CONFERENCE''
             in seqA (call (DbClear factory (callId parameter))) (\<lambda>_.
                  call (DbBind factory sipContact parameter FakeListener))))"
  have "bindFactoryUris E L srv = seqA (forA body (mConfServerUris ?s)) (\<lambda>_. ret ?s)"
    by (simp only: bindFactoryUris_def getUuid_eq body_def Let_def prod.case)
  then have eq: "bindFactoryUris E L srv = seqA (forA body (mConfServerUris srv)) (\<lambda>_. ret ?s)"
    by simp
  with assms have ok: "snd (forA body (mConfServerUris srv)) = Inr ()" and "srv' = ?s"
    by (auto simp: action_simps)
  then show "srv' = ?s" by simp
  note D = forA_okD [OF ok]
  have "fst (body p) = [DbClear (the (makeSipUri E (fst p))) ''CONFERENCE'',
      DbBind (the (makeSipUri E (fst p))) (server_contact L (mTransport srv) (uuid_of L srv))
        (binding_parameters L srv ''CONFERENCE'') FakeListener]" if "snd (body p) = Inr ()" for p
    using that
    by (auto simp: body_def Let_def action_simps binding_parameters_def seqA_Inr split: option.splits)
  with D have "fst (forA body (mConfServerUris srv)) = factory_bindings E L srv"
    by (simp add: factory_bindings_def case_prod_beta cong: map_cong)
  with ok show "fst (bindFactoryUris E L srv) = factory_bindings E L srv"
    by (simp add: eq seqA_Inr)
qed

lemma bindFocusUris_ok:
  assumes "snd (bindFocusUris E L accounts srv) = Inr srv'"
  shows "srv' = srv\<lparr>mUuid := uuid_of L srv\<rparr>"
    and "fst (bindFocusUris E L accounts srv) = focus_bindings E L accounts srv"
proof -
  let ?s = "srv\<lparr>mUuid := uuid_of L srv\<rparr>"
  define body where "body = (\<lambda>(n, account).
     case identityAddress account of
       None \<Rightarrow> raise NullPointer
     | Some identity \<Rightarrow>
         (if address_equal L identity (createAddress E (getConferenceFactoryUri L account)) then ret ()
          else let sipContact = server_contact L (mTransport ?s) (uuid_of L srv);
                   parameter = binding_parameters L ?s ''CONFERENCE''
               in case makeSipUri E (asStringUriOnly identity) of
                    None \<Rightarrow> raise (InvalidUrlError (asStringUriOnly identity))
                  | Some focus \<Rightarrow>
                      call (DbBind focus sipContact parameter (FocusListener n (uuid_of L srv)))))"
  have eq: "bindFocusUris E L accounts srv = seqA (forA body (enumerate 0 accounts)) (\<lambda>_. ret ?s)"
    by (simp only: bindFocusUris_def getUuid_eq body_def Let_def prod.case)
  with assms have ok: "snd (forA body (enumerate 0 accounts)) = Inr ()" and "srv' = ?s"
    by (auto simp: action_simps)
  then show "srv' = ?s" by simp
  note D = forA_okD [OF ok]
  have "fst (body (n, a)) =
     (if address_equal L (the (identityAddress a)) (createAddress E (getConferenceFactoryUri L a))
     then []
     else [DbBind (the (makeSipUri E (asStringUriOnly (the (identityAddress a)))))
             (server_contact L (mTransport srv) (uuid_of L srv))
             (binding_parameters L srv ''CONFERENCE'') (FocusListener n (uuid_of L srv))])"
    if "snd (body (n, a)) = Inr ()" for n a
    using that by (auto simp: body_def Let_def split: option.splits if_splits)
  with D have "fst (forA body (enumerate 0 accounts)) = focus_bindings E L accounts srv"
    unfolding focus_bindings_def by (auto intro!: arg_cong [where f = concat])
  with ok show "fst (bindFocusUris E L accounts srv) = focus_bindings E L accounts srv"
    by (simp add: eq seqA_Inr)
qed

lemma is_focus_iff:
  "is_focus E L peer (mConfServerUris srv) \<longleftrightarrow> is_focus_address E L srv peer"
proof -
  have "is_focus E L peer ps \<longleftrightarrow> (\<exists>(f, g) \<in> set ps. address_weakEqual L peer (createAddress E g))" for ps
    by (induction ps) auto
  then show ?thesis by (simp add: is_focus_address_def)
qed

lemma bindChatRoom_ok:
  assumes "snd (bindChatRoom E L url contact l srv) = Inr srv'"
  shows "(srv' = srv \<or> srv' = srv\<lparr>mUuid := uuid_of L srv\<rparr>)
    \<and> fst (bindChatRoom E L url contact l srv) =
        [DbBind (the (makeSipUri E url)) \<lparr>contact_url = contact,
           contact_param = Some (''+sip.instance='' @ grToUniqueId L (room_gruu L srv (the (makeSipUri E url))))\<rparr>
           (binding_parameters L srv ''dummy-call-id'') l]
    \<and> makeSipUri E url \<noteq> None \<and> uriUser L (the (makeSipUri E url)) \<noteq> ''''"
  using assms
  by (cases "makeSipUri E url")
    (auto simp: bindChatRoom_def Let_def getUuid_eq room_gruu_def action_simps seqA_Inr
      split: if_splits)

lemma bind_rooms_ok:
  assumes "snd (bind_rooms E L peers srv) = Inr srv'"
  shows "(srv' = srv \<or> srv' = srv\<lparr>mUuid := uuid_of L srv\<rparr>)
    \<and> fst (bind_rooms E L peers srv) = room_bindings E L peers srv"
  using assms
proof (induction peers arbitrary: srv)
  case Nil
  then show ?case by (simp add: room_bindings_def)
next
  case (Cons peer peers)
  let ?b = "if is_focus_address E L srv peer then ret srv
    else bindChatRoom E L (asStringUriOnly peer) (mTransport srv) NoListener srv"
  from Cons.prems obtain srv1 where r: "snd ?b = Inr srv1" and rest: "snd (bind_rooms E L peers srv1) = Inr srv'"
    by (auto simp: action_simps is_focus_iff)
  have srv1: "srv1 = srv \<or> srv1 = srv\<lparr>mUuid := uuid_of L srv\<rparr>"
    using r bindChatRoom_ok by (auto split: if_splits)
  have same: "room_bindings E L peers srv1 = room_bindings E L peers srv"
    "uuid_of L srv1 = uuid_of L srv"
    using srv1 by (auto simp: room_bindings_def is_focus_address_def room_gruu_def Let_def cong: if_cong)
  have "fst (bind_rooms E L (peer # peers) srv) = fst ?b @ fst (bind_rooms E L peers srv1)"
    using r by (simp add: seqA_Inr is_focus_iff)
  also have "fst ?b = room_bindings E L [peer] srv"
    using r bindChatRoom_ok by (auto simp: room_bindings_def Let_def split: if_splits)
  finally have "fst (bind_rooms E L (peer # peers) srv) = room_bindings E L (peer # peers) srv"
    using Cons.IH [OF rest] same by (simp add: room_bindings_def)
  moreover have "srv' = srv \<or> srv' = srv\<lparr>mUuid := uuid_of L srv\<rparr>"
    using Cons.IH [OF rest] srv1 same(2) by auto
  ultimately show ?case by blast
qed

lemma bindAddresses_ok:
  assumes "\<not> mAddressesBound srv" and "snd (bindAddresses E L accounts chatRooms srv) = Inr srv'"
  shows "fst (bindAddresses E L accounts chatRooms srv) =
      factory_bindings E L srv @ focus_bindings E L accounts srv
      @ (if textEnabled (mMediaConfig srv) then room_bindings E L chatRooms srv else [])
    \<and> srv' = srv\<lparr>mUuid := uuid_of L srv, mAddressesBound := True\<rparr>"
proof -
  let ?s = "srv\<lparr>mUuid := uuid_of L srv\<rparr>"
  let ?r = "\<lambda>srv2. if textEnabled (mMediaConfig srv2) then bind_rooms E L chatRooms srv2 else ret srv2"
  from assms obtain srv1 srv2 srv3 where r: "snd (bindFactoryUris E L srv) = Inr srv1"
    "snd (bindFocusUris E L accounts srv1) = Inr srv2" "snd (?r srv2) = Inr srv3"
    and srv': "srv' = srv3\<lparr>mAddressesBound := True\<rparr>"
    by (auto simp: bindAddresses_def action_simps)
  have s1: "srv1 = ?s" using bindFactoryUris_ok(1) [OF r(1)] .
  with bindFocusUris_ok(1) [OF r(2)] have s2: "srv2 = ?s" by simp
  have s3: "srv3 = ?s"
    using r(3) bind_rooms_ok [of E L chatRooms srv2] s2 by (auto split: if_splits)
  have "fst (bindAddresses E L accounts chatRooms srv) =
      fst (bindFactoryUris E L srv) @ fst (bindFocusUris E L accounts srv1) @ fst (?r srv2)"
    using assms(1) r by (simp add: bindAddresses_def seqA_Inr)
  also have "fst (?r srv2) = (if textEnabled (mMediaConfig srv) then room_bindings E L chatRooms srv else [])"
    using r(3) bind_rooms_ok [of E L chatRooms srv2] s2
    by (auto simp: room_bindings_def is_focus_address_def room_gruu_def Let_def cong: if_cong split: if_splits)
  also have "fst (bindFocusUris E L accounts srv1) = focus_bindings E L accounts srv"
    using bindFocusUris_ok(2) [OF r(2)] s1 by (simp add: focus_bindings_def cong: if_cong)
  finally show ?thesis
    using bindFactoryUris_ok(2) [OF r(1)] srv' s3 by simp
qed

text \<open>
  C28. When the addresses of the server are bound for the first time without an error, the calls
  to the registrar database are exactly these, in this order: for each factory URI a clearing of
  the bindings of older versions and then a binding; a binding for each account whose identity is
  not its factory address; and, if the server handles text, a binding for each loaded chat room
  whose address is not a focus URI. All carry the transport of the server and its UUID (a chat
  room its own GRUU if it has one).
\<close>

theorem bindAddresses_calls:
  assumes "\<not> mAddressesBound srv" and "snd (bindAddresses E L accounts chatRooms srv) = Inr srv'"
  shows "fst (bindAddresses E L accounts chatRooms srv) =
      factory_bindings E L srv @ focus_bindings E L accounts srv
      @ (if textEnabled (mMediaConfig srv) then room_bindings E L chatRooms srv else [])
    \<and> srv' = srv\<lparr>mUuid := uuid_of L srv, mAddressesBound := True\<rparr>"
  using assms by (rule bindAddresses_ok)

definition sample_slib :: server_lib where
  "sample_slib = \<lparr>uriParam = (\<lambda>u p. ''''), uriUser = (\<lambda>u. u), grToUniqueId = (\<lambda>g. g),
     address_equal = (\<lambda>a b. b = Some a), address_weakEqual = (\<lambda>a b. b = Some a),
     getConferenceFactoryUri = (\<lambda>a. ''f''),
     core_uuid = ''u'', int_max = 2147483647\<rparr>"

definition sample_server :: ConferenceServer where
  "sample_server = (ConferenceServer_init ''p'')\<lparr>mTransport := ''t'', mConfServerUris := [(''f'', ''g'')],
     mMediaConfig := \<lparr>audioEnabled = False, videoEnabled = False, textEnabled = True\<rparr>\<rparr>"

definition sample_accounts :: "Account list" where
  "sample_accounts = [\<lparr>identityAddress = createAddress sample_env ''g'', serverAddress = None,
     registerEnabled = False, outboundProxyEnabled = True,
     conferenceFactoryAddress = createAddress sample_env ''f''\<rparr>]"

lemma sample_bind_ok:
  "snd (bindAddresses sample_env sample_slib sample_accounts [bob'] sample_server) =
     Inr (sample_server\<lparr>mUuid := ''u'', mAddressesBound := True\<rparr>)"
  if "bob' = sample_address ''bob'' ''ext''"
  by (simp add: that bindAddresses_def bindFactoryUris_def bindFocusUris_def getUuid_eq uuid_of_def
      sample_server_def ConferenceServer_init_def sample_slib_def sample_accounts_def sample_env_def
      bindChatRoom_def seqA_Inr server_contact_def sample_address_def enumerate_eq_zip Let_def)

theorem bindAddresses_calls_witness:
  "length (fst (bindAddresses sample_env sample_slib sample_accounts
     [sample_address ''bob'' ''ext''] sample_server)) = 4"
proof -
  have "\<not> mAddressesBound sample_server"
    by (simp add: sample_server_def ConferenceServer_init_def)
  from bindAddresses_calls [OF this sample_bind_ok [OF refl]] show ?thesis
    by (simp add: factory_bindings_def focus_bindings_def room_bindings_def is_focus_address_def
        sample_server_def ConferenceServer_init_def sample_slib_def sample_accounts_def sample_env_def
        sample_address_def enumerate_eq_zip Let_def)
qed

text \<open>
  The addresses are bound at most once: after a success neither another call nor any later
  notification that the registrar database is writable makes a call; a notification that it is
  not writable never does.
\<close>

lemma bindAddresses_once:
  assumes "snd (bindAddresses E L accounts chatRooms srv) = Inr srv'"
  shows "bindAddresses E' L' accounts' chatRooms' srv' = ([], Inr srv')
    \<and> onRegistrarDbWritable E' L' accounts' chatRooms' b srv' = ([], Inr srv')
    \<and> onRegistrarDbWritable E' L' accounts' chatRooms' False srv = ([], Inr srv)"
proof -
  have "mAddressesBound srv'"
    using assms by (auto simp: bindAddresses_def action_simps split: if_splits)
  then show ?thesis by (simp add: bindAddresses_def onRegistrarDbWritable_def ret_def)
qed

lemma bindAddresses_once_example:
  "onRegistrarDbWritable sample_env sample_slib [] [] True (sample_server\<lparr>mUuid := ''u'', mAddressesBound := True\<rparr>)
     = ([], Inr (sample_server\<lparr>mUuid := ''u'', mAddressesBound := True\<rparr>))"
  using bindAddresses_once [OF sample_bind_ok [OF refl]] by blast

section \<open>The answer to a focus binding\<close>

text \<open>
  When the record of a focus address comes back, the account gets the public GRUU of the contact that
  has this server's UUID as its address; if one of these is missing an exception says which and the
  account keeps its address. A GRUU that is no address is dereferenced as a null pointer by an
  information message; without these messages the account is given a null address.
\<close>

lemma focus_listener_spec:
  assumes "FocusListener_onRecordFound E L n uuid (Some r) = (cs, result)"
  shows "case result of
      Inr u \<Rightarrow> (\<exists>ec g. getExtendedContacts r \<noteq> []
        \<and> extractContactByUniqueId r (grToUniqueId L uuid) = Some ec \<and> ec_pubGruuUrl ec = Some g
        \<and> cs = [Method ''account'' ''setContactAddress'' [AAccount n, AAddress (createAddress E g)]])
    | Inl e \<Rightarrow> cs = []
        \<and> e = (if getExtendedContacts r = [] then FlexisipException ''focus address bind failed''
               else case extractContactByUniqueId r (grToUniqueId L uuid) of
                 None \<Rightarrow> FlexisipException ''focus uri was not recorded in registrar database''
               | Some ec \<Rightarrow>
                   (case ec_pubGruuUrl ec of
                      None \<Rightarrow> FlexisipException ''focus binding does not have public gruu''
                    | Some g \<Rightarrow> NullPointer))
        \<and> (e = NullPointer \<longrightarrow> infoLogs E)"
  using assms
  by (auto simp: FocusListener_onRecordFound_def raise_def call_def guardA_def Let_def seqA_def
      split: option.splits if_splits)

definition empty_record :: Record where
  "empty_record = \<lparr>getExtendedContacts = [], extractContactByUniqueId = (\<lambda>_. None)\<rparr>"

lemma focus_listener_spec_example:
  "fst (FocusListener_onRecordFound sample_env sample_slib 0 ''u'' (Some empty_record)) = []"
proof -
  have "FocusListener_onRecordFound sample_env sample_slib 0 ''u'' (Some empty_record) =
      ([], Inl (FlexisipException ''focus address bind failed''))"
    by (simp add: FocusListener_onRecordFound_def empty_record_def raise_def)
  from focus_listener_spec [OF this] show ?thesis
    by (simp add: FocusListener_onRecordFound_def empty_record_def)
qed

end
