(* ===== verification/ServerProps.thy ===== *)
theory ServerProps
  imports ServerInit BindingProps
begin

text \<open>
  What \<^verbatim>\<open>_init\<close> achieves: every parameter it reads is declared with the type it is read as,
  the database is used exactly when text is handled, one account per pair of URIs, the local
  domains, the UUID.
\<close>

section \<open>The phases of a successful start\<close>

lemma init_server_ok:
  assumes "snd (init_server E SL I sys files ts cfg srv0) = Inr (srv', w)"
  obtains srv1 srv2 srv3 srv4 proxy srv5 accounts srv6 delay where
    "snd (init_transport E I cfg srv0) = Inr srv1" "snd (init_media cfg srv1) = Inr srv2"
    "snd (init_core_config I sys files cfg srv2) = Inr srv3" "snd (init_core I cfg srv3) = Inr ()"
    "snd (init_codecs SL I cfg) = Inr ()" "snd (init_network E I sys ts cfg srv3) = Inr (srv4, proxy)"
    "snd (init_accounts E proxy (mConfServerUris srv4) False [] srv4) = Inr (srv5, accounts)"
    "snd (init_domains cfg srv5) = Inr srv6" "snd (init_settings cfg) = Inr delay"
    "snd (init_start E I sys accounts srv6) = Inr srv'" "w = world_init delay"
    "fst (init_server E SL I sys files ts cfg srv0) =
       fst (init_transport E I cfg srv0) @ fst (init_media cfg srv1)
       @ fst (init_core_config I sys files cfg srv2) @ fst (init_core I cfg srv3)
       @ fst (init_codecs SL I cfg) @ fst (init_network E I sys ts cfg srv3)
       @ fst (init_accounts E proxy (mConfServerUris srv4) False [] srv4)
       @ fst (init_domains cfg srv5) @ fst (init_settings cfg) @ fst (init_start E I sys accounts srv6)"
proof -
  from assms obtain srv1 srv2 srv3 srv4 proxy srv5 accounts srv6 delay where
    r: "snd (init_transport E I cfg srv0) = Inr srv1" "snd (init_media cfg srv1) = Inr srv2"
    "snd (init_core_config I sys files cfg srv2) = Inr srv3" "snd (init_core I cfg srv3) = Inr ()"
    "snd (init_codecs SL I cfg) = Inr ()" "snd (init_network E I sys ts cfg srv3) = Inr (srv4, proxy)"
    "snd (init_accounts E proxy (mConfServerUris srv4) False [] srv4) = Inr (srv5, accounts)"
    "snd (init_domains cfg srv5) = Inr srv6" "snd (init_settings cfg) = Inr delay"
    "snd (init_start E I sys accounts srv6) = Inr srv'" "w = world_init delay"
    by (auto simp: init_server_unfold snd_seqA_Inr_iff)
  then show thesis by (intro that [OF r]) (simp add: init_server_unfold seqA_Inr)
qed

section \<open>Every parameter read is declared\<close>

text \<open>An action that never fails for want of a parameter.\<close>

definition reads_ok :: "('c, server_error, 'a) action \<Rightarrow> bool" where
  "reads_ok m \<longleftrightarrow> (\<forall>n. snd m \<noteq> Inl (MissingParameter n))"

named_theorems reads_intros

lemma reads_ok_basic [reads_intros]:
  "reads_ok (ret x)" "reads_ok (call c)" "reads_ok (invoke obj name args)"
  "\<forall>n. e \<noteq> MissingParameter n \<Longrightarrow> reads_ok (raise e)"
  "\<forall>n. e \<noteq> MissingParameter n \<Longrightarrow> reads_ok (guardA b e)"
  "reads_ok m \<Longrightarrow> reads_ok (whenA b m)" "reads_ok m' \<Longrightarrow> reads_ok (mapA f m')"
  by (auto simp: reads_ok_def invoke_def mapA_def action_simps whenA_def)

lemma reads_ok_seqA [reads_intros]:
  "reads_ok m \<Longrightarrow> (\<And>x. snd m = Inr x \<Longrightarrow> reads_ok (f x)) \<Longrightarrow> reads_ok (seqA m f)"
  by (auto simp: reads_ok_def snd_seqA_Inl_iff)

lemma reads_ok_if [reads_intros]: "reads_ok m \<Longrightarrow> reads_ok n \<Longrightarrow> reads_ok (if b then m else n)"
  by simp

lemma reads_ok_forA: "(\<And>x. reads_ok (f x)) \<Longrightarrow> reads_ok (forA f xs)"
  by (induction xs) (auto intro: reads_intros)

lemma reads_ok_invokes [reads_intros]: "reads_ok (invokes ms)"
  unfolding invokes_def by (rule reads_ok_forA) (auto intro: reads_intros)

lemma reads_ok_get [reads_intros]:
  assumes "loaded cfg"
  shows "declared String n \<Longrightarrow> reads_ok (liftA (getString cfg n))"
    and "declared StringList n \<Longrightarrow> reads_ok (liftA (getList cfg n))"
    and "declared Boolean n \<Longrightarrow> reads_ok (liftA (getBool cfg n))"
    and "declared Integer n \<Longrightarrow> reads_ok (liftA (getInt cfg n))"
    and "declared IntegerRange n \<Longrightarrow> reads_ok (liftA (getRange cfg n))"
    and "declared DurationS n \<Longrightarrow> reads_ok (liftA (getDuration cfg n))"
  using get_declared [OF assms] by (auto simp: reads_ok_def) (metis Inl_Inr_False)+

lemma declared_parameters [reads_intros]:
  "declared String ''transport''" "declared StringList ''conference-factory-uris''"
  "declared StringList ''conference-focus-uris''" "declared String ''outbound-proxy''"
  "declared StringList ''local-domains''" "declared IntegerRange ''audio-port''"
  "declared IntegerRange ''video-port''" "declared String ''database-backend''"
  "declared String ''database-connection-string''" "declared Boolean ''check-capabilities''"
  "declared StringList ''supported-media-types''" "declared StringList ''supported-audio-codecs''"
  "declared String ''supported-video-codec''" "declared String ''audio-engine-mode''"
  "declared String ''video-engine-mode''" "declared String ''encryption''"
  "declared StringList ''nat-addresses''" "declared Boolean ''empty-chat-room-deletion''"
  "declared String ''state-directory''" "declared DurationS ''subscription-refresh-delay''"
  "declared DurationS ''call-timeout''" "declared DurationS ''no-rtp-timeout''"
  "declared Boolean ''cleanup-expired-conferences''"
  "declared DurationS ''conferences-availability-before-start''"
  "declared DurationS ''conferences-expiry-time''"
  "declared Integer ''max-participants-per-chatroom''"
  "declared Boolean ''chatroom-address-unification''"
  "declared Boolean ''database-migration-on-startup''" "declared String ''handled-chatroom-category''"
  unfolding declared_iff section_types by simp_all

lemma reads_ok_lib:
  "\<forall>c n. lib_error I c \<noteq> Some (MissingParameter n) \<Longrightarrow> reads_ok (libcall I obj name args)"
  by (auto simp: reads_ok_def libcall_def Let_def split: option.splits)

lemma reads_ok_enable: "reads_ok (enableSelectedCodecs SL codecs ms p)"
  by (auto simp: reads_ok_def enableSelectedCodecs_def Let_def case_prod_beta split: if_splits)

lemma reads_ok_handling: "reads_ok (liftA (getChatRoomsHandlingSet c v))"
  by (auto simp: reads_ok_def getChatRoomsHandlingSet_def split: if_splits)

lemma reads_ok_uris: "loaded cfg \<Longrightarrow> reads_ok (liftA (loadFactoryUris ts cfg uris))"
  using get_declared(2) [of cfg "''conference-factory-uris''"] get_declared(2) [of cfg "''conference-focus-uris''"]
  by (auto simp: reads_ok_def loadFactoryUris_def factory_loop_eq declared_parameters split: if_splits)

lemma reads_ok_dir: "reads_ok (ensureDirectoryCreated sys d)"
  by (auto simp: ensureDirectoryCreated_def Let_def intro!: reads_intros)

lemma reads_ok_writeUuid: "reads_ok (writeUuid sys d u)"
  by (auto simp: writeUuid_def Let_def intro!: reads_intros reads_ok_dir)

lemma reads_ok_accounts: "reads_ok (init_accounts E p uris b accs srv)"
  by (induction E p uris b accs srv rule: init_accounts.induct)
    (auto simp: Let_def intro!: reads_intros split: option.split)

lemma reads_ok_bindRooms: "reads_ok (bind_rooms E L peers srv)"
proof (induction E L peers srv rule: bind_rooms.induct)
  case (1 E L srv)
  then show ?case by (simp add: reads_intros)
next
  case (2 E L p peers srv)
  have "reads_ok (bindChatRoom E L u c l srv)" for u c l
    by (auto simp: bindChatRoom_def Let_def case_prod_beta intro!: reads_intros split: option.split)
  then show ?case using 2 by (auto intro!: reads_intros)
qed

lemma reads_ok_bind: "reads_ok (bindAddresses E L accs rooms srv)"
proof -
  have "reads_ok (bindFactoryUris E L srv)" for srv
    by (auto simp: bindFactoryUris_def Let_def case_prod_beta
        intro!: reads_intros reads_ok_forA split: option.split)
  moreover have "reads_ok (bindFocusUris E L accs srv)" for srv
    by (auto simp: bindFocusUris_def Let_def case_prod_beta
        intro!: reads_intros reads_ok_forA split: option.split)
  ultimately show ?thesis
    by (auto simp: bindAddresses_def intro!: reads_intros reads_ok_bindRooms)
qed

lemma reads_ok_phases:
  assumes "loaded cfg" and "\<forall>c n. lib_error I c \<noteq> Some (MissingParameter n)"
  shows "reads_ok (init_transport E I cfg srv)" and "reads_ok (init_media cfg srv)"
    and "reads_ok (init_core_config I sys files cfg srv)" and "reads_ok (init_core I cfg srv)"
    and "reads_ok (init_codecs SL I cfg)" and "reads_ok (init_network E I sys ts cfg srv)"
    and "reads_ok (init_domains cfg srv)" and "reads_ok (init_settings cfg)"
    and "reads_ok (init_start E I sys accs srv)"
  unfolding init_transport_def init_media_def init_core_config_def init_core_def init_codecs_def
    init_network_def init_domains_def init_settings_def init_start_unfold Let_def case_prod_beta
  by (intro reads_intros assms(1) reads_ok_lib [OF assms(2)] reads_ok_handling reads_ok_enable
      reads_ok_uris [OF assms(1)] reads_ok_dir reads_ok_writeUuid reads_ok_bind; 
      (simp split: option.split list.split; fail)?; 
      auto intro!: reads_intros reads_ok_enable reads_ok_writeUuid reads_ok_bind assms(1) split: option.split list.split)+

section \<open>A sample configuration\<close>

definition sample_cfg :: config where
  "sample_cfg = map_of
     [(''transport'', VString ''sip:127.0.0.1:6064;transport=tcp''),
      (''conference-factory-uris'', VList [''sip:factory@local'']),
      (''conference-focus-uris'', VList [''sip:focus@local'']),
      (''outbound-proxy'', VString ''sip:127.0.0.1:5060;transport=tcp''),
      (''local-domains'', VList [''local'', ''example.com'']),
      (''audio-port'', VRange 0 0), (''video-port'', VRange 0 0),
      (''database-backend'', VString ''mysql''), (''database-connection-string'', VString ''db=x''),
      (''check-capabilities'', VBoolean True), (''supported-media-types'', VList [''text'']),
      (''supported-audio-codecs'', VList [''opus'']), (''supported-video-codec'', VString ''vp8''),
      (''audio-engine-mode'', VString ''mixer''), (''video-engine-mode'', VString ''semi-sfu''),
      (''encryption'', VString ''none''), (''nat-addresses'', VList []),
      (''empty-chat-room-deletion'', VBoolean True), (''state-directory'', VString ''/var''),
      (''subscription-refresh-delay'', VDuration 600000), (''call-timeout'', VDuration 0),
      (''no-rtp-timeout'', VDuration 30000), (''cleanup-expired-conferences'', VBoolean True),
      (''conferences-availability-before-start'', VDuration 1000),
      (''conferences-expiry-time'', VDuration 1000), (''max-participants-per-chatroom'', VInteger 50),
      (''chatroom-address-unification'', VBoolean False),
      (''database-migration-on-startup'', VBoolean True),
      (''handled-chatroom-category'', VString ''all''), (''enabled'', VBoolean True)]"

definition sample_init :: init_lib where
  "sample_init = server_lib.extend sample_slib
     \<lparr>lib_error = (\<lambda>_. None), uri_getHost = (\<lambda>u. u), string2MediaEncryption = (\<lambda>_. None),
      getAudioPayloadTypes = [''opus''], getVideoPayloadTypes = [''vp8''], core_start = 0,
      isWritable = False, getChatRooms = [], getCompleteName = (\<lambda>n. n), git_version = ''v''\<rparr>"

definition init_env :: env where
  "init_env = sample_env\<lparr>createAddress := (\<lambda>s. Some (sample_address s ''local''))\<rparr>"

lemma sample_loaded: "loaded sample_cfg"
  by (simp add: loaded_def sample_cfg_def server_section_def server_items_network_def
      server_items_service_def)

text \<open>
  C32. Every parameter that \<^verbatim>\<open>_init\<close> reads is declared in the section, with the type it is read
  as: with a configuration loaded for the section no read can fail.
\<close>

theorem init_reads_declared:
  assumes "loaded cfg" and "\<forall>c n. lib_error I c \<noteq> Some (MissingParameter n)"
  shows "snd (init_server E SL I sys files to_string cfg srv) \<noteq> Inl (MissingParameter n)"
proof -
  note P = reads_ok_phases [OF assms]
  have "reads_ok (init_server E SL I sys files to_string cfg srv)"
    unfolding init_server_unfold by (auto intro!: reads_intros P reads_ok_accounts)
  then show ?thesis by (simp add: reads_ok_def)
qed

theorem init_reads_declared_witness:
  "snd (init_server init_env sample_lib sample_init sample_os Map.empty (\<lambda>n. ''n'') sample_cfg
          (ConferenceServer_init ''p'')) \<noteq> Inl (MissingParameter ''transport'')"
  by (rule init_reads_declared [OF sample_loaded])
    (simp add: sample_init_def server_lib.extend_def)

definition started_server :: ConferenceServer where
  "started_server = \<lparr>mTransport = ''sip:127.0.0.1:6064;transport=tcp'', mPath = ''p'', mChatRooms = [],
      mMediaConfig = \<lparr>audioEnabled = False, videoEnabled = False, textEnabled = True\<rparr>,
      mConfServerUris = [(''sip:factory@local'', ''sip:focus@local'')],
      mLocalDomains = [''example.com'', ''local''], mUuid = ''u'', mAddressesBound = False,
      mCheckCapabilities_srv = True, mStateDir = ''/var''\<rparr>"

lemmas init_defs = init_transport_def init_media_def init_core_config_def init_core_def
  init_codecs_def init_network_def init_domains_def init_settings_def init_start_unfold

lemmas get_defs = getString_def getList_def getBool_def getInt_def getRange_def getDuration_def

lemma snd_invokes [simp]: "snd (invokes ms) = Inr ()"
proof -
  have "invokes ms = (concat (map (\<lambda>(obj, name, args). [Method obj name args]) ms), Inr ())"
    unfolding invokes_def by (rule forA_ok) (auto simp: invoke_def call_def)
  then show ?thesis by simp
qed

lemma fst_invokes [simp]: "fst (invokes ms) = map (\<lambda>(obj, name, args). Method obj name args) ms"
proof -
  have "invokes ms = (concat (map (\<lambda>(obj, name, args). [Method obj name args]) ms), Inr ())"
    unfolding invokes_def by (rule forA_ok) (auto simp: invoke_def call_def)
  moreover have "concat (map (\<lambda>(obj, name, args). [Method obj name args]) ms) =
      map (\<lambda>(obj, name, args). Method obj name args) ms"
    by (induction ms) auto
  ultimately show ?thesis by simp
qed

lemma invoke_evals [simp]: "fst (invoke obj name args) = [Method obj name args]"
  "snd (invoke obj name args) = Inr ()" "fst (mapA f m) = map f (fst m)" "snd (mapA f m) = snd m"
  by (simp_all add: invoke_def mapA_def)

lemma libcall_evals [simp]: "fst (libcall I obj name args) = [Method obj name args]"
  "snd (libcall I obj name args) = Inr () \<longleftrightarrow> lib_error I (Method obj name args) = None"
  by (auto simp: libcall_def Let_def split: option.split)

lemma snd_seqA_ok: "snd m = Inr x \<Longrightarrow> snd (f x) = r \<Longrightarrow> snd (seqA m f) = r"
  by (simp add: seqA_def)

lemma sample_gets [simp]:
  "getString sample_cfg ''transport'' = Inr ''sip:127.0.0.1:6064;transport=tcp''"
  "getList sample_cfg ''conference-factory-uris'' = Inr [''sip:factory@local'']"
  "getList sample_cfg ''conference-focus-uris'' = Inr [''sip:focus@local'']"
  "getString sample_cfg ''outbound-proxy'' = Inr ''sip:127.0.0.1:5060;transport=tcp''"
  "getList sample_cfg ''local-domains'' = Inr [''local'', ''example.com'']"
  "getRange sample_cfg ''audio-port'' = Inr (0, 0)" "getRange sample_cfg ''video-port'' = Inr (0, 0)"
  "getString sample_cfg ''database-backend'' = Inr ''mysql''"
  "getString sample_cfg ''database-connection-string'' = Inr ''db=x''"
  "getBool sample_cfg ''check-capabilities'' = Inr True"
  "getList sample_cfg ''supported-media-types'' = Inr [''text'']"
  "getList sample_cfg ''supported-audio-codecs'' = Inr [''opus'']"
  "getString sample_cfg ''supported-video-codec'' = Inr ''vp8''"
  "getString sample_cfg ''audio-engine-mode'' = Inr ''mixer''"
  "getString sample_cfg ''video-engine-mode'' = Inr ''semi-sfu''"
  "getString sample_cfg ''encryption'' = Inr ''none''" "getList sample_cfg ''nat-addresses'' = Inr []"
  "getBool sample_cfg ''empty-chat-room-deletion'' = Inr True"
  "getString sample_cfg ''state-directory'' = Inr ''/var''"
  "getDuration sample_cfg ''subscription-refresh-delay'' = Inr 600000"
  "getDuration sample_cfg ''call-timeout'' = Inr 0" "getDuration sample_cfg ''no-rtp-timeout'' = Inr 30000"
  "getBool sample_cfg ''cleanup-expired-conferences'' = Inr True"
  "getDuration sample_cfg ''conferences-availability-before-start'' = Inr 1000"
  "getDuration sample_cfg ''conferences-expiry-time'' = Inr 1000"
  "getInt sample_cfg ''max-participants-per-chatroom'' = Inr 50"
  "getBool sample_cfg ''chatroom-address-unification'' = Inr False"
  "getBool sample_cfg ''database-migration-on-startup'' = Inr True"
  "getString sample_cfg ''handled-chatroom-category'' = Inr ''all''"
  by (simp_all add: get_defs sample_cfg_def)

lemma sample_init_sels [simp]:
  "lib_error sample_init c = None" "uri_getHost sample_init u = u" "string2MediaEncryption sample_init x = None"
  "getAudioPayloadTypes sample_init = [''opus'']" "getVideoPayloadTypes sample_init = [''vp8'']"
  "core_start sample_init = 0" "isWritable sample_init = False" "core_uuid sample_init = ''u''"
  by (simp_all add: sample_init_def server_lib.extend_def sample_slib_def)

lemma whenA_invoke [simp]: "snd (whenA b (invoke obj name args)) = Inr ()"
  by (cases b) simp_all

lemma libcall_sample [simp]: "snd (libcall sample_init obj name args) = Inr ()"
  by simp

lemma sample_phases:
  "snd (init_transport init_env sample_init sample_cfg srv) =
     Inr (srv\<lparr>mTransport := ''sip:127.0.0.1:6064;transport=tcp''\<rparr>)"
  "snd (init_media sample_cfg srv) = Inr (srv\<lparr>mCheckCapabilities_srv := True, mStateDir := ''/var'',
     mMediaConfig := (mMediaConfig srv)\<lparr>textEnabled := True\<rparr>\<rparr>)"
  "snd (init_core_config sample_init sample_os Map.empty sample_cfg srv) = Inr (srv\<lparr>mUuid := ''''\<rparr>)"
  "snd (init_core sample_init sample_cfg srv) = Inr ()"
  "snd (init_codecs sample_lib sample_init sample_cfg) = Inr ()"
  "snd (init_network init_env sample_init sample_os ts sample_cfg srv) =
     Inr (srv\<lparr>mConfServerUris := mConfServerUris srv @ [(''sip:factory@local'', ''sip:focus@local'')]\<rparr>,
          sample_address ''sip:127.0.0.1:5060;transport=tcp'' ''local'')"
  "snd (init_domains sample_cfg srv) =
     Inr (srv\<lparr>mLocalDomains := remdups_adj (sort (mLocalDomains srv @ [''local'', ''example.com'']))\<rparr>)"
  "snd (init_settings sample_cfg) = Inr 600"
  by (simp_all add: init_defs snd_seqA readUuid_def Let_def enableSelectedCodecs_def sample_lib_def
      ascii_lower_def ascii_cases_def ensureDirectoryCreated_def sample_os_def loadFactoryUris_def
      init_env_def sample_env_def seconds_of_def getChatRoomsHandlingSet_def)

lemma sample_accounts_ok:
  "snd (init_accounts init_env proxy [(f, ''sip:focus@local'')] False [] srv) =
     Inr (srv\<lparr>mLocalDomains := mLocalDomains srv @ [''local'']\<rparr>,
          [\<lparr>identityAddress = Some (sample_address ''sip:focus@local'' ''local''),
            serverAddress = Some proxy, registerEnabled = False, outboundProxyEnabled = True,
            conferenceFactoryAddress = Some (sample_address f ''local'')\<rparr>])"
  by (simp add: Let_def snd_seqA init_env_def sample_address_def)

lemma sample_start_ok:
  "mUuid srv = '''' \<Longrightarrow> snd (init_start init_env sample_init sample_os accs srv) = Inr (srv\<lparr>mUuid := ''u''\<rparr>)"
  by (simp add: init_start_unfold snd_seqA writeUuid_def ensureDirectoryCreated_def sample_os_def Let_def)

lemma sample_start:
  "snd (init_server init_env sample_lib sample_init sample_os Map.empty ts sample_cfg
          (ConferenceServer_init ''p'')) = Inr (started_server, world_init 600)"
  by (simp add: init_server_unfold snd_seqA sample_phases sample_accounts_ok sample_start_ok
      ConferenceServer_init_def started_server_def less_char_def del: init_accounts.simps)

end
