(* ===== verification/Protocol.thy ===== *)
theory Protocol
  imports World
begin

text \<open>
  The order in which the program uses the objects of the linked code. A SUBSCRIBE event goes through
  one sequence of calls: it is created, given its header and its client, sent, and later cleared and
  terminated. An own subscription fetches its record, listens to it, and later stops listening.
\<close>

section \<open>The calls about one object\<close>

definition call_event :: "ext_call \<Rightarrow> event_id option" where
  "call_event x = (case x of CreateSubscribe e _ _ _ \<Rightarrow> Some e | AddCustomHeader e _ _ \<Rightarrow> Some e
     | SetData e _ \<Rightarrow> Some e | UnsetData e \<Rightarrow> Some e | SendSubscribe e \<Rightarrow> Some e
     | TerminateEvent e \<Rightarrow> Some e | _ \<Rightarrow> None)"

definition event_calls :: "event_id \<Rightarrow> ext_call list \<Rightarrow> ext_call list" where
  "event_calls e cs = filter (\<lambda>x. call_event x = Some e) cs"

definition call_listener :: "ext_call \<Rightarrow> sub_id option" where
  "call_listener x = (case x of DbFetch _ s \<Rightarrow> Some s | DbSubscribe _ _ s \<Rightarrow> Some s
     | DbUnsubscribe _ _ s \<Rightarrow> Some s | _ \<Rightarrow> None)"

definition db_calls :: "sub_id \<Rightarrow> ext_call list \<Rightarrow> ext_call list" where
  "db_calls s cs = filter (\<lambda>x. call_listener x = Some s) cs"

lemma object_calls_simps [simp]:
  "event_calls e [] = []" "db_calls s [] = []"
  "event_calls e (cs @ ds) = event_calls e cs @ event_calls e ds"
  "db_calls s (cs @ ds) = db_calls s cs @ db_calls s ds"
  "event_calls e (x # cs) = (if call_event x = Some e then [x] else []) @ event_calls e cs"
  "db_calls s (x # cs) = (if call_listener x = Some s then [x] else []) @ db_calls s cs"
  by (simp_all add: event_calls_def db_calls_def)

lemma room_calls_objects:
  assumes "\<forall>x \<in> set cs. is_room_call x"
  shows "event_calls e cs = []" and "db_calls s cs = []"
  using assms
  by (induction cs) (auto simp: is_room_call_def call_event_def call_listener_def
      split: ext_call.splits)

lemma factory_objects [frame_simps]:
  "event_calls e (snd (registerClient f)) = []" "db_calls s (snd (registerClient f)) = []"
  "event_calls e (snd (unregisterClient f)) = []" "db_calls s (snd (unregisterClient f)) = []"
  by (simp_all add: factory_defs Let_def call_event_def call_listener_def)

lemma own_objects [frame_simps]:
  "event_calls e (snd (Own_start E s o1)) = []" "event_calls e (snd (Own_stop E s o1)) = []"
  by (simp_all add: Own_start_def Own_stop_def call_event_def)

lemma client_objects [frame_simps]: "db_calls s (snd (Client_unsubscribe k)) = []"
  by (simp add: Client_unsubscribe_def call_listener_def split: option.split)

section \<open>The events\<close>

definition open_calls :: "event_id \<Rightarrow> Address \<Rightarrow> int \<Rightarrow> client_id \<Rightarrow> ext_call list" where
  "open_calls e a d c = [CreateSubscribe e a ''reg'' d,
     AddCustomHeader e ''Accept'' ''application/reginfo+xml'', SetData e c, SendSubscribe e]"

definition close_calls :: "event_id \<Rightarrow> ext_call list" where
  "close_calls e = [UnsetData e, TerminateEvent e]"

definition events_ordered :: "event_id \<Rightarrow> ext_call list \<Rightarrow> bool" where
  "events_ordered ne cs \<longleftrightarrow>
     (\<forall>e. if e < ne
          then \<exists>a d c. event_calls e cs = open_calls e a d c \<or> event_calls e cs = open_calls e a d c @ close_calls e
          else event_calls e cs = [])"

lemma event_calls_open: "event_calls e' (open_calls e a d c) = (if e' = e then open_calls e a d c else [])"
  by (simp add: open_calls_def call_event_def)

lemma event_calls_close: "event_calls e' (close_calls e) = (if e' = e then close_calls e else [])"
  by (simp add: close_calls_def call_event_def)

text \<open>What is stored in an event depends on the calls about it only.\<close>

lemma fold_upd_data_cong: "m' e = m'' e \<Longrightarrow> fold upd_data cs m' e = fold upd_data cs m'' e"
proof (induction cs arbitrary: m' m'')
  case (Cons x cs)
  have "upd_data x m' e = upd_data x m'' e"
    using Cons.prems by (cases x) (simp_all add: upd_data_def)
  then show ?case unfolding fold_simps by (rule Cons.IH)
qed simp

lemma fold_upd_data_filter:
  "fold upd_data cs m e = fold upd_data (event_calls e cs) m e"
proof (induction cs arbitrary: m)
  case (Cons x cs)
  show ?case
  proof (cases "call_event x = Some e")
    case True
    then show ?thesis using Cons.IH [of "upd_data x m"] by simp
  next
    case False
    then have "upd_data x m e = m e"
      by (cases x) (auto simp: upd_data_def call_event_def)
    then have "fold upd_data cs (upd_data x m) e = fold upd_data cs m e"
      by (rule fold_upd_data_cong)
    with False show ?thesis using Cons.IH [of m] by simp
  qed
qed simp

lemma event_data_objects: "event_data cs e = event_data (event_calls e cs) e"
  unfolding event_data_def by (rule fold_upd_data_filter)

lemma event_data_open: "event_data (open_calls e a d c) e = Some c"
  by (simp add: open_calls_def event_data_def upd_data_def)

lemma event_data_closed: "event_data (open_calls e a d c @ close_calls e) e = None"
  by (simp add: open_calls_def close_calls_def event_data_def upd_data_def)

lemma events_ordered_frame:
  "(\<And>e. event_calls e ds = []) \<Longrightarrow> events_ordered ne (cs @ ds) = events_ordered ne cs"
  by (simp add: events_ordered_def)

lemma events_ordered_open:
  assumes "events_ordered ne cs"
  shows "events_ordered (ne + 1) (cs @ open_calls ne a d c)"
  unfolding events_ordered_def
proof (intro allI)
  fix e
  have here: "if e < ne then \<exists>a d c. event_calls e cs = open_calls e a d c
      \<or> event_calls e cs = open_calls e a d c @ close_calls e else event_calls e cs = []"
    using assms unfolding events_ordered_def by blast
  consider "e < ne" | "e = ne" | "ne + 1 \<le> e" by linarith
  then show "if e < ne + 1
      then \<exists>a' d' c'. event_calls e (cs @ open_calls ne a d c) = open_calls e a' d' c'
         \<or> event_calls e (cs @ open_calls ne a d c) = open_calls e a' d' c' @ close_calls e
      else event_calls e (cs @ open_calls ne a d c) = []"
    using here by cases (auto simp: event_calls_open)
qed

text \<open>Only an event that still names a client is closed.\<close>

lemma events_ordered_close:
  assumes "events_ordered ne cs" and "event_data cs e = Some c"
  shows "events_ordered ne (cs @ close_calls e)"
proof -
  have here: "(if e < ne then \<exists>a d c. event_calls e cs = open_calls e a d c
      \<or> event_calls e cs = open_calls e a d c @ close_calls e else event_calls e cs = [])"
    using assms(1) unfolding events_ordered_def by blast
  have "event_calls e cs \<noteq> []" and "event_calls e cs \<noteq> open_calls e a d c' @ close_calls e" for a d c'
    using assms(2) event_data_objects [of cs e] event_data_closed [of e a d c'] by auto
  with here have "e < ne \<and> (\<exists>a d c. event_calls e cs = open_calls e a d c)"
    by (auto split: if_splits)
  then show ?thesis
    using assms(1) unfolding events_ordered_def by (auto simp: event_calls_close)
qed

section \<open>The own subscriptions\<close>

definition own_calls :: "bool \<Rightarrow> sub_id \<Rightarrow> OwnRegistrationSubscription \<Rightarrow> ext_call list" where
  "own_calls g s o1 =
     (if mParticipantAor o1 = '''' then []
      else [DbFetch (mParticipantAor o1) s, DbSubscribe (mParticipantAor o1) g s]
           @ (if mActive o1 then [] else [DbUnsubscribe (mParticipantAor o1) g s]))"

definition db_ordered :: "bool \<Rightarrow> (sub_id \<rightharpoonup> subscription) \<Rightarrow> ext_call list \<Rightarrow> bool" where
  "db_ordered g h cs \<longleftrightarrow>
     (\<forall>s. db_calls s cs = (case h s of Some (Own o1) \<Rightarrow> own_calls g s o1 | _ \<Rightarrow> []))"

lemma db_ordered_frame:
  "(\<And>s. db_calls s ds = []) \<Longrightarrow> db_ordered g h (cs @ ds) = db_ordered g h cs"
  by (simp add: db_ordered_def)

lemma db_ordered_cong:
  assumes own: "\<And>s o1. h' s = Some (Own o1) \<longleftrightarrow> h s = Some (Own o1)"
  shows "db_ordered g h' cs = db_ordered g h cs"
proof -
  have "(case h' s of Some (Own o1) \<Rightarrow> own_calls g s o1 | _ \<Rightarrow> []) =
      (case h s of Some (Own o1) \<Rightarrow> own_calls g s o1 | _ \<Rightarrow> [])" for s
  proof (cases "\<exists>o1. h s = Some (Own o1)")
    case True
    then obtain o1 where "h s = Some (Own o1)" "h' s = Some (Own o1)" using own by blast
    then show ?thesis by simp
  next
    case False
    then have "\<And>o1. h s \<noteq> Some (Own o1)" "\<And>o1. h' s \<noteq> Some (Own o1)" using own by blast+
    then show ?thesis by (simp split: option.split subscription.split)
  qed
  then show ?thesis by (simp add: db_ordered_def)
qed

lemma db_ordered_start:
  assumes "db_ordered g h cs" and "h n = None" and "\<not> mActive o1" and "useGlobalDomain E = g"
  shows "db_ordered g (h(n \<mapsto> Own (fst (Own_start E n o1)))) (cs @ snd (Own_start E n o1))"
proof -
  have "db_calls n cs = []" using assms(1,2) by (simp add: db_ordered_def)
  with assms show ?thesis
    unfolding db_ordered_def by (auto simp: Own_start_def call_listener_def own_calls_def)
qed

lemma db_ordered_stop:
  assumes "db_ordered g h cs" and "h s = Some (Own o1)" and "useGlobalDomain E = g"
    and "mActive o1 \<Longrightarrow> mParticipantAor o1 \<noteq> ''''"
  shows "db_ordered g (h(s \<mapsto> Own (fst (Own_stop E s o1)))) (cs @ snd (Own_stop E s o1))"
proof (cases "mActive o1")
  case False
  then have "Own_stop E s o1 = (o1, [])" by (simp add: Own_stop_def)
  with assms False show ?thesis by (simp add: fun_upd_idem)
next
  case True
  then have "db_calls s cs = [DbFetch (mParticipantAor o1) s, DbSubscribe (mParticipantAor o1) g s]"
    using assms(1,2,4) by (simp add: db_ordered_def own_calls_def)
  with assms True show ?thesis
    unfolding db_ordered_def by (auto simp: Own_stop_def call_listener_def own_calls_def)
qed

end
