(* ===== verification/WorldInv.thy ===== *)
theory WorldInv
  imports Protocol
begin

text \<open>
  The invariant of the subscription system, in six parts over the fields each one relates, and
  its preservation by the elementary operations. \<open>T\<close> is the set of subscriptions that have been
  stopped but are still in the store (empty between two steps of the system); \<open>g\<close> is the
  registrar database's \<open>useGlobalDomain\<close>.
\<close>

section \<open>The parts of the invariant\<close>

definition stored :: "(string, sub_id) multimap \<Rightarrow> sub_id set" where
  "stored m = snd ` set m"

definition holders :: "(sub_id \<rightharpoonup> subscription) \<Rightarrow> client_id \<Rightarrow> sub_id set" where
  "holders h c = {s. \<exists>x. h s = Some (External x) \<and> mClient x = Some c}"

definition room_of :: "(sub_id \<rightharpoonup> subscription) \<Rightarrow> sub_id \<Rightarrow> chatroom option" where
  "room_of h s = map_option sub_room (h s)"

text \<open>The store: sorted, each object once, under its key; one per key and chat room.\<close>

definition inv_store :: "(sub_id \<rightharpoonup> subscription) \<Rightarrow> sub_id \<Rightarrow> (string, sub_id) multimap \<Rightarrow> bool" where
  "inv_store h n m \<longleftrightarrow>
     mm_sorted m \<and> distinct (map snd m) \<and> (\<forall>s \<in> dom h. s < n)
   \<and> (\<forall>(k, s) \<in> set m. \<exists>sub. h s = Some sub \<and> k = getSubscriptionKey (sub_participant sub))
   \<and> (\<forall>(k, s) \<in> set m. \<forall>(k', s') \<in> set m. k = k' \<and> room_of h s = room_of h s' \<longrightarrow> s = s')"

text \<open>Reference counts: owners of a client are the external subscriptions that point to it.\<close>

definition inv_refs :: "(sub_id \<rightharpoonup> subscription) \<Rightarrow> (string, sub_id) multimap
    \<Rightarrow> (client_id \<rightharpoonup> Client) \<Rightarrow> (client_id \<Rightarrow> nat) \<Rightarrow> bool" where
  "inv_refs h m cl uc \<longleftrightarrow>
     (\<forall>s x. h s = Some (External x) \<longrightarrow> s \<in> stored m \<and> (\<exists>c. mClient x = Some c \<and> c \<in> dom cl))
   \<and> (\<forall>c. uc c = card (holders h c)) \<and> (\<forall>c. c \<in> dom cl \<longleftrightarrow> 0 < uc c)"

definition inv_obs :: "sub_id set \<Rightarrow> (sub_id \<rightharpoonup> subscription) \<Rightarrow> ext_call list \<Rightarrow> bool" where
  "inv_obs T h cs \<longleftrightarrow> observers cs = {(c, s). s \<in> holders h c \<and> s \<notin> T}"

text \<open>
  Events: the slot of an event names a live client whose current dialog it is; the calls about an
  event are in order.
\<close>

definition inv_events :: "(client_id \<rightharpoonup> Client) \<Rightarrow> event_id \<Rightarrow> ext_call list \<Rightarrow> bool" where
  "inv_events cl ne cs \<longleftrightarrow>
     (\<forall>e c. event_data cs e = Some c \<longleftrightarrow> (\<exists>k. cl c = Some k \<and> mSubscribeEvent k = Some e))
   \<and> (\<forall>e a. open_dialogs cs e = Some a
          \<longleftrightarrow> (\<exists>c k. cl c = Some k \<and> mSubscribeEvent k = Some e \<and> mTo k = a))
   \<and> (\<forall>c k e. cl c = Some k \<longrightarrow> mSubscribeEvent k = Some e \<longrightarrow> e < ne)
   \<and> events_ordered ne cs"

text \<open>The map of weak pointers finds every live client under the URI it was made for.\<close>

definition inv_clients :: "(sub_id \<rightharpoonup> subscription) \<Rightarrow> (client_id \<rightharpoonup> Client) \<Rightarrow> client_id
    \<Rightarrow> (string \<rightharpoonup> client_id) \<Rightarrow> bool" where
  "inv_clients h cl nc M \<longleftrightarrow>
     (\<forall>c k. cl c = Some k \<longrightarrow> c < nc \<and> M (asStringUriOnlyOrdered (mTo k)) = Some c)
   \<and> (\<forall>u c. M u = Some c \<longrightarrow> c < nc \<and> (\<forall>k. cl c = Some k \<longrightarrow> asStringUriOnlyOrdered (mTo k) = u))
   \<and> (\<forall>s x c k. h s = Some (External x) \<longrightarrow> mClient x = Some c \<longrightarrow> cl c = Some k \<longrightarrow>
        asStringUriOnlyOrdered (mTo k) = asStringUriOnlyOrdered (mParticipant x))"

definition inv_factory :: "(client_id \<rightharpoonup> Client) \<Rightarrow> ClientFactory \<Rightarrow> ext_call list \<Rightarrow> bool" where
  "inv_factory cl f cs \<longleftrightarrow>
     finite (dom cl) \<and> mUseCount f = int (card (dom cl)) \<and> fac.consistent f cs"

definition inv_own :: "sub_id set \<Rightarrow> bool \<Rightarrow> (sub_id \<rightharpoonup> subscription) \<Rightarrow> (string, sub_id) multimap
    \<Rightarrow> ext_call list \<Rightarrow> bool" where
  "inv_own T g h m cs \<longleftrightarrow>
     (\<forall>s o1. h s = Some (Own o1) \<longrightarrow>
        (mActive o1 \<longleftrightarrow> s \<in> stored m \<and> s \<notin> T \<and> mParticipantAor o1 \<noteq> ''''))
   \<and> db_subscriptions cs =
       {(u, g', s). g' = g \<and> (\<exists>o1. h s = Some (Own o1) \<and> mActive o1 \<and> mParticipantAor o1 = u)}
   \<and> db_ordered g h cs"

definition world_inv :: "sub_id set \<Rightarrow> bool \<Rightarrow> world \<Rightarrow> bool" where
  "world_inv T g w \<longleftrightarrow>
     inv_store (subs w) (next_sub w) (mSubscriptions w)
   \<and> inv_refs (subs w) (mSubscriptions w) (clients w) (use_count w)
   \<and> inv_obs T (subs w) (calls w)
   \<and> inv_events (clients w) (next_event w) (calls w)
   \<and> inv_clients (subs w) (clients w) (next_client w) (mClients w)
   \<and> inv_factory (clients w) (mRegEventClientFactory w) (calls w)
   \<and> inv_own T g (subs w) (mSubscriptions w) (calls w)"

lemma invI [intro?]:
  assumes "inv_store (subs w) (next_sub w) (mSubscriptions w)"
    and "inv_refs (subs w) (mSubscriptions w) (clients w) (use_count w)"
    and "inv_obs T (subs w) (calls w)"
    and "inv_events (clients w) (next_event w) (calls w)"
    and "inv_clients (subs w) (clients w) (next_client w) (mClients w)"
    and "inv_factory (clients w) (mRegEventClientFactory w) (calls w)"
    and "inv_own T g (subs w) (mSubscriptions w) (calls w)"
  shows "world_inv T g w"
  using assms by (simp add: world_inv_def)

lemma invD:
  assumes "world_inv T g w"
  shows "inv_store (subs w) (next_sub w) (mSubscriptions w)"
    and "inv_refs (subs w) (mSubscriptions w) (clients w) (use_count w)"
    and "inv_obs T (subs w) (calls w)"
    and "inv_events (clients w) (next_event w) (calls w)"
    and "inv_clients (subs w) (clients w) (next_client w) (mClients w)"
    and "inv_factory (clients w) (mRegEventClientFactory w) (calls w)"
    and "inv_own T g (subs w) (mSubscriptions w) (calls w)"
  using assms by (simp_all add: world_inv_def)

section \<open>Elementary facts\<close>

lemma holders_upd_own:
  "(\<And>x. h s \<noteq> Some (External x)) \<Longrightarrow> holders (h(s \<mapsto> Own o1)) c = holders h c"
  by (auto simp: holders_def)

lemma holders_upd_external:
  "h s = None \<Longrightarrow> holders (h(s \<mapsto> External x)) c =
     (if mClient x = Some c then insert s (holders h c) else holders h c)"
  by (auto simp: holders_def)

lemma holders_delete: "holders (h(s := None)) c = holders h c - {s}"
  by (auto simp: holders_def)

lemma holders_empty [simp]: "holders Map.empty c = {}"
  by (simp add: holders_def)

lemma finite_holders: "inv_store h n m \<Longrightarrow> finite (holders h c)"
  by (rule finite_subset [of _ "{..<n}"]) (auto simp: holders_def inv_store_def)

lemma stored_iff: "s \<in> stored m \<longleftrightarrow> (\<exists>k. (k, s) \<in> set m)"
  by (force simp: stored_def)

lemma stored_insert: "stored (mm_insert k s m) = insert s (stored m)"
  by (simp add: stored_def set_mm_insert)

lemma stored_erase:
  assumes "distinct (map snd m)" and "(k, s) \<in> set m"
  shows "stored (mm_erase (k, s) m) = stored m - {s}"
proof -
  have "set (mm_erase (k, s) m) = set m - {(k, s)}"
    using assms(1) by (simp add: set_mm_erase distinct_map)
  moreover have "k' = k" if "(k', s) \<in> set m" for k'
    using assms that inj_onD [of snd "set m" "(k', s)" "(k, s)"] by (simp add: distinct_map)
  ultimately have "(\<exists>k'. (k', s') \<in> set (mm_erase (k, s) m)) \<longleftrightarrow> (\<exists>k'. (k', s') \<in> set m) \<and> s' \<noteq> s" for s'
    by auto
  then show ?thesis by (simp add: set_eq_iff stored_iff)
qed

lemma init_inv: "world_inv {} g (world_init delay)"
  by (simp add: world_inv_def world_init_def inv_store_def mm_sorted_def inv_refs_def inv_obs_def
      inv_events_def inv_clients_def inv_factory_def inv_own_def ClientFactory_init_def
      fac.consistent_def events_ordered_def db_ordered_def)

lemma emit_simps [simp]:
  "subs (emit cs w) = subs w" "clients (emit cs w) = clients w"
  "mSubscriptions (emit cs w) = mSubscriptions w" "calls (emit cs w) = calls w @ cs"
  "use_count (emit cs w) = use_count w" "next_sub (emit cs w) = next_sub w"
  "next_client (emit cs w) = next_client w" "next_event (emit cs w) = next_event w"
  "mClients (emit cs w) = mClients w"
  "mRegEventClientFactory (emit cs w) = mRegEventClientFactory w"
  by (simp_all add: emit_def)

text \<open>Each part looks at the calls only through what they amount to.\<close>

lemma inv_calls_cong:
  "observers cs' = observers cs \<Longrightarrow> inv_obs T h cs' = inv_obs T h cs"
  "event_data cs' = event_data cs \<Longrightarrow> open_dialogs cs' = open_dialogs cs \<Longrightarrow>
     (\<And>e. event_calls e cs' = event_calls e cs) \<Longrightarrow>
     inv_events cl ne cs' = inv_events cl ne cs"
  "core_listening cs' = core_listening cs \<Longrightarrow> inv_factory cl f cs' = inv_factory cl f cs"
  "db_subscriptions cs' = db_subscriptions cs \<Longrightarrow> (\<And>s. db_calls s cs' = db_calls s cs) \<Longrightarrow>
     inv_own T g h m cs' = inv_own T g h m cs"
  by (simp_all add: inv_obs_def inv_events_def inv_factory_def inv_own_def fac.consistent_def
      events_ordered_def db_ordered_def)

lemma inv_room_calls:
  assumes "\<forall>x \<in> set ds. is_room_call x"
  shows "inv_obs T h (cs @ ds) = inv_obs T h cs"
    and "inv_events cl ne (cs @ ds) = inv_events cl ne cs"
    and "inv_factory cl f (cs @ ds) = inv_factory cl f cs"
    and "inv_own T g h m (cs @ ds) = inv_own T g h m cs"
  using assms
  by (simp_all add: inv_obs_def inv_events_def inv_factory_def inv_own_def fac.consistent_def
      trace_append fold_room_calls room_calls_objects events_ordered_frame db_ordered_frame)

lemma inv_emit_room_calls:
  "world_inv T g w \<Longrightarrow> \<forall>x \<in> set cs. is_room_call x \<Longrightarrow> world_inv T g (emit cs w)"
  by (simp add: world_inv_def inv_room_calls)

end
