(* ===== verification/WorldStart.thy ===== *)
theory WorldStart
  imports WorldSteps
begin

text \<open>
  Starting a subscription keeps the invariant: an own one, and an external one on a client that
  is new or shared.
\<close>

lemma inv_store_insert:
  assumes I: "inv_store h n m" and k: "k = getSubscriptionKey (sub_participant sub)"
    and fresh: "\<And>s. (k, s) \<in> set m \<Longrightarrow> room_of h s \<noteq> Some (sub_room sub)"
  shows "inv_store (h(n \<mapsto> sub)) (n + 1) (mm_insert k n m)"
proof -
  have n: "h n = None" using I by (auto simp: inv_store_def)
  have old: "s \<noteq> n" if "(k', s) \<in> set m" for k' s
    using I that n by (fastforce simp: inv_store_def)
  have same: "room_of (h(n \<mapsto> sub)) s = (if s = n then Some (sub_room sub) else room_of h s)" for s
    by (simp add: room_of_def)
  have "\<forall>(k', s) \<in> set (mm_insert k n m). \<exists>sub'. (h(n \<mapsto> sub)) s = Some sub'
          \<and> k' = getSubscriptionKey (sub_participant sub')"
    using I k old by (fastforce simp: set_mm_insert inv_store_def)
  moreover have "s = s'"
    if "(k', s) \<in> set (mm_insert k n m)" "(k', s') \<in> set (mm_insert k n m)"
      "room_of (h(n \<mapsto> sub)) s = room_of (h(n \<mapsto> sub)) s'" for k' s s'
  proof (cases "s = n \<or> s' = n")
    case True
    then show ?thesis
      using that fresh [of s] fresh [of s'] old by (auto simp: set_mm_insert same split: if_splits)
  next
    case False
    with that have "(k', s) \<in> set m" "(k', s') \<in> set m" "room_of h s = room_of h s'"
      by (auto simp: set_mm_insert same)
    with I show ?thesis by (fastforce simp: inv_store_def)
  qed
  moreover have "n \<notin> snd ` set m"
    using old by force
  then have "mm_sorted (mm_insert k n m)" "distinct (map snd (mm_insert k n m))"
    using I by (simp_all add: inv_store_def mm_sorted_insert distinct_snd_mm_insert)
  moreover have "\<forall>s \<in> dom (h(n \<mapsto> sub)). s < n + 1"
    using I by (auto simp: inv_store_def less_Suc_eq)
  ultimately show ?thesis unfolding inv_store_def by blast
qed

section \<open>An own subscription\<close>

lemma Own_start_simps [simp]:
  "mChatRoom (fst (Own_start E s o1)) = mChatRoom o1"
  "mParticipant (fst (Own_start E s o1)) = mParticipant o1"
  "mParticipantAor (fst (Own_start E s o1)) = mParticipantAor o1"
  by (simp_all add: Own_start_def)

lemma Own_start_active:
  "\<not> mActive o1 \<Longrightarrow> mActive (fst (Own_start E s o1)) \<longleftrightarrow> mParticipantAor o1 \<noteq> ''''"
  by (simp add: Own_start_def)

lemma inv_calls_Own_start:
  "inv_obs T h (cs @ snd (Own_start E s o1)) = inv_obs T h cs"
  "inv_events cl ne (cs @ snd (Own_start E s o1)) = inv_events cl ne cs"
  "inv_factory cl f (cs @ snd (Own_start E s o1)) = inv_factory cl f cs"
  by (simp_all add: inv_events_def events_ordered_frame frame_simps)
    (simp_all add: Own_start_def inv_obs_def inv_factory_def fac.consistent_def trace_append upd_defs)

lemma inv_own_start:
  assumes I: "inv_own {} g h m cs" and n: "h n = None" and st: "stored m' = insert n (stored m)"
    and o1: "\<not> mActive o1" and g: "useGlobalDomain E = g"
  shows "inv_own {} g (h(n \<mapsto> Own (fst (Own_start E n o1)))) m' (cs @ snd (Own_start E n o1))"
proof -
  let ?o = "fst (Own_start E n o1)"
  have "db_subscriptions (cs @ snd (Own_start E n o1)) =
      db_subscriptions cs \<union> (if mActive ?o then {(mParticipantAor o1, g, n)} else {})"
    using o1 g by (simp add: Own_start_def trace_append upd_defs)
  also have "\<dots> = {(u, g', s). g' = g \<and> (\<exists>o2. (h(n \<mapsto> Own ?o)) s = Some (Own o2)
                      \<and> mActive o2 \<and> mParticipantAor o2 = u)}"
    using I n by (auto simp: inv_own_def)
  finally have "db_subscriptions (cs @ snd (Own_start E n o1)) =
      {(u, g', s). g' = g \<and> (\<exists>o2. (h(n \<mapsto> Own ?o)) s = Some (Own o2) \<and> mActive o2 \<and> mParticipantAor o2 = u)}" .
  moreover have "db_ordered g (h(n \<mapsto> Own ?o)) (cs @ snd (Own_start E n o1))"
    using I n o1 g by (intro db_ordered_start) (simp_all add: inv_own_def)
  ultimately show ?thesis
    using I n st o1 unfolding inv_own_def by (auto simp: Own_start_active)
qed

lemma inv_new_own:
  assumes "h n = None"
  shows "inv_refs h m cl uc \<Longrightarrow> stored m \<subseteq> stored m' \<Longrightarrow> inv_refs (h(n \<mapsto> Own o1)) m' cl uc"
    and "inv_clients h cl nc M \<Longrightarrow> inv_clients (h(n \<mapsto> Own o1)) cl nc M"
    and "inv_obs T h cs \<Longrightarrow> inv_obs T (h(n \<mapsto> Own o1)) cs"
proof -
  have ext: "(h(n \<mapsto> Own o1)) s = Some (External x) \<longleftrightarrow> h s = Some (External x)" for s x
    using assms by auto
  show "inv_refs h m cl uc \<Longrightarrow> stored m \<subseteq> stored m' \<Longrightarrow> inv_refs (h(n \<mapsto> Own o1)) m' cl uc"
    unfolding inv_refs_def holders_def ext by blast
  show "inv_clients h cl nc M \<Longrightarrow> inv_clients (h(n \<mapsto> Own o1)) cl nc M"
    unfolding inv_clients_def ext .
  show "inv_obs T h cs \<Longrightarrow> inv_obs T (h(n \<mapsto> Own o1)) cs"
    unfolding inv_obs_def holders_def ext .
qed

text \<open>What the start of an own subscription for a room \<open>r\<close> and an address \<open>a\<close> makes.\<close>

lemma start_own_eq:
  "startSubscription E (OwnFactory_create E chk r a) a w =
     (let s = next_sub w; o1 = Own_init E chk r a
      in Inr (w\<lparr>subs := (subs w)(s \<mapsto> Own (fst (Own_start E s o1))), next_sub := s + 1,
                mSubscriptions := mm_insert (getSubscriptionKey a) s (mSubscriptions w),
                calls := calls w @ snd (Own_start E s o1)\<rparr>))"
  by (simp add: startSubscription_def OwnFactory_create_def new_sub_def addSubscription_def
      sub_start_def Let_def case_prod_beta)

lemma start_own_keeps:
  assumes I: "world_inv {} g w" and g: "useGlobalDomain E = g"
    and fresh: "\<And>s. (getSubscriptionKey a, s) \<in> set (mSubscriptions w) \<Longrightarrow>
                  room_of (subs w) s \<noteq> Some r"
    and w': "startSubscription E (OwnFactory_create E chk r a) a w = Inr w'"
  shows "world_inv {} g w'"
proof -
  note J = invD [OF I]
  let ?s = "next_sub w" and ?o = "Own_init E chk r a"
  let ?sub = "Own (fst (Own_start E ?s ?o))"
  have n: "subs w ?s = None" using J(1) by (auto simp: inv_store_def)
  have w'_eq: "w' = w\<lparr>subs := (subs w)(?s \<mapsto> ?sub), next_sub := ?s + 1,
                mSubscriptions := mm_insert (getSubscriptionKey a) ?s (mSubscriptions w),
                calls := calls w @ snd (Own_start E ?s ?o)\<rparr>"
    using w' by (simp add: start_own_eq Let_def)
  have "inv_store ((subs w)(?s \<mapsto> ?sub)) (?s + 1)
          (mm_insert (getSubscriptionKey a) ?s (mSubscriptions w))"
    using fresh by (intro inv_store_insert [OF J(1)]) simp_all
  moreover have "inv_own {} g ((subs w)(?s \<mapsto> ?sub))
      (mm_insert (getSubscriptionKey a) ?s (mSubscriptions w)) (calls w @ snd (Own_start E ?s ?o))"
    by (rule inv_own_start [OF J(7) n _ _ g]) (simp_all add: stored_insert)
  ultimately show ?thesis
    using J inv_new_own [of "subs w" "next_sub w", OF n] unfolding w'_eq world_inv_def
    by (simp add: inv_calls_Own_start stored_insert subset_insertI)
qed

section \<open>An external subscription\<close>

text \<open>
  Between \<^verbatim>\<open>acquireClient\<close> and the construction of the subscription, the client \<open>c\<close> has one
  owner more than subscriptions point to it.
\<close>

definition inv_refs_plus :: "client_id \<Rightarrow> (sub_id \<rightharpoonup> subscription) \<Rightarrow> (string, sub_id) multimap
    \<Rightarrow> (client_id \<rightharpoonup> Client) \<Rightarrow> (client_id \<Rightarrow> nat) \<Rightarrow> bool" where
  "inv_refs_plus c h m cl uc \<longleftrightarrow>
     (\<forall>s x. h s = Some (External x) \<longrightarrow> s \<in> stored m \<and> (\<exists>c. mClient x = Some c \<and> c \<in> dom cl))
   \<and> (\<forall>c'. uc c' = card (holders h c') + (if c' = c then 1 else 0))
   \<and> (\<forall>c'. c' \<in> dom cl \<longleftrightarrow> 0 < uc c')"

lemma acquire_shared:
  assumes I: "world_inv {} g w" and M: "mClients w (asStringUriOnlyOrdered a) = Some c"
    and cl: "clients w c = Some k"
  shows "acquireClient a w = (c, w\<lparr>use_count := (use_count w)(c := use_count w c + 1)\<rparr>)"
    and "inv_refs_plus c (subs w) (mSubscriptions w) (clients w)
           ((use_count w)(c := use_count w c + 1))"
    and "asStringUriOnlyOrdered (mTo k) = asStringUriOnlyOrdered a"
proof -
  note J = invD [OF I]
  have "0 < use_count w c" using J(2) cl unfolding inv_refs_def by blast
  then show "acquireClient a w = (c, w\<lparr>use_count := (use_count w)(c := use_count w c + 1)\<rparr>)"
    by (simp add: acquireClient_def M Let_def)
  have dom: "c' \<in> dom (clients w) \<longleftrightarrow> 0 < use_count w c'"
    and cnt: "use_count w c' = card (holders (subs w) c')" for c'
    using J(2) unfolding inv_refs_def by blast+
  have "c' \<in> dom (clients w) \<longleftrightarrow> 0 < ((use_count w)(c := use_count w c + 1)) c'" for c'
    using dom [of c'] cl by auto
  moreover have "((use_count w)(c := use_count w c + 1)) c' =
      card (holders (subs w) c') + (if c' = c then 1 else 0)" for c'
    using cnt [of c'] by auto
  ultimately show "inv_refs_plus c (subs w) (mSubscriptions w) (clients w)
           ((use_count w)(c := use_count w c + 1))"
    using J(2) unfolding inv_refs_plus_def inv_refs_def by blast
  show "asStringUriOnlyOrdered (mTo k) = asStringUriOnlyOrdered a"
    using J(5) M cl unfolding inv_clients_def by blast
qed

lemma acquire_new_eq:
  assumes I: "world_inv {} g w"
    and M: "\<And>c. mClients w (asStringUriOnlyOrdered a) = Some c \<Longrightarrow> clients w c = None"
  shows "acquireClient a w =
    (next_client w,
     w\<lparr>clients := (clients w)(next_client w \<mapsto> Client_init a),
       use_count := (use_count w)(next_client w := 1),
       next_client := next_client w + 1,
       mClients := (mClients w)(asStringUriOnlyOrdered a \<mapsto> next_client w),
       mRegEventClientFactory := fst (registerClient (mRegEventClientFactory w)),
       calls := calls w @ snd (registerClient (mRegEventClientFactory w))\<rparr>)"
proof (cases "mClients w (asStringUriOnlyOrdered a)")
  case None
  then show ?thesis
    by (simp add: acquireClient_def make_client_def Let_def case_prod_beta)
next
  case (Some c)
  with M have "\<not> 0 < use_count w c"
    using invD(2) [OF I] unfolding inv_refs_def by blast
  with Some show ?thesis
    by (simp add: acquireClient_def make_client_def Let_def case_prod_beta)
qed

lemma inv_events_new:
  assumes I: "inv_events cl ne cs" and c: "cl c0 = None" and k: "mSubscribeEvent k = None"
  shows "inv_events (cl(c0 \<mapsto> k)) ne cs"
proof -
  have live: "(cl(c0 \<mapsto> k)) c = Some k' \<and> mSubscribeEvent k' = Some e \<longleftrightarrow>
      cl c = Some k' \<and> mSubscribeEvent k' = Some e" for c k' e
    using c k by auto
  then have dialogs:
    "(cl(c0 \<mapsto> k)) c = Some k' \<and> mSubscribeEvent k' = Some e \<and> mTo k' = a \<longleftrightarrow>
      cl c = Some k' \<and> mSubscribeEvent k' = Some e \<and> mTo k' = a" for c k' e a
    by blast
  have bound: "(cl(c0 \<mapsto> k)) c = Some k' \<Longrightarrow> mSubscribeEvent k' = Some e \<Longrightarrow> e < ne" for c k' e
    using I live unfolding inv_events_def by blast
  show ?thesis
    using I bound unfolding inv_events_def live dialogs by blast
qed

lemma inv_clients_new:
  assumes I: "inv_clients h cl nc M" and J: "inv_refs h m cl uc"
    and dead: "\<And>c. M u = Some c \<Longrightarrow> cl c = None"
    and k: "asStringUriOnlyOrdered (mTo k) = u"
  shows "inv_clients h (cl(nc \<mapsto> k)) (nc + 1) (M(u \<mapsto> nc))"
proof -
  have n: "cl nc = None" using I unfolding inv_clients_def by (metis less_irrefl not_Some_eq)
  have "(M(u \<mapsto> nc)) (asStringUriOnlyOrdered (mTo k')) = Some c' \<and> c' < nc + 1"
    if "(cl(nc \<mapsto> k)) c' = Some k'" for c' k'
  proof (cases "c' = nc")
    case True
    with that k show ?thesis by simp
  next
    case False
    with that have "cl c' = Some k'" by simp
    with I have "c' < nc" and "M (asStringUriOnlyOrdered (mTo k')) = Some c'"
      unfolding inv_clients_def by blast+
    with dead \<open>cl c' = Some k'\<close> show ?thesis by auto
  qed
  moreover have "c' < nc + 1 \<and> (\<forall>k'. (cl(nc \<mapsto> k)) c' = Some k' \<longrightarrow> asStringUriOnlyOrdered (mTo k') = u')"
    if "(M(u \<mapsto> nc)) u' = Some c'" for u' c'
    using that I k unfolding inv_clients_def by (auto split: if_splits simp: less_Suc_eq)
  moreover have "asStringUriOnlyOrdered (mTo k') = asStringUriOnlyOrdered (mParticipant x)"
    if "h s = Some (External x)" "mClient x = Some c'" "(cl(nc \<mapsto> k)) c' = Some k'" for s x c' k'
  proof -
    have "c' \<noteq> nc" using J that(1,2) n unfolding inv_refs_def by fastforce
    with that I show ?thesis unfolding inv_clients_def by (metis fun_upd_other)
  qed
  ultimately show ?thesis unfolding inv_clients_def by blast
qed

lemma inv_factory_new:
  assumes I: "inv_factory cl f cs" and c: "cl c = None"
  shows "inv_factory (cl(c \<mapsto> k)) (fst (registerClient f)) (cs @ snd (registerClient f))"
proof -
  have "c \<notin> dom cl" using c by auto
  with I fac.consistent_acquire [of f cs] show ?thesis
    by (auto simp: inv_factory_def fac.acquire_count)
qed

lemma registerClient_calls:
  "inv_obs T h (cs @ snd (registerClient f)) = inv_obs T h cs"
  "inv_own T g h m (cs @ snd (registerClient f)) = inv_own T g h m cs"
  "inv_events cl ne (cs @ snd (registerClient f)) = inv_events cl ne cs"
  by (simp_all add: inv_obs_def inv_own_def inv_events_def trace_append frame_simps
      db_ordered_frame events_ordered_frame)

text \<open>The state between the acquisition of the client and the construction of the subscription.\<close>

definition acquired :: "bool \<Rightarrow> string \<Rightarrow> client_id \<Rightarrow> Client \<Rightarrow> world \<Rightarrow> bool" where
  "acquired g u c k w \<longleftrightarrow>
     clients w c = Some k \<and> asStringUriOnlyOrdered (mTo k) = u
   \<and> inv_store (subs w) (next_sub w) (mSubscriptions w)
   \<and> inv_refs_plus c (subs w) (mSubscriptions w) (clients w) (use_count w)
   \<and> inv_obs {} (subs w) (calls w)
   \<and> inv_events (clients w) (next_event w) (calls w)
   \<and> inv_clients (subs w) (clients w) (next_client w) (mClients w)
   \<and> inv_factory (clients w) (mRegEventClientFactory w) (calls w)
   \<and> inv_own {} g (subs w) (mSubscriptions w) (calls w)"

lemma acquireClient_keeps:
  assumes I: "world_inv {} g w"
  obtains c k w1 where "acquireClient a w = (c, w1)"
    "acquired g (asStringUriOnlyOrdered a) c k w1"
    "subs w1 = subs w" "mSubscriptions w1 = mSubscriptions w" "next_sub w1 = next_sub w"
proof -
  note J = invD [OF I]
  show thesis
  proof (cases "\<exists>c k. mClients w (asStringUriOnlyOrdered a) = Some c \<and> clients w c = Some k")
    case True
    then obtain c k where M: "mClients w (asStringUriOnlyOrdered a) = Some c"
      and cl: "clients w c = Some k" by blast
    show thesis
    proof (rule that [OF acquire_shared(1) [OF I M cl]])
      show "acquired g (asStringUriOnlyOrdered a) c k
              (w\<lparr>use_count := (use_count w)(c := use_count w c + 1)\<rparr>)"
        using J cl acquire_shared(2,3) [OF I M cl] by (simp add: acquired_def)
    qed simp_all
  next
    case False
    then have M: "\<And>c. mClients w (asStringUriOnlyOrdered a) = Some c \<Longrightarrow> clients w c = None"
      by auto
    let ?n = "next_client w" and ?f = "registerClient (mRegEventClientFactory w)"
    let ?w = "w\<lparr>clients := (clients w)(?n \<mapsto> Client_init a),
                use_count := (use_count w)(?n := 1), next_client := ?n + 1,
                mClients := (mClients w)(asStringUriOnlyOrdered a \<mapsto> ?n),
                mRegEventClientFactory := fst ?f, calls := calls w @ snd ?f\<rparr>"
    have n: "clients w ?n = None"
      using J(5) unfolding inv_clients_def by (metis less_irrefl not_Some_eq)
    then have "holders (subs w) ?n = {}"
      using J(2) by (fastforce simp: inv_refs_def holders_def)
    moreover have "\<forall>s x. subs w s = Some (External x) \<longrightarrow>
        s \<in> stored (mSubscriptions w) \<and> (\<exists>c. mClient x = Some c \<and> c \<in> dom (clients ?w))"
    proof -
      have "dom (clients w) \<subseteq> dom (clients ?w)" by auto
      with J(2) show ?thesis unfolding inv_refs_def by blast
    qed
    moreover have "c \<in> dom (clients ?w) \<longleftrightarrow> 0 < use_count ?w c"
      and "use_count w c = card (holders (subs w) c)" for c
      using J(2) by (auto simp: inv_refs_def)
    ultimately have "inv_refs_plus ?n (subs w) (mSubscriptions w) (clients ?w) (use_count ?w)"
      unfolding inv_refs_plus_def by simp
    then have "acquired g (asStringUriOnlyOrdered a) ?n (Client_init a) ?w"
      using J inv_events_new [OF J(4) n, of "Client_init a"]
        inv_clients_new [where u = "asStringUriOnlyOrdered a" and k = "Client_init a",
          OF J(5) J(2) M]
        inv_factory_new [OF J(6) n]
      by (simp add: acquired_def Client_init_def registerClient_calls)
    then show thesis
      by (intro that [OF acquire_new_eq [OF I M]]) simp_all
  qed
qed

lemma inv_events_subscribe:
  assumes I: "inv_events cl ne cs" and k: "cl c = Some k" and e: "mSubscribeEvent k = None"
  shows "inv_events (cl(c \<mapsto> k\<lparr>mSubscribeEvent := Some ne\<rparr>)) (ne + 1)
           (cs @ open_calls ne (mTo k) d c)"
    (is "inv_events ?cl _ (_ @ ?ds)")
proof -
  have D: "event_data cs e = Some c' \<longleftrightarrow> (\<exists>k'. cl c' = Some k' \<and> mSubscribeEvent k' = Some e)"
    and O: "open_dialogs cs e = Some a
        \<longleftrightarrow> (\<exists>c k'. cl c = Some k' \<and> mSubscribeEvent k' = Some e \<and> mTo k' = a)"
    and B: "cl c' = Some k1 \<Longrightarrow> mSubscribeEvent k1 = Some e \<Longrightarrow> e < ne" for e c' a k1
    using I unfolding inv_events_def by blast+
  have ed: "event_data (cs @ ?ds) = (event_data cs)(ne \<mapsto> c)"
    and od: "open_dialogs (cs @ ?ds) = (open_dialogs cs)(ne \<mapsto> mTo k)"
    by (simp_all add: trace_append upd_defs open_calls_def)
  have live: "?cl c' = Some k' \<and> mSubscribeEvent k' = Some e \<longleftrightarrow>
      (if e = ne then c' = c \<and> k' = k\<lparr>mSubscribeEvent := Some ne\<rparr>
       else cl c' = Some k' \<and> mSubscribeEvent k' = Some e)" for c' k' e
    using k e B by (auto split: if_splits)
  have data: "event_data (cs @ ?ds) e = Some c' \<longleftrightarrow>
      (\<exists>k'. ?cl c' = Some k' \<and> mSubscribeEvent k' = Some e)" for e c'
    unfolding ed live by (auto simp: D)
  have dialogs: "open_dialogs (cs @ ?ds) e = Some a \<longleftrightarrow>
      (\<exists>c' k'. (?cl c' = Some k' \<and> mSubscribeEvent k' = Some e) \<and> mTo k' = a)" for e a
    unfolding od live by (auto simp: O)
  have bound: "e < ne + 1" if "?cl c' = Some k'" "mSubscribeEvent k' = Some e" for c' k' e
  proof -
    from that have "e = ne \<or> cl c' = Some k' \<and> mSubscribeEvent k' = Some e"
      using live by metis
    then show ?thesis using B by fastforce
  qed
  have ord: "events_ordered (ne + 1) (cs @ ?ds)"
    using I by (intro events_ordered_open) (simp add: inv_events_def)
  show ?thesis
    unfolding inv_events_def
    by (intro conjI allI impI ord) (rule data, simp only: dialogs conj_assoc, rule bound)
qed

text \<open>The client of a subscription under construction gets it as its next observer.\<close>

lemma External_start_keeps:
  assumes A: "acquired g (asStringUriOnlyOrdered a) c k w1"
    and fresh: "\<And>s. (getSubscriptionKey a, s) \<in> set (mSubscriptions w1) \<Longrightarrow>
                  room_of (subs w1) s \<noteq> Some r"
    and x: "x = External_init chk r a (Some c)" and s: "s = next_sub w1"
    and w2: "w2 = w1\<lparr>subs := (subs w1)(s \<mapsto> External x), next_sub := s + 1,
                     mSubscriptions := mm_insert (getSubscriptionKey a) s (mSubscriptions w1)\<rparr>"
  obtains w' where "External_start E s x w2 = Inr w'" "world_inv {} g w'"
proof -
  let ?m = "mm_insert (getSubscriptionKey a) s (mSubscriptions w1)"
  let ?h = "(subs w1)(s \<mapsto> External x)"
  from A have cl: "clients w1 c = Some k" and u: "asStringUriOnlyOrdered (mTo k) = asStringUriOnlyOrdered a"
    and J: "inv_store (subs w1) (next_sub w1) (mSubscriptions w1)"
      "inv_refs_plus c (subs w1) (mSubscriptions w1) (clients w1) (use_count w1)"
      "inv_obs {} (subs w1) (calls w1)" "inv_events (clients w1) (next_event w1) (calls w1)"
      "inv_clients (subs w1) (clients w1) (next_client w1) (mClients w1)"
      "inv_factory (clients w1) (mRegEventClientFactory w1) (calls w1)"
      "inv_own {} g (subs w1) (mSubscriptions w1) (calls w1)"
    by (simp_all add: acquired_def)
  let ?d = "mSubscriptionRefreshDelay (mRegEventClientFactory w1)"
  let ?r = "Client_subscribe ?d c (next_event w1) k"
  let ?k = "fst ?r" and ?cs = "fst (snd ?r)" and ?rep = "ext.told E [x] (snd (snd ?r))"
  let ?ne = "if mSubscribeEvent k = None then next_event w1 + 1 else next_event w1"
  let ?w = "w2\<lparr>clients := (clients w1)(c \<mapsto> ?k), next_event := ?ne,
               calls := calls w1 @ [AddObserver c s] @ ?cs @ ?rep\<rparr>"
  have n: "subs w1 s = None" using J(1) s by (auto simp: inv_store_def)
  have mTo: "mTo ?k = mTo k" by (simp add: Client_subscribe_def split: option.split)
  have dom: "dom ((clients w1)(c \<mapsto> ?k)) = dom (clients w1)" using cl by auto
  have hold: "holders ?h c' = (if c' = c then insert s (holders (subs w1) c) else holders (subs w1) c')" for c'
    using n by (simp add: holders_upd_external x)
  have s_new: "s \<notin> holders (subs w1) c'" for c'
    using n by (simp add: holders_def)
  have rep: "\<forall>y \<in> set ?rep. is_room_call y"
    by (rule ext.told_room_calls)
  have "list_all (readable_call E) (snd (snd ?r))"
    by (simp add: Client_subscribe_def readable_call_def split: option.split)
  then have "External_start E s x w2 = Inr ?w"
    using cl by (simp add: External_start_def External_callbacks_eq x w2 Let_def case_prod_beta)
  moreover have "world_inv {} g ?w"
  proof
    show "inv_store (subs ?w) (next_sub ?w) (mSubscriptions ?w)"
      using inv_store_insert [OF J(1), of "getSubscriptionKey a" "External x"] fresh
      by (simp add: w2 s x)
    show "inv_refs (subs ?w) (mSubscriptions ?w) (clients ?w) (use_count ?w)"
    proof -
      have "\<forall>s' y. ?h s' = Some (External y) \<longrightarrow>
          s' \<in> stored ?m \<and> (\<exists>c. mClient y = Some c \<and> c \<in> dom (clients w1))"
      proof (intro allI impI)
        fix s' y assume y: "?h s' = Some (External y)"
        have c: "c \<in> dom (clients w1)" using cl by auto
        show "s' \<in> stored ?m \<and> (\<exists>c. mClient y = Some c \<and> c \<in> dom (clients w1))"
        proof (cases "s' = s")
          case True
          with y c show ?thesis by (auto simp: stored_insert x)
        next
          case False
          with y have "subs w1 s' = Some (External y)" by simp
          with J(2) have "s' \<in> stored (mSubscriptions w1)
              \<and> (\<exists>c. mClient y = Some c \<and> c \<in> dom (clients w1))"
            unfolding inv_refs_plus_def by blast
          then show ?thesis by (simp add: stored_insert)
        qed
      qed
      moreover have "\<forall>c'. use_count w1 c' = card (holders ?h c')"
        using J(2) s_new finite_holders [OF J(1)] by (simp add: inv_refs_plus_def hold)
      ultimately show ?thesis
        using J(2) dom by (simp add: inv_refs_def inv_refs_plus_def w2)
    qed
    have "observers (calls ?w) = insert (c, s) (observers (calls w1))"
      using fold_room_calls(2) [OF rep]
      by (simp add: trace_append upd_defs Client_subscribe_def split: option.split)
    also have "\<dots> = {(c', s'). s' \<in> holders ?h c' \<and> s' \<notin> {}}"
      using J(3) by (auto simp: inv_obs_def hold split: if_splits)
    finally show "inv_obs {} (subs ?w) (calls ?w)"
      by (simp add: inv_obs_def w2)
    have "inv_events (clients w1) (next_event w1) (calls w1 @ [AddObserver c s])"
      using J(4) by (simp add: inv_events_def trace_append upd_defs events_ordered_frame call_event_def)
    from inv_events_subscribe [OF this cl] this
    have "inv_events ((clients w1)(c \<mapsto> ?k)) ?ne ((calls w1 @ [AddObserver c s]) @ ?cs)"
      using cl by (auto simp: Client_subscribe_def open_calls_def fun_upd_idem split: option.split)
    then show "inv_events (clients ?w) (next_event ?w) (calls ?w)"
      using inv_room_calls(2) [OF rep, of _ _ "(calls w1 @ [AddObserver c s]) @ ?cs"]
      by (simp add: w2)
    show "inv_clients (subs ?w) (clients ?w) (next_client ?w) (mClients ?w)"
    proof -
      have K: "\<forall>c k. clients w1 c = Some k \<longrightarrow>
            c < next_client w1 \<and> mClients w1 (asStringUriOnlyOrdered (mTo k)) = Some c"
          "\<forall>u c. mClients w1 u = Some c \<longrightarrow> c < next_client w1 \<and>
            (\<forall>k. clients w1 c = Some k \<longrightarrow> asStringUriOnlyOrdered (mTo k) = u)"
          "\<forall>s x c k. subs w1 s = Some (External x) \<longrightarrow> mClient x = Some c \<longrightarrow>
            clients w1 c = Some k \<longrightarrow>
            asStringUriOnlyOrdered (mTo k) = asStringUriOnlyOrdered (mParticipant x)"
        using J(5) unfolding inv_clients_def by blast+
      have "\<forall>c' k'. clients ?w c' = Some k' \<longrightarrow>
            c' < next_client ?w \<and> mClients ?w (asStringUriOnlyOrdered (mTo k')) = Some c'"
        using K(1) cl mTo by (auto simp: w2)
      moreover have "\<forall>u c'. mClients ?w u = Some c' \<longrightarrow> c' < next_client ?w \<and>
            (\<forall>k'. clients ?w c' = Some k' \<longrightarrow> asStringUriOnlyOrdered (mTo k') = u)"
        using K(2) cl mTo by (auto simp: w2)
      moreover have "\<forall>s' y c' k'. subs ?w s' = Some (External y) \<longrightarrow> mClient y = Some c' \<longrightarrow>
            clients ?w c' = Some k' \<longrightarrow>
            asStringUriOnlyOrdered (mTo k') = asStringUriOnlyOrdered (mParticipant y)"
        using K(3) cl mTo u by (auto simp: w2 x split: if_splits)
      ultimately show ?thesis unfolding inv_clients_def by blast
    qed
    have "core_listening (calls ?w) = core_listening (calls w1)"
      using fold_room_calls(4) [OF rep]
      by (simp add: trace_append upd_defs Client_subscribe_def split: option.split)
    then show "inv_factory (clients ?w) (mRegEventClientFactory ?w) (calls ?w)"
      using J(6) by (simp add: inv_factory_def dom w2 fac.consistent_def insert_absorb domI [where m = "clients w1", OF cl])
    have "db_subscriptions (calls ?w) = db_subscriptions (calls w1)"
      using fold_room_calls(3) [OF rep]
      by (simp add: trace_append upd_defs Client_subscribe_def split: option.split)
    moreover have own: "?h s' = Some (Own o1) \<longleftrightarrow> subs w1 s' = Some (Own o1)" for s' o1
      using n by auto
    moreover have "db_calls s' (calls ?w) = db_calls s' (calls w1)" for s'
      using room_calls_objects(2) [OF rep]
      by (simp add: Client_subscribe_def call_listener_def split: option.split)
    then have "db_ordered g ?h (calls ?w) = db_ordered g (subs w1) (calls w1)"
      by (subst db_ordered_cong [of ?h "subs w1", OF own]) (simp add: db_ordered_def)
    moreover have "s' \<in> stored ?m \<longleftrightarrow> s' \<in> stored (mSubscriptions w1)"
      if "subs w1 s' = Some (Own o1)" for s' o1
      using that n by (auto simp: stored_insert)
    ultimately show "inv_own {} g (subs ?w) (mSubscriptions ?w) (calls ?w)"
      using J(7) unfolding inv_own_def by (simp add: w2)
  qed
  ultimately show thesis by (rule that)
qed

end
