(* ===== verification/WorldReach.thy ===== *)
theory WorldReach
  imports WorldStart
begin

text \<open>
  Every admissible input is processed without a fault, and keeps the invariant; so the invariant
  holds in every reachable state. The results about whole operations (subscribing, leaving,
  stopping everything) are here; what follows from the invariant is in the theory that uses this
  one.
\<close>

section \<open>Subscribing\<close>

lemma findSubscription_loop_eq:
  assumes "\<forall>(k, s) \<in> set it. h s \<noteq> None"
  shows "findSubscription_loop h r it = Inr (\<exists>(k, s) \<in> set it. room_of h s = Some r)"
  using assms by (induction h r it rule: findSubscription_loop.induct)
    (auto simp: room_of_def split: option.splits)

lemma set_mm_range:
  "inv_store h n m \<Longrightarrow> set (mm_range k m) = {(k', s) \<in> set m. k' = k}"
  using mm.set_rng [of m k] by (auto simp: inv_store_def)

lemma findSubscription_eq:
  assumes "world_inv T g w"
  shows "findSubscription r a w =
    Inr (\<exists>s. (getSubscriptionKey a, s) \<in> set (mSubscriptions w) \<and> room_of (subs w) s = Some r)"
proof -
  note J = invD [OF assms]
  have rng: "set (mm_range (getSubscriptionKey a) (mSubscriptions w)) =
      {(k, s) \<in> set (mSubscriptions w). k = getSubscriptionKey a}"
    using J(1) by (rule set_mm_range)
  then have "\<forall>(k, s) \<in> set (mm_range (getSubscriptionKey a) (mSubscriptions w)). subs w s \<noteq> None"
    using J(1) by (fastforce simp: inv_store_def)
  then show ?thesis
    unfolding findSubscription_def by (subst findSubscription_loop_eq) (auto simp: rng)
qed

lemma start_external_keeps:
  assumes I: "world_inv {} g w"
    and fresh: "\<And>s. (getSubscriptionKey a, s) \<in> set (mSubscriptions w) \<Longrightarrow>
                  room_of (subs w) s \<noteq> Some r"
  obtains w' where "startSubscription E (ExternalFactory_create chk r a) a w = Inr w'"
    "world_inv {} g w'"
proof -
  obtain c k w1 where acq: "acquireClient a w = (c, w1)"
    and A: "acquired g (asStringUriOnlyOrdered a) c k w1"
    and same: "subs w1 = subs w" "mSubscriptions w1 = mSubscriptions w" "next_sub w1 = next_sub w"
    using acquireClient_keeps [OF I] by blast
  let ?x = "External_init chk r a (Some c)" and ?s = "next_sub w1"
  let ?w2 = "w1\<lparr>subs := (subs w1)(?s \<mapsto> External ?x), next_sub := ?s + 1,
                mSubscriptions := mm_insert (getSubscriptionKey a) ?s (mSubscriptions w1)\<rparr>"
  have "\<And>s. (getSubscriptionKey a, s) \<in> set (mSubscriptions w1) \<Longrightarrow>
          room_of (subs w1) s \<noteq> Some r"
    using fresh by (simp add: same)
  then obtain w' where "External_start E ?s ?x ?w2 = Inr w'" "world_inv {} g w'"
    using External_start_keeps [OF A _ refl refl refl] by blast
  then show thesis
    by (intro that [of w'])
      (simp_all add: startSubscription_def ExternalFactory_create_def acq new_sub_def
        addSubscription_def sub_start_def Let_def)
qed

lemma subscribe_keeps:
  assumes I: "world_inv {} g w" and g: "useGlobalDomain E = g"
  obtains w' where "subscribe E srv r a w = Inr w'" "world_inv {} g w'"
proof (cases "\<exists>s. (getSubscriptionKey a, s) \<in> set (mSubscriptions w) \<and> room_of (subs w) s = Some r")
  case True
  with I show thesis
    by (intro that [of w]) (simp_all add: subscribe_def findSubscription_eq [OF I])
next
  case False
  then have fresh: "\<And>s. (getSubscriptionKey a, s) \<in> set (mSubscriptions w) \<Longrightarrow>
      room_of (subs w) s \<noteq> Some r" by blast
  from False have sub: "subscribe E srv r a w =
      (if getDomain a \<in> set (getLocalDomains srv)
       then startSubscription E (OwnFactory_create E (capabilityCheckEnabled srv) r a) a w
       else startSubscription E (ExternalFactory_create (capabilityCheckEnabled srv) r a) a w)"
    by (auto simp: subscribe_def findSubscription_eq [OF I])
  show thesis
  proof (cases "getDomain a \<in> set (getLocalDomains srv)")
    case True
    then obtain w' where "subscribe E srv r a w = Inr w'"
      by (simp add: sub start_own_eq Let_def)
    moreover from this True have "world_inv {} g w'"
      by (intro start_own_keeps [OF I g fresh]) (auto simp: sub)
    ultimately show thesis by (rule that)
  next
    case False
    obtain w' where
      "startSubscription E (ExternalFactory_create (capabilityCheckEnabled srv) r a) a w = Inr w'"
      "world_inv {} g w'"
      using start_external_keeps [OF I fresh] by blast
    with False show thesis by (intro that [of w']) (simp_all add: sub)
  qed
qed

section \<open>Leaving\<close>

lemma removeSubscription_loop_keeps:
  assumes "world_inv {} g w" and g: "useGlobalDomain E = g"
    and "distinct it" and "set it \<subseteq> set (mSubscriptions w)" and "inj_on snd (set it)"
  shows "\<exists>w'. removeSubscription_loop E r it w = Inr w' \<and> world_inv {} g w'
    \<and> set (mSubscriptions w') =
        set (mSubscriptions w) - {(k, s) \<in> set it. room_of (subs w) s = Some r}
    \<and> (\<forall>(k, s) \<in> set (mSubscriptions w'). room_of (subs w') s = room_of (subs w) s)"
  using assms
proof (induction it arbitrary: w)
  case Nil
  then show ?case by auto
next
  case (Cons p it)
  obtain k s where p: "p = (k, s)" by (cases p)
  note I = Cons.prems(1)
  note J = invD [OF I]
  from Cons.prems(4) p have ks: "(k, s) \<in> set (mSubscriptions w)" by simp
  with J(1) obtain sub where sub: "subs w s = Some sub"
    by (fastforce simp: inv_store_def)
  show ?case
  proof (cases "sub_room sub = r")
    case False
    moreover have "\<exists>w'. removeSubscription_loop E r it w = Inr w' \<and> world_inv {} g w'
      \<and> set (mSubscriptions w') =
          set (mSubscriptions w) - {(k, s) \<in> set it. room_of (subs w) s = Some r}
      \<and> (\<forall>(k, s) \<in> set (mSubscriptions w'). room_of (subs w') s = room_of (subs w) s)"
      using Cons.prems by (intro Cons.IH) (auto simp: inj_on_def)
    ultimately show ?thesis
      using sub p by (auto simp: room_of_def)
  next
    case True
    have "s \<in> stored (mSubscriptions w)" using ks by (auto simp: stored_iff)
    then obtain w1 where w1: "sub_stop E s w = Inr w1" "world_inv {s} g w1"
      "mSubscriptions w1 = mSubscriptions w" "room_of (subs w1) = room_of (subs w)"
      using sub_stop_keeps [OF I g] by blast
    then obtain w2 where
      w2: "sub_release s (w1\<lparr>mSubscriptions := mm_erase (k, s) (mSubscriptions w1)\<rparr>) = Inr w2"
      "world_inv {} g w2" "mSubscriptions w2 = mm_erase (k, s) (mSubscriptions w1)"
      "\<And>s'. s' \<noteq> s \<Longrightarrow> room_of (subs w2) s' = room_of (subs w1) s'"
      using sub_release_keeps [OF w1(2), of k s] ks by (metis Diff_cancel singletonI)
    have dm: "distinct (mSubscriptions w)" "distinct (map snd (mSubscriptions w))"
      using J(1) by (simp_all add: inv_store_def distinct_map)
    have m2: "set (mSubscriptions w2) = set (mSubscriptions w) - {(k, s)}"
      using dm(1) by (simp add: w2(3) w1(3) set_mm_erase)
    have it_s: "s' \<noteq> s" if "(k', s') \<in> set it" for k' s'
      using Cons.prems(3,5) that p by (fastforce simp: inj_on_def)
    have "\<exists>w'. removeSubscription_loop E r it w2 = Inr w' \<and> world_inv {} g w'
      \<and> set (mSubscriptions w') =
          set (mSubscriptions w2) - {(k, s) \<in> set it. room_of (subs w2) s = Some r}
      \<and> (\<forall>(k, s) \<in> set (mSubscriptions w'). room_of (subs w') s = room_of (subs w2) s)"
      using Cons.prems(3-5) g w2(2) m2 it_s p by (intro Cons.IH) (auto simp: inj_on_def)
    then obtain w' where w': "removeSubscription_loop E r it w2 = Inr w'" "world_inv {} g w'"
      "set (mSubscriptions w') =
          set (mSubscriptions w2) - {(k, s) \<in> set it. room_of (subs w2) s = Some r}"
      "\<forall>(k, s) \<in> set (mSubscriptions w'). room_of (subs w') s = room_of (subs w2) s"
      by blast
    have "removeSubscription_loop E r (p # it) w = Inr w'"
      using sub True w1(1) w2(1) w'(1) by (simp add: p)
    moreover have "{(k, s) \<in> set it. room_of (subs w2) s = Some r} =
        {(k, s) \<in> set it. room_of (subs w) s = Some r}"
      using it_s w1(4) w2(4) by auto
    then have "set (mSubscriptions w') =
        set (mSubscriptions w) - {(k, s) \<in> set (p # it). room_of (subs w) s = Some r}"
      using sub True by (auto simp: w'(3) m2 p room_of_def)
    moreover have "s' \<noteq> s" if "(k', s') \<in> set (mSubscriptions w')" for k' s'
      using that w'(3) m2 mm_erase_other(1) [OF dm(2) ks, of k' s'] w2(3) w1(3) by auto
    then have "\<forall>(k, s) \<in> set (mSubscriptions w'). room_of (subs w') s = room_of (subs w) s"
      using w'(4) w2(4) w1(4) by auto
    ultimately show ?thesis using w'(2) by blast
  qed
qed

lemma unsubscribe_keeps:
  assumes I: "world_inv {} g w" and g: "useGlobalDomain E = g"
  obtains w' where "unsubscribe E r a w = Inr w'" "world_inv {} g w'"
    "set (mSubscriptions w') = {(k, s) \<in> set (mSubscriptions w).
        k = getSubscriptionKey a \<longrightarrow> room_of (subs w) s \<noteq> Some r}"
    "\<forall>(k, s) \<in> set (mSubscriptions w'). room_of (subs w') s = room_of (subs w) s"
proof -
  note J = invD [OF I]
  let ?it = "mm_range (getSubscriptionKey a) (mSubscriptions w)"
  have rng: "set ?it = {(k, s) \<in> set (mSubscriptions w). k = getSubscriptionKey a}"
    using J(1) by (rule set_mm_range)
  have "distinct (mSubscriptions w)" "inj_on snd (set (mSubscriptions w))"
    using J(1) by (simp_all add: inv_store_def distinct_map)
  moreover have "?it = filter (\<lambda>p. fst p = getSubscriptionKey a) (mSubscriptions w)"
    using J(1) by (simp add: inv_store_def mm_range_filter)
  ultimately have "distinct ?it" "set ?it \<subseteq> set (mSubscriptions w)" "inj_on snd (set ?it)"
    by (auto intro: inj_on_subset)
  from removeSubscription_loop_keeps [OF I g this, of r]
  obtain w' where "removeSubscription_loop E r ?it w = Inr w'" "world_inv {} g w'"
    "set (mSubscriptions w') = set (mSubscriptions w) - {(k, s) \<in> set ?it. room_of (subs w) s = Some r}"
    "\<forall>(k, s) \<in> set (mSubscriptions w'). room_of (subs w') s = room_of (subs w) s"
    by blast
  then show thesis
    by (intro that [of w']) (auto simp: unsubscribe_def removeSubscription_def rng)
qed

section \<open>Stopping everything\<close>

lemma stop_loop_keeps:
  assumes "world_inv T g w" and g: "useGlobalDomain E = g"
    and "snd ` set it \<subseteq> stored (mSubscriptions w)"
  shows "\<exists>w'. stop_loop E it w = Inr w' \<and> world_inv (T \<union> snd ` set it) g w'
    \<and> mSubscriptions w' = mSubscriptions w"
  using assms
proof (induction it arbitrary: T w)
  case Nil
  then show ?case by simp
next
  case (Cons p it)
  obtain k s where p: "p = (k, s)" by (cases p)
  from Cons.prems(3) have s: "s \<in> stored (mSubscriptions w)" by (simp add: p)
  obtain w1 where w1: "sub_stop E s w = Inr w1" "world_inv (insert s T) g w1"
    "mSubscriptions w1 = mSubscriptions w"
    using sub_stop_keeps [OF Cons.prems(1) g s] by metis
  have "snd ` set it \<subseteq> stored (mSubscriptions w1)"
    using Cons.prems(3) by (simp add: w1(3))
  from Cons.IH [OF w1(2) g this] w1(1,3) show ?case by (auto simp: p)
qed

lemma erased_not_stored:
  assumes "distinct (map snd m)" and "(k, s) \<in> set m"
  shows "s \<notin> snd ` set (mm_erase (k, s) m)"
proof -
  have "inj_on snd (set m)" "set (mm_erase (k, s) m) = set m - {(k, s)}"
    using assms(1) by (simp_all add: distinct_map mm_erase_def)
  then show ?thesis using assms(2) by (force simp: inj_on_def)
qed

text \<open>The end state is the same for every order in which the elements are destroyed.\<close>

lemma clear_loop_keeps:
  assumes "world_inv (stored (mSubscriptions w)) g w"
    and "mset it = mset (mSubscriptions w)"
  shows "\<exists>w'. clear_loop it w = Inr w' \<and> world_inv {} g w' \<and> mSubscriptions w' = []"
  using assms
proof (induction it arbitrary: w)
  case Nil
  then show ?case by (simp add: stored_def)
next
  case (Cons p it)
  obtain k s where p: "p = (k, s)" by (cases p)
  have "(k, s) \<in> set (mSubscriptions w)"
    using Cons.prems(2) by (metis p list.set_intros(1) mset_eq_setD)
  then have r: "mset (mSubscriptions w) = add_mset (k, s) (mset (mm_erase (k, s) (mSubscriptions w)))"
    by (simp add: mm_erase_def)
  have d: "distinct (map snd (mSubscriptions w))"
    using invD(1) [OF Cons.prems(1)] by (simp add: inv_store_def)
  obtain w1 where
    w1: "sub_release s (w\<lparr>mSubscriptions := mm_erase (k, s) (mSubscriptions w)\<rparr>) = Inr w1"
    "world_inv (stored (mSubscriptions w) - {s}) g w1"
    "mSubscriptions w1 = mm_erase (k, s) (mSubscriptions w)"
    using sub_release_keeps [OF Cons.prems(1), of k s] \<open>(k, s) \<in> set (mSubscriptions w)\<close>
    by (metis stored_iff)
  have it: "mset it = mset (mSubscriptions w1)"
    using Cons.prems(2) r by (simp add: p w1(3))
  have "s \<notin> snd ` set (mm_erase (k, s) (mSubscriptions w))"
    using d \<open>(k, s) \<in> set (mSubscriptions w)\<close> by (rule erased_not_stored)
  moreover have "set (mSubscriptions w) = insert (k, s) (set (mm_erase (k, s) (mSubscriptions w)))"
    using arg_cong [OF r, of set_mset] by simp
  ultimately have "stored (mSubscriptions w) - {s} = stored (mSubscriptions w1)"
    by (auto simp: stored_def w1(3))
  with w1(2) have "world_inv (stored (mSubscriptions w1)) g w1" by simp
  from Cons.IH [OF this it] w1(1) show ?case by (simp add: p)
qed

lemma clear_order_mset: "mset (clear_order E m) = mset m"
  by (simp add: clear_order_def)

lemma unsubscribeAll_keeps:
  assumes I: "world_inv {} g w" and g: "useGlobalDomain E = g"
  obtains w' where "unsubscribeAll E w = Inr w'" "world_inv {} g w'" "mSubscriptions w' = []"
proof -
  obtain w1 where w1: "stop_loop E (mSubscriptions w) w = Inr w1"
    "world_inv (stored (mSubscriptions w)) g w1" "mSubscriptions w1 = mSubscriptions w"
    using stop_loop_keeps [OF I g, of "mSubscriptions w"] by (auto simp: stored_def)
  then have "world_inv (stored (mSubscriptions w1)) g w1" by simp
  from clear_loop_keeps [OF this clear_order_mset] w1(1) that show thesis
    by (auto simp: unsubscribeAll_def removeAllSubscriptions_def)
qed

section \<open>Callbacks\<close>

lemma notify_room: "x \<in> set (notify b ds) \<Longrightarrow> is_room_call x"
  by (simp add: notify_def)

lemma Own_callbacks_room:
  "\<forall>x \<in> set (Own_onRecordFound E o1 r). is_room_call x"
  "Own_onContactRegistered E o1 r uid = Inr cs \<Longrightarrow> \<forall>x \<in> set cs. is_room_call x"
  by (auto simp: Own_onRecordFound_def Own_onContactRegistered_def Own_processRecord_def Let_def
      notify_room notifyRegistration_def split: if_splits option.splits)

lemma Own_onContactRegistered_total:
  assumes "uid \<noteq> '''' \<longrightarrow> r \<noteq> None"
  obtains cs where "Own_onContactRegistered E o1 r uid = Inr cs"
proof (cases "Own_onContactRegistered E o1 r uid")
  case (Inl e)
  with assms have False
    by (auto simp: Own_onContactRegistered_def Let_def split: option.splits if_splits)
  then show thesis ..
next
  case (Inr cs)
  then show thesis by (rule that)
qed

lemma External_callback_hears:
  "External_callback E x lc =
     (if External_callback E x lc = Inl NullDeref then Inl NullDeref else Inr (ext.hears E x lc))"
proof (cases "External_callback E x lc")
  case (Inl f)
  then have "f = NullDeref" using External_callback_fails_iff by blast
  with Inl show ?thesis by simp
next
  case (Inr cs)
  then show ?thesis by (simp add: ext.deliver_hears)
qed

lemma notify_observers_eq:
  assumes "map (\<lambda>s. h s) targets = map (\<lambda>x. Some (External x)) xs"
  shows "notify_observers E h targets lc =
    (if \<exists>x \<in> set xs. External_callback E x lc = Inl NullDeref then Inl NullDeref
     else Inr (concat (map (\<lambda>x. ext.hears E x lc) xs)))"
  using assms
proof (induction targets arbitrary: xs)
  case Nil
  then show ?case by simp
next
  case (Cons s targets)
  then obtain x xs' where xs: "xs = x # xs'" "h s = Some (External x)"
    "map (\<lambda>s. h s) targets = map (\<lambda>x. Some (External x)) xs'" by (cases xs) auto
  note IH = Cons.IH [OF xs(3)]
  show ?case
  proof (cases "External_callback E x lc = Inl NullDeref")
    case True
    then show ?thesis by (simp add: xs(1,2))
  next
    case False
    then have "External_callback E x lc = Inr (ext.hears E x lc)"
      using External_callback_hears by metis
    then show ?thesis by (simp add: xs(1,2) IH)
  qed
qed

text \<open>The observers hear every call, unless one of them fails.\<close>

lemma deliver_all_eq:
  assumes "map (\<lambda>s. h s) targets = map (\<lambda>x. Some (External x)) xs"
  shows "deliver_all E h targets lcs =
    (if \<exists>lc \<in> set lcs. \<exists>x \<in> set xs. External_callback E x lc = Inl NullDeref then Inl NullDeref
     else Inr (ext.told E xs lcs))"
  by (induction lcs) (auto simp: notify_observers_eq [OF assms] ext.told_simps)

lemma externals_exist:
  assumes "\<forall>s \<in> set targets. \<exists>x. h s = Some (External x)"
  obtains xs where "map (\<lambda>s. h s) targets = map (\<lambda>x. Some (External x)) xs"
  using assms
proof (induction targets arbitrary: thesis)
  case Nil
  then show ?case by simp
next
  case (Cons s targets)
  then obtain x xs where "h s = Some (External x)" "map h targets = map (\<lambda>x. Some (External x)) xs"
    by (metis list.set_intros)
  then show ?case by (intro Cons.prems(1) [of "x # xs"]) simp
qed

lemma observers_external:
  assumes "world_inv {} g w" and "set targets = {s. (c, s) \<in> observers (calls w)}"
  obtains xs where "map (\<lambda>s. subs w s) targets = map (\<lambda>x. Some (External x)) xs"
proof (rule externals_exist)
  show "\<forall>s \<in> set targets. \<exists>x. subs w s = Some (External x)"
    using invD(3) [OF assms(1)] assms(2) by (auto simp: inv_obs_def holders_def)
qed

lemma event_client:
  assumes "world_inv {} g w" and "event_data (calls w) e = Some c"
  obtains k where "clients w c = Some k" "mSubscribeEvent k = Some e"
  using invD(4) [OF assms(1)] assms(2) unfolding inv_events_def by blast

lemma inv_upd_client:
  assumes I: "world_inv T g w" and k: "clients w c = Some k"
    and k': "mSubscribeEvent k' = mSubscribeEvent k" "mTo k' = mTo k"
  shows "world_inv T g (w\<lparr>clients := (clients w)(c \<mapsto> k')\<rparr>)"
proof -
  note J = invD [OF I]
  let ?cl = "(clients w)(c \<mapsto> k')"
  have d: "dom ?cl = dom (clients w)" using k by auto
  have K: "(\<exists>k1. ?cl c' = Some k1 \<and> P (mSubscribeEvent k1) (mTo k1)) \<longleftrightarrow>
      (\<exists>k1. clients w c' = Some k1 \<and> P (mSubscribeEvent k1) (mTo k1))" for c' P
    using k k' by auto
  have A: "(\<forall>k1. ?cl c' = Some k1 \<longrightarrow> P (mSubscribeEvent k1) (mTo k1)) \<longleftrightarrow>
      (\<forall>k1. clients w c' = Some k1 \<longrightarrow> P (mSubscribeEvent k1) (mTo k1))" for c' P
    using k k' by auto
  have refs: "inv_refs (subs w) (mSubscriptions w) ?cl (use_count w)"
    using J(2) unfolding inv_refs_def d .
  have "inv_events ?cl (next_event w) (calls w)"
    using J(4) K [of _ "\<lambda>e' _. e' = Some e" for e] K [of _ "\<lambda>e' a'. e' = Some e \<and> a' = a" for e a]
      A [of _ "\<lambda>e' _. e' = Some e \<longrightarrow> e < next_event w" for e]
    unfolding inv_events_def by simp
  moreover have "inv_clients (subs w) ?cl (next_client w) (mClients w)"
    using J(5) k k'(2) unfolding inv_clients_def by (auto split: if_splits)
  moreover have "inv_factory ?cl (mRegEventClientFactory w) (calls w)"
    using J(6) unfolding inv_factory_def d .
  ultimately show ?thesis
    using J(1,3,7) refs by (simp add: world_inv_def)
qed

lemma Client_onNotifyReceived_frame:
  assumes "Client_onNotifyReceived E body cl = Inr (cl', lcs)"
  shows "mSubscribeEvent cl' = mSubscribeEvent cl" and "mTo cl' = mTo cl"
  using assms by (auto elim: onNotifyReceived_InrD)

lemma notify_eq:
  assumes I: "world_inv {} g w" and e: "event_data (calls w) e = Some c"
    and t: "set targets = {s. (c, s) \<in> observers (calls w)}"
    and r: "Client_onNotifyReceived E body k = Inr (k', lcs)" and k: "clients w c = Some k"
  obtains xs where "map (\<lambda>s. subs w s) targets = map (\<lambda>x. Some (External x)) xs"
    "ClientFactory_onNotifyReceived E (event_data (calls w) e) body targets w =
       (if \<exists>lc \<in> set lcs. \<exists>x \<in> set xs. External_callback E x lc = Inl NullDeref
        then Inl NullDeref
        else Inr (emit (ext.told E xs lcs) (w\<lparr>clients := (clients w)(c \<mapsto> k')\<rparr>)))"
    "world_inv {} g (emit (ext.told E xs lcs) (w\<lparr>clients := (clients w)(c \<mapsto> k')\<rparr>))"
proof -
  obtain xs where xs: "map (\<lambda>s. subs w s) targets = map (\<lambda>x. Some (External x)) xs"
    using observers_external [OF I t] by blast
  moreover have "ClientFactory_onNotifyReceived E (event_data (calls w) e) body targets w =
       (if \<exists>lc \<in> set lcs. \<exists>x \<in> set xs. External_callback E x lc = Inl NullDeref
        then Inl NullDeref
        else Inr (emit (ext.told E xs lcs) (w\<lparr>clients := (clients w)(c \<mapsto> k')\<rparr>)))"
    by (simp add: ClientFactory_onNotifyReceived_def e k r deliver_all_eq [OF xs] emit_def)
  moreover have "world_inv {} g (w\<lparr>clients := (clients w)(c \<mapsto> k')\<rparr>)"
    using Client_onNotifyReceived_frame [OF r] by (rule inv_upd_client [OF I k])
  then have "world_inv {} g (emit (ext.told E xs lcs) (w\<lparr>clients := (clients w)(c \<mapsto> k')\<rparr>))"
    using ext.told_room_calls by (rule inv_emit_room_calls)
  ultimately show thesis by (rule that)
qed

text \<open>A readable body gives no refreshed device without an address.\<close>

lemma refreshed_address:
  assumes "d \<in> set (refreshed_of E reg)"
  obtains c where "c \<in> set (reg_contacts reg)" "contact_event c = Refreshed"
    "pdi_address d = createAddress E (contact_uri c)"
    "map_of (contact_unknownParams c) ''+org.linphone.specs'' \<noteq> None"
  using assms
  by (auto simp: refreshed_of_def List.map_filter_def contact_device_def)

lemma readable_callbacks:
  assumes "readable E (CoreNotify e body targets)"
    and "Client_onNotifyReceived E body k = Inr (k', lcs)"
  shows "list_all (readable_call E) lcs"
proof -
  obtain b regs where body: "body = Some b" "parseReginfo E b = Some regs"
    and lcs: "lcs = concat (map (callbacks_of E) (before_termination (matching k regs)))
      @ (if terminates (matching k regs) then [OnNotifyReceived []] else [])"
    using assms(2) by (rule onNotifyReceived_InrD)
  have "readable_call E lc" if reg: "reg \<in> set regs" and lc: "lc \<in> set (callbacks_of E reg)" for reg lc
  proof (cases lc)
    case (OnRefreshed d)
    with lc have "d \<in> set (refreshed_of E reg)" by (auto simp: callbacks_of_def split: if_splits)
    then obtain c where "c \<in> set (reg_contacts reg)" "contact_event c = Refreshed"
      "pdi_address d = createAddress E (contact_uri c)"
      "map_of (contact_unknownParams c) ''+org.linphone.specs'' \<noteq> None"
      by (rule refreshed_address)
    with assms(1) reg OnRefreshed show ?thesis
      by (auto simp: readable_def readable_call_def body list_all_iff)
  qed (simp add: readable_call_def)
  then show ?thesis
    unfolding lcs
    by (auto simp: list_all_iff readable_call_def before_termination_def matching_def
        dest!: set_takeWhileD)
qed

lemma readable_identities:
  assumes "readable E (CoreNotify e body targets)"
  shows "Client_onNotifyReceived E body k \<noteq> Inl NullIdentity"
proof
  assume "Client_onNotifyReceived E body k = Inl NullIdentity"
  then obtain b regs where b: "body = Some b" "parseReginfo E b = Some regs"
    and "list_ex (null_identity E) (before_termination (matching k regs))"
    by (auto simp: Client_onNotifyReceived_def registration_loop_eq split: option.splits if_splits)
  then obtain reg d where "reg \<in> set regs" "\<not> nullIdentity E" "d \<in> set (devices_of E reg)"
    "pdi_address d = None"
    by (auto simp: list_ex_iff null_identity_def before_termination_def matching_def
        dest!: set_takeWhileD)
  then obtain c where "c \<in> set (reg_contacts reg)" "createAddress E (contact_uri c) = None"
    "map_of (contact_unknownParams c) ''+org.linphone.specs'' \<noteq> None"
    by (auto simp: devices_of_def List.map_filter_def contact_device_def)
  with \<open>reg \<in> set regs\<close> \<open>\<not> nullIdentity E\<close> assms show False
    by (fastforce simp: readable_def b list_all_iff)
qed

lemma onNotifyReceived_keeps:
  assumes I: "world_inv {} g w" and t: "admissible (CoreNotify e body targets) w"
  shows "case ClientFactory_onNotifyReceived E (event_data (calls w) e) body targets w of
      Inl f \<Rightarrow> f = NullDeref \<and> \<not> readable E (CoreNotify e body targets)
    | Inr w' \<Rightarrow> world_inv {} g w'"
proof (cases "event_data (calls w) e")
  case None
  with I show ?thesis by (simp add: ClientFactory_onNotifyReceived_def)
next
  case (Some c)
  then obtain k where k: "clients w c = Some k" using event_client [OF I] by blast
  from t Some have ts: "set targets = {s. (c, s) \<in> observers (calls w)}"
    by (simp add: admissible_def)
  show ?thesis
  proof (cases "Client_onNotifyReceived E body k")
    case (Inl err)
    with k Some I readable_identities [of E e body targets k] show ?thesis
      by (cases err) (auto simp: ClientFactory_onNotifyReceived_def)
  next
    case (Inr r)
    then obtain k' lcs where r: "Client_onNotifyReceived E body k = Inr (k', lcs)"
      by (cases r) simp
    have "External_callback E x lc \<noteq> Inl NullDeref"
      if "readable E (CoreNotify e body targets)" "lc \<in> set lcs" for x lc
      using readable_callbacks [OF that(1) r] that(2) ext.deliver_readable [of E lc x]
      by (auto simp: list_all_iff)
    moreover obtain xs where
      "ClientFactory_onNotifyReceived E (event_data (calls w) e) body targets w =
         (if \<exists>lc \<in> set lcs. \<exists>x \<in> set xs. External_callback E x lc = Inl NullDeref
          then Inl NullDeref
          else Inr (emit (ext.told E xs lcs) (w\<lparr>clients := (clients w)(c \<mapsto> k')\<rparr>)))"
      "world_inv {} g (emit (ext.told E xs lcs) (w\<lparr>clients := (clients w)(c \<mapsto> k')\<rparr>))"
      by (rule notify_eq [OF I Some ts r k])
    ultimately show ?thesis by auto
  qed
qed

lemma inv_drop_dialog:
  assumes I: "world_inv {} g w" and k: "clients w c = Some k" and e: "mSubscribeEvent k = Some e"
    and k': "mSubscribeEvent k' = None" "mTo k' = mTo k"
  shows "world_inv {} g
    (w\<lparr>clients := (clients w)(c \<mapsto> k'), calls := calls w @ [UnsetData e, TerminateEvent e]\<rparr>)"
proof -
  note J = invD [OF I]
  let ?cl = "(clients w)(c \<mapsto> k')" and ?cs = "calls w @ [UnsetData e, TerminateEvent e]"
  have d: "dom ?cl = dom (clients w)" using k by auto
  have "inv_events ?cl (next_event w) ?cs"
    using k'(1) inv_events_current [OF J(4) k e]
    by (intro inv_events_drop [OF J(4) k]) (simp_all add: e trace_append upd_defs close_calls_def)
  moreover have "inv_refs (subs w) (mSubscriptions w) ?cl (use_count w)"
    using J(2) unfolding inv_refs_def d .
  moreover have "inv_clients (subs w) ?cl (next_client w) (mClients w)"
    using J(5) k k'(2) unfolding inv_clients_def by (auto split: if_splits)
  moreover have "inv_factory ?cl (mRegEventClientFactory w) (calls w)"
    using J(6) unfolding inv_factory_def d .
  ultimately show ?thesis
    using J(1,3,7)
    by (simp add: world_inv_def inv_obs_def inv_factory_def inv_own_def fac.consistent_def
        trace_append upd_defs db_ordered_frame call_listener_def)
qed

lemma onSubscriptionStateChanged_eq:
  assumes I: "world_inv {} g w" and e: "event_data (calls w) e = Some c"
    and k: "clients w c = Some k"
  shows "ClientFactory_onSubscriptionStateChanged (event_data (calls w) e) st w =
    Inr (if st = Terminated \<or> st = Error
         then w\<lparr>clients := (clients w)(c \<mapsto> k\<lparr>mSubscribeEvent := None, mParticipantDevices := []\<rparr>),
                calls := calls w @ [UnsetData e, TerminateEvent e]\<rparr>
         else w)"
proof -
  have "mSubscribeEvent k = Some e" using event_client [OF I e] k by auto
  then show ?thesis
    using e k
    by (cases st) (simp_all add: ClientFactory_onSubscriptionStateChanged_def
        Client_onSubscriptionStateChanged_def fun_upd_idem)
qed

lemma onSubscriptionStateChanged_keeps:
  assumes I: "world_inv {} g w"
  obtains w' where
    "ClientFactory_onSubscriptionStateChanged (event_data (calls w) e) st w = Inr w'"
    "world_inv {} g w'"
proof (cases "event_data (calls w) e")
  case None
  with I that show thesis by (simp add: ClientFactory_onSubscriptionStateChanged_def)
next
  case (Some c)
  then obtain k where k: "clients w c = Some k" "mSubscribeEvent k = Some e"
    using event_client [OF I] by blast
  show thesis
    using I inv_drop_dialog [OF I k, of "k\<lparr>mSubscribeEvent := None, mParticipantDevices := []\<rparr>"]
    by (intro that [OF onSubscriptionStateChanged_eq [OF I Some k(1)]]) simp
qed

section \<open>Every step\<close>

lemma step_inv_cases:
  assumes I: "world_inv {} g w" and g: "useGlobalDomain E = g" and a: "admissible i w"
  shows "case step E srv i w of Inl f \<Rightarrow> f = NullDeref \<and> \<not> readable E i
    | Inr w' \<Rightarrow> world_inv {} g w'"
proof (cases i)
  case (Subscribe r a)
  obtain w' where "subscribe E srv r a w = Inr w'" "world_inv {} g w'"
    using subscribe_keeps [OF I g] by blast
  with Subscribe show ?thesis by simp
next
  case (Unsubscribe r a)
  obtain w' where "unsubscribe E r a w = Inr w'" "world_inv {} g w'"
    using unsubscribe_keeps [OF I g] by blast
  with Unsubscribe show ?thesis by simp
next
  case UnsubscribeAll
  obtain w' where "unsubscribeAll E w = Inr w'" "world_inv {} g w'"
    using unsubscribeAll_keeps [OF I g] by blast
  with UnsubscribeAll show ?thesis by simp
next
  case (RecordFound s r)
  with a obtain o1 where "subs w s = Some (Own o1)"
    by (auto simp: admissible_def is_own_def split: option.splits subscription.splits)
  then show ?thesis
    using inv_emit_room_calls [OF I Own_callbacks_room(1)]
    by (simp add: RecordFound onRecordFound_def)
next
  case (ContactRegistered s r uid)
  with a obtain o1 where o1: "subs w s = Some (Own o1)" and "uid \<noteq> '''' \<longrightarrow> r \<noteq> None"
    by (auto simp: admissible_def is_own_def split: option.splits subscription.splits)
  then obtain cs where "Own_onContactRegistered E o1 r uid = Inr cs"
    using Own_onContactRegistered_total by blast
  with o1 show ?thesis
    using inv_emit_room_calls [OF I Own_callbacks_room(2)]
    by (simp add: ContactRegistered onContactRegistered_def)
next
  case (CoreNotify e body targets)
  with a have "admissible (CoreNotify e body targets) w" by simp
  then show ?thesis
    unfolding CoreNotify step.simps by (rule onNotifyReceived_keeps [OF I])
next
  case (CoreStateChanged e st)
  obtain w' where "ClientFactory_onSubscriptionStateChanged (event_data (calls w) e) st w = Inr w'"
    "world_inv {} g w'"
    using onSubscriptionStateChanged_keeps [OF I] by blast
  with CoreStateChanged show ?thesis by simp
qed

lemma step_keeps:
  assumes "world_inv {} g w" and "useGlobalDomain E = g" and "admissible i w" and "readable E i"
  obtains w' where "step E srv i w = Inr w'" "world_inv {} g w'"
  using step_inv_cases [OF assms(1-3), of srv] assms(4)
  by (cases "step E srv i w") (simp_all del: step.simps)

lemma reachable_inv: "reachable g w \<Longrightarrow> world_inv {} g w"
proof (induction rule: reachable.induct)
  case (start delay)
  show ?case by (rule init_inv)
next
  case (step w E i srv w')
  with step_inv_cases [OF step.IH step.hyps(2,3), of srv] show ?case
    by (simp del: step.simps)
qed

end
