(* ===== verification/WorldProps.thy ===== *)
theory WorldProps
  imports WorldReach
begin

text \<open>
  The properties of the subscription system: what holds in every reachable state, and what each
  input does there. They follow from the invariant of \<^verbatim>\<open>WorldInv\<close>, which \<^verbatim>\<open>WorldReach\<close> proves
  of every reachable state. The last section has the concrete system in which the hypotheses of
  the properties are met: two chat rooms with a participant of an external domain, one of them
  also with a local participant.
\<close>

section \<open>A run of the system\<close>

fun run :: "env \<Rightarrow> server_view \<Rightarrow> input list \<Rightarrow> world \<Rightarrow> fault + world" where
  "run E srv [] w = Inr w"
| "run E srv (i # is) w = bindE (step E srv i w) (run E srv is)"

definition request :: "input \<Rightarrow> bool" where
  "request i = (case i of Subscribe r a \<Rightarrow> True | Unsubscribe r a \<Rightarrow> True | UnsubscribeAll \<Rightarrow> True
                | _ \<Rightarrow> False)"

lemma request_admissible: "request i \<Longrightarrow> admissible i w"
  by (cases i) (simp_all add: request_def admissible_def)

lemma run_reachable:
  assumes "reachable g w" and "useGlobalDomain E = g" and "list_all request is"
    and "run E srv is w = Inr w'"
  shows "reachable g w'"
  using assms
proof (induction "is" arbitrary: w)
  case Nil
  then show ?case by simp
next
  case (Cons i "is")
  then obtain w1 where "step E srv i w = Inr w1" and rest: "run E srv is w1 = Inr w'"
    by (auto simp: bindE_eq_Inr_iff)
  with Cons.prems have "reachable g w1" by (auto intro: reachable.step request_admissible)
  with Cons.IH Cons.prems rest show ?case by simp
qed

section \<open>The sample system\<close>

definition sample_srv :: server_view where
  "sample_srv = \<lparr>capabilityCheckEnabled = False, getLocalDomains = [''local'']\<rparr>"

definition alice :: Address where "alice = sample_address ''alice'' ''local''"
definition bob :: Address where "bob = sample_address ''bob'' ''ext''"

definition sample_inputs :: "input list" where
  "sample_inputs = [Subscribe 1 alice, Subscribe 1 bob, Subscribe 2 bob]"

definition alice_sub :: OwnRegistrationSubscription where
  "alice_sub = (Own_init sample_env False 1 alice)\<lparr>mActive := True\<rparr>"

definition bob_client :: Client where
  "bob_client = \<lparr>mSubscribeEvent = Some 0, mTo = bob, mParticipantDevices = []\<rparr>"

definition sample_world :: world where
  "sample_world =
     \<lparr>subs = [0 \<mapsto> Own alice_sub,
              1 \<mapsto> External (External_init False 1 bob (Some 0)),
              2 \<mapsto> External (External_init False 2 bob (Some 0))],
      next_sub = 3, clients = [0 \<mapsto> bob_client], use_count = (\<lambda>_. 0)(0 := 2), next_client = 1,
      next_event = 1,
      mSubscriptions = [(''alice@local'', 0), (''bob@ext'', 1), (''bob@ext'', 2)],
      mClients = [''sip:bob@ext'' \<mapsto> 0],
      mRegEventClientFactory = \<lparr>mUseCount = 1, mSubscriptionRefreshDelay = 600\<rparr>,
      calls = [DbFetch ''sip:alice@local'' 0, DbSubscribe ''sip:alice@local'' False 0,
               CoreAddListener, AddObserver 0 1, CreateSubscribe 0 bob ''reg'' 600,
               AddCustomHeader 0 ''Accept'' ''application/reginfo+xml'', SetData 0 0,
               SendSubscribe 0, AddObserver 0 2, SetParticipantDevices 2 bob []]\<rparr>"

lemmas model_defs = world_init_def emit_def make_client_def acquireClient_def release_client_def
  External_start_def External_stop_def sub_start_def sub_stop_def sub_release_def
  addSubscription_def findSubscription_def removeSubscription_def removeAllSubscriptions_def
  new_sub_def OwnFactory_create_def ExternalFactory_create_def startSubscription_def
  subscribe_def unsubscribe_def unsubscribeAll_def getSubscriptionKey_def
  mm_insert_def mm_lower_def mm_range_def mm_upper_def mm_erase_def
  Own_start_def Own_stop_def Client_init_def Client_subscribe_def Client_unsubscribe_def
  Client_destroy_def registerClient_def unregisterClient_def ClientFactory_init_def
  External_callback_def External_onNotifyReceived_def External_onRefreshed_def notify_def
  notifyRegistration_def

lemmas sample_defs = sample_srv_def sample_address_def sample_env_def alice_def bob_def
  alice_sub_def bob_client_def sample_inputs_def



lemma sample_run: "run sample_env sample_srv sample_inputs (world_init 600) = Inr sample_world"
  by (simp add: sample_world_def model_defs sample_defs Let_def Own_init_def External_init_def
      RegistrationSubscription.extend_def RegistrationSubscription_init_def
      isContactCompatible_def less_char_def numeral_2_eq_2)

lemma sample_reachable: "reachable False sample_world"
  by (rule run_reachable [OF reachable.start _ _ sample_run])
    (simp_all add: sample_env_def sample_inputs_def request_def)

section \<open>Safety of every step\<close>

text \<open>
  C1. In every reachable state, every input the linked code can give is processed to the end, with a
  single exception: a NOTIFY with a device whose address cannot be parsed, of which the library makes
  no identity or which the program logs, makes it use a null pointer. No input makes it use a
  destroyed subscription or client, or an error of another kind; in particular the client stored in
  an event is alive whenever the event is reported.
\<close>

theorem step_no_fault:
  assumes "reachable g w" and "useGlobalDomain E = g" and "admissible i w"
  shows "(\<exists>w'. step E srv i w = Inr w' \<and> reachable g w')
    \<or> step E srv i w = Inl NullDeref \<and> \<not> readable E i"
  using step_inv_cases [OF reachable_inv [OF assms(1)] assms(2,3), of srv]
    reachable.step [OF assms, of srv]
  by (cases "step E srv i w") (auto simp del: step.simps)

theorem step_no_fault_witness:
  "\<exists>w'. step sample_env sample_srv (CoreNotify 0 None [2, 1]) sample_world = Inr w'
     \<and> reachable False w'"
proof -
  have "(\<exists>w'. step sample_env sample_srv (CoreNotify 0 None [2, 1]) sample_world = Inr w' \<and> reachable False w')
    \<or> step sample_env sample_srv (CoreNotify 0 None [2, 1]) sample_world = Inl NullDeref
      \<and> \<not> readable sample_env (CoreNotify 0 None [2, 1])"
  proof (rule step_no_fault [OF sample_reachable])
    show "useGlobalDomain sample_env = False" by (simp add: sample_env_def)
    show "admissible (CoreNotify 0 None [2, 1]) sample_world"
      by (auto simp: admissible_def sample_world_def event_data_def observers_def upd_defs)
  qed
  then show ?thesis by (auto simp: readable_def simp del: step.simps)
qed

section \<open>The store\<close>

text \<open>What the store amounts to: which participant is followed for which chat room.\<close>

definition store_abs :: "world \<Rightarrow> (string \<times> chatroom) set" where
  "store_abs w = {(k, r). \<exists>s. (k, s) \<in> set (mSubscriptions w) \<and> room_of (subs w) s = Some r}"

lemma store_abs_eq:
  assumes "inv_store (subs w) n (mSubscriptions w)"
  shows "store_abs w = (\<lambda>(k, s). (k, the (room_of (subs w) s))) ` set (mSubscriptions w)"
  using assms by (force simp: store_abs_def inv_store_def room_of_def)

lemma sub_start_room: "sub_start E s w = Inr w' \<Longrightarrow>
    room_of (subs w') = room_of (subs w) \<and> mSubscriptions w' = mSubscriptions w"
  by (auto simp: sub_start_def External_start_def Own_start_def Let_def case_prod_beta room_of_def
      fun_eq_iff bindE_eq_Inr_iff split: option.splits subscription.splits if_splits)

lemma acquireClient_frame:
  "subs (snd (acquireClient a w)) = subs w"
  "mSubscriptions (snd (acquireClient a w)) = mSubscriptions w"
  "next_sub (snd (acquireClient a w)) = next_sub w"
  by (simp_all add: acquireClient_def make_client_def Let_def case_prod_beta split: option.split)

lemma startSubscription_store:
  assumes w': "startSubscription E create a w = Inr w'"
    and create: "create w = new_sub sub w1" and r: "sub_room sub = r"
    and same: "subs w1 = subs w" "mSubscriptions w1 = mSubscriptions w" "next_sub w1 = next_sub w"
    and I: "inv_store (subs w) (next_sub w) (mSubscriptions w)"
  shows "store_abs w' = insert (getSubscriptionKey a, r) (store_abs w)"
proof -
  let ?n = "next_sub w"
  have w1: "room_of (subs w') = room_of ((subs w)(?n \<mapsto> sub))"
    "mSubscriptions w' = mm_insert (getSubscriptionKey a) ?n (mSubscriptions w)"
    using sub_start_room w' same
    by (auto simp: startSubscription_def create new_sub_def addSubscription_def dest!: sub_start_room)
  have "s \<noteq> ?n" if "(k, s) \<in> set (mSubscriptions w)" for k s
    using I that by (fastforce simp: inv_store_def)
  then show ?thesis
    using r by (auto simp: store_abs_def w1 set_mm_insert room_of_def)
qed

lemma subscribe_eq:
  assumes "world_inv {} g w"
  shows "subscribe E srv r a w =
    (if (getSubscriptionKey a, r) \<in> store_abs w then Inr w
     else if getDomain a \<in> set (getLocalDomains srv)
     then startSubscription E (OwnFactory_create E (capabilityCheckEnabled srv) r a) a w
     else startSubscription E (ExternalFactory_create (capabilityCheckEnabled srv) r a) a w)"
proof -
  have "findSubscription r a w = Inr ((getSubscriptionKey a, r) \<in> store_abs w)"
    unfolding findSubscription_eq [OF assms] store_abs_def by simp
  then show ?thesis by (simp add: subscribe_def)
qed

lemma subscribe_store:
  assumes I: "world_inv {} g w" and w': "subscribe E srv r a w = Inr w'"
  shows "store_abs w' = insert (getSubscriptionKey a, r) (store_abs w)"
proof (cases "(getSubscriptionKey a, r) \<in> store_abs w")
  case True
  with w' show ?thesis by (simp add: subscribe_eq [OF I] insert_absorb)
next
  case False
  let ?chk = "capabilityCheckEnabled srv"
  from False w' have st:
    "(if getDomain a \<in> set (getLocalDomains srv)
      then startSubscription E (OwnFactory_create E ?chk r a) a w
      else startSubscription E (ExternalFactory_create ?chk r a) a w) = Inr w'"
    by (simp add: subscribe_eq [OF I])
  show ?thesis
  proof (cases "getDomain a \<in> set (getLocalDomains srv)")
    case True
    with st have "startSubscription E (OwnFactory_create E ?chk r a) a w = Inr w'" by simp
    from startSubscription_store [OF this OwnFactory_create_def] show ?thesis
      by (simp add: invD(1) [OF I])
  next
    case False
    let ?c = "fst (acquireClient a w)"
    have "ExternalFactory_create ?chk r a w =
        new_sub (External (External_init ?chk r a (Some ?c))) (snd (acquireClient a w))"
      by (simp add: ExternalFactory_create_def case_prod_beta)
    moreover from False st have "startSubscription E (ExternalFactory_create ?chk r a) a w = Inr w'"
      by simp
    ultimately show ?thesis
      using startSubscription_store invD(1) [OF I] by (simp add: acquireClient_frame)
  qed
qed

text \<open>
  C2. The multimap with its loops implements a set of pairs (participant key, chat room):
  \<^verbatim>\<open>subscribe\<close> inserts a pair, \<^verbatim>\<open>unsubscribe\<close> removes exactly that pair, \<^verbatim>\<open>unsubscribeAll\<close>
  removes all, and no callback changes the set.
\<close>

theorem store_refines_set:
  assumes "reachable g w" and "useGlobalDomain E = g" and "admissible i w"
    and "step E srv i w = Inr w'"
  shows "store_abs w' =
    (case i of
       Subscribe r a \<Rightarrow> insert (getSubscriptionKey a, r) (store_abs w)
     | Unsubscribe r a \<Rightarrow> store_abs w - {(getSubscriptionKey a, r)}
     | UnsubscribeAll \<Rightarrow> {}
     | _ \<Rightarrow> store_abs w)"
proof -
  note I = reachable_inv [OF assms(1)]
  have same: "subs w' = subs w \<and> mSubscriptions w' = mSubscriptions w"
    if "\<not> request i"
    using that assms(4)
    by (cases i) (auto simp: request_def onRecordFound_def onContactRegistered_def
        ClientFactory_onNotifyReceived_def ClientFactory_onSubscriptionStateChanged_def
        bindE_eq_Inr_iff split: option.splits subscription.splits sum.splits prod.splits notify_error.splits)
  show ?thesis
  proof (cases i)
    case (Subscribe r a)
    with assms(4) show ?thesis by (simp add: subscribe_store [OF I])
  next
    case (Unsubscribe r a)
    obtain w1 where w1: "unsubscribe E r a w = Inr w1"
      and m: "set (mSubscriptions w1) = {(k, s) \<in> set (mSubscriptions w).
        k = getSubscriptionKey a \<longrightarrow> room_of (subs w) s \<noteq> Some r}"
      and rm: "\<forall>(k, s) \<in> set (mSubscriptions w1). room_of (subs w1) s = room_of (subs w) s"
      using unsubscribe_keeps [OF I assms(2)] by blast
    from w1 assms(4) have w': "w' = w1" by (simp add: Unsubscribe)
    have "(k, s) \<in> set (mSubscriptions w1) \<and> room_of (subs w1) s = Some r' \<longleftrightarrow>
        (k, s) \<in> set (mSubscriptions w) \<and> room_of (subs w) s = Some r'
      \<and> (k, r') \<noteq> (getSubscriptionKey a, r)" for k s r'
    proof (cases "(k, s) \<in> set (mSubscriptions w1)")
      case True
      with rm have "room_of (subs w1) s = room_of (subs w) s" by blast
      with True m show ?thesis by auto
    next
      case False
      with m show ?thesis by auto
    qed
    then show ?thesis unfolding w' store_abs_def Unsubscribe by auto
  next
    case UnsubscribeAll
    obtain w1 where "unsubscribeAll E w = Inr w1" "mSubscriptions w1 = []"
      using unsubscribeAll_keeps [OF I assms(2)] by blast
    with assms(4) UnsubscribeAll show ?thesis by (simp add: store_abs_def)
  qed (use same in \<open>simp_all add: request_def store_abs_def\<close>)
qed

lemma sample_useGlobalDomain [simp]: "useGlobalDomain sample_env = False"
  by (simp add: sample_env_def)

lemma sample_leave:
  obtains w' where "step sample_env sample_srv (Unsubscribe 1 bob) sample_world = Inr w'"
  using step_keeps [OF reachable_inv [OF sample_reachable], of sample_env "Unsubscribe 1 bob"]
  by (auto simp: admissible_def readable_def)

theorem store_refines_set_witness:
  "\<exists>w'. step sample_env sample_srv (Unsubscribe 1 bob) sample_world = Inr w'
     \<and> store_abs w' = store_abs sample_world - {(''bob@ext'', 1)}"
proof -
  obtain w' where w': "step sample_env sample_srv (Unsubscribe 1 bob) sample_world = Inr w'"
    using sample_leave by blast
  moreover have "store_abs w' = store_abs sample_world - {(getSubscriptionKey bob, 1)}"
    using store_refines_set [OF sample_reachable _ _ w'] by (simp add: admissible_def)
  then have "store_abs w' = store_abs sample_world - {(''bob@ext'', 1)}"
    by (simp add: getSubscriptionKey_def bob_def sample_address_def)
  ultimately show ?thesis by blast
qed

text \<open>
  C14. In every reachable state the store holds at most one subscription per participant and chat
  room, each of them is a live object stored under the key of its participant, and the entries
  are sorted by key.
\<close>

theorem store_wellformed:
  assumes "reachable g w"
  shows "mm_sorted (mSubscriptions w) \<and> distinct (map snd (mSubscriptions w))
    \<and> (\<forall>(k, s) \<in> set (mSubscriptions w).
         \<exists>sub. subs w s = Some sub \<and> k = getSubscriptionKey (sub_participant sub))
    \<and> (\<forall>k r. length (filter (\<lambda>(k', s). k' = k \<and> room_of (subs w) s = Some r)
                        (mSubscriptions w)) \<le> 1)"
proof -
  note J = invD(1) [OF reachable_inv [OF assms], unfolded inv_store_def]
  have "length (filter (\<lambda>(k', s). k' = k \<and> room_of (subs w) s = Some r) (mSubscriptions w)) \<le> 1"
    (is "length ?f \<le> 1") for k r
  proof -
    have "distinct ?f" using J by (simp add: distinct_map)
    moreover have "p = q" if "p \<in> set ?f" "q \<in> set ?f" for p q
    proof -
      note pq_in = that
      then obtain s1 s2 where pq: "p = (k, s1)" "q = (k, s2)" by auto
      with pq_in have "(k, s1) \<in> set (mSubscriptions w)" "(k, s2) \<in> set (mSubscriptions w)"
        "room_of (subs w) s1 = room_of (subs w) s2" by simp_all
      with J have "s1 = s2" by blast
      with pq show ?thesis by simp
    qed
    ultimately show ?thesis
      by (metis One_nat_def card_le_Suc0_iff_eq distinct_card finite_set)
  qed
  with J show ?thesis by blast
qed

theorem store_wellformed_witness:
  "length (filter (\<lambda>(k', s). k' = ''bob@ext'' \<and> room_of (subs sample_world) s = Some 2)
     (mSubscriptions sample_world)) \<le> 1"
  using store_wellformed [OF sample_reachable] by blast

text \<open>
  \<^verbatim>\<open>subscribe\<close> is idempotent: asking again for the same participant and chat room does
  nothing, whatever the local domains and the capability checking are by then.
\<close>

lemma subscribe_idempotent:
  assumes "reachable g w" and "useGlobalDomain E = g" and "subscribe E srv r a w = Inr w'"
  shows "subscribe E' srv' r a w' = Inr w'"
proof -
  have I: "world_inv {} g w" using assms(1) by (rule reachable_inv)
  have "world_inv {} g w'"
    using subscribe_keeps [OF I assms(2)] assms(3) by (metis sum.inject(2))
  moreover have "(getSubscriptionKey a, r) \<in> store_abs w'"
    using subscribe_store [OF I assms(3)] by simp
  ultimately show ?thesis by (simp add: subscribe_eq)
qed

lemma sample_again: "subscribe sample_env sample_srv 2 bob sample_world = Inr sample_world"
  by (simp add: subscribe_def findSubscription_def sample_world_def sample_defs getSubscriptionKey_def
      mm_range_def)

section \<open>Clients, dialogs and the core listener\<close>

lemma live_client_held:
  assumes I: "world_inv {} g w" and "clients w c = Some k"
  obtains s x where "s \<in> stored (mSubscriptions w)" "subs w s = Some (External x)"
    "mClient x = Some c"
proof -
  note J = invD [OF I]
  from assms(2) J(2) have "0 < card (holders (subs w) c)" unfolding inv_refs_def by (metis domI)
  then obtain s where "s \<in> holders (subs w) c" by (auto simp: card_gt_0_iff)
  then obtain x where x: "subs w s = Some (External x)" "mClient x = Some c"
    by (auto simp: holders_def)
  with J(2) have "s \<in> stored (mSubscriptions w)" unfolding inv_refs_def by blast
  with x that show thesis by blast
qed

text \<open>
  C7. In every reachable state two live clients never have the same ordered URI, so all chat
  rooms that follow a participant of an external domain share one client; a client is alive
  exactly while a stored subscription uses it, and the reference count is the number of these.
\<close>

theorem one_client_per_uri:
  assumes "reachable g w"
  shows "(\<forall>c k c' k'. clients w c = Some k \<and> clients w c' = Some k'
          \<and> asStringUriOnlyOrdered (mTo k) = asStringUriOnlyOrdered (mTo k') \<longrightarrow> c = c')
    \<and> (\<forall>c. clients w c \<noteq> None \<longleftrightarrow>
          (\<exists>s x. s \<in> stored (mSubscriptions w) \<and> subs w s = Some (External x) \<and> mClient x = Some c))
    \<and> (\<forall>c. use_count w c =
          card {s. \<exists>x. s \<in> stored (mSubscriptions w) \<and> subs w s = Some (External x) \<and> mClient x = Some c})"
proof (intro conjI allI impI)
  note I = reachable_inv [OF assms]
  note J = invD [OF I]
  fix c k c' k'
  assume "clients w c = Some k \<and> clients w c' = Some k'
    \<and> asStringUriOnlyOrdered (mTo k) = asStringUriOnlyOrdered (mTo k')"
  with J(5) show "c = c'" unfolding inv_clients_def by (metis option.inject)
next
  note I = reachable_inv [OF assms]
  note J = invD [OF I]
  fix c
  have st: "s \<in> stored (mSubscriptions w)" if "subs w s = Some (External x)" for s x
    using J(2) that unfolding inv_refs_def by blast
  show "clients w c \<noteq> None \<longleftrightarrow>
    (\<exists>s x. s \<in> stored (mSubscriptions w) \<and> subs w s = Some (External x) \<and> mClient x = Some c)"
  proof
    assume "clients w c \<noteq> None"
    then show "\<exists>s x. s \<in> stored (mSubscriptions w) \<and> subs w s = Some (External x) \<and> mClient x = Some c"
      using live_client_held [OF I] by (metis not_Some_eq)
  next
    assume "\<exists>s x. s \<in> stored (mSubscriptions w) \<and> subs w s = Some (External x) \<and> mClient x = Some c"
    then show "clients w c \<noteq> None"
      using J(2) unfolding inv_refs_def by (metis domIff option.inject)
  qed
  show "use_count w c =
      card {s. \<exists>x. s \<in> stored (mSubscriptions w) \<and> subs w s = Some (External x) \<and> mClient x = Some c}"
    using J(2) st by (auto simp: inv_refs_def holders_def intro!: arg_cong [where f = card])
qed

theorem one_client_per_uri_witness:
  "use_count sample_world 0 = card {s. \<exists>x. s \<in> stored (mSubscriptions sample_world)
     \<and> subs sample_world s = Some (External x) \<and> mClient x = Some 0}
   \<and> use_count sample_world 0 = 2"
proof
  show "use_count sample_world 0 = card {s. \<exists>x. s \<in> stored (mSubscriptions sample_world)
     \<and> subs sample_world s = Some (External x) \<and> mClient x = Some 0}"
    using one_client_per_uri [OF sample_reachable] by blast
  show "use_count sample_world 0 = 2" by (simp add: sample_world_def)
qed

end
