(* ===== verification/Delivery.thy ===== *)
theory Delivery
  imports WorldProps
begin

text \<open>
  Dialogs, listeners and what is delivered to the chat rooms: no leak and no missing dialog, the
  order of the calls, the fan-out of a NOTIFY and the ones that fault, the registrar database, complete
  teardown.
\<close>

section \<open>Nothing leaks\<close>

text \<open>
  C4. In every reachable state an open SUBSCRIBE dialog is the current dialog of a live client
  and some stored subscription follows its address; the event of such a dialog, and no other
  event, names that client. So leaving the last chat room ends the dialog.
\<close>

theorem dialogs_match_clients:
  assumes "reachable g w"
  shows "(\<forall>e a. open_dialogs (calls w) e = Some a \<longleftrightarrow>
           (\<exists>c k. clients w c = Some k \<and> mSubscribeEvent k = Some e \<and> mTo k = a))
    \<and> (\<forall>e c. event_data (calls w) e = Some c \<longleftrightarrow>
           (\<exists>k. clients w c = Some k \<and> mSubscribeEvent k = Some e))
    \<and> (\<forall>e a. open_dialogs (calls w) e = Some a \<longrightarrow>
           (\<exists>s x. s \<in> stored (mSubscriptions w) \<and> subs w s = Some (External x)
              \<and> asStringUriOnlyOrdered (mParticipant x) = asStringUriOnlyOrdered a))"
proof (intro conjI)
  note I = reachable_inv [OF assms]
  note J = invD [OF I]
  show D: "\<forall>e a. open_dialogs (calls w) e = Some a \<longleftrightarrow>
      (\<exists>c k. clients w c = Some k \<and> mSubscribeEvent k = Some e \<and> mTo k = a)"
    using J(4) unfolding inv_events_def by blast
  show "\<forall>e c. event_data (calls w) e = Some c \<longleftrightarrow>
      (\<exists>k. clients w c = Some k \<and> mSubscribeEvent k = Some e)"
    using J(4) unfolding inv_events_def by blast
  show "\<forall>e a. open_dialogs (calls w) e = Some a \<longrightarrow>
      (\<exists>s x. s \<in> stored (mSubscriptions w) \<and> subs w s = Some (External x)
         \<and> asStringUriOnlyOrdered (mParticipant x) = asStringUriOnlyOrdered a)"
  proof (intro allI impI)
    fix e a assume "open_dialogs (calls w) e = Some a"
    with D obtain c k where k: "clients w c = Some k" "mTo k = a" by blast
    obtain s x where x: "s \<in> stored (mSubscriptions w)" "subs w s = Some (External x)" "mClient x = Some c"
      using live_client_held [OF I k(1)] by blast
    with k J(5) have "asStringUriOnlyOrdered (mParticipant x) = asStringUriOnlyOrdered a"
      unfolding inv_clients_def by metis
    with x show "\<exists>s x. s \<in> stored (mSubscriptions w) \<and> subs w s = Some (External x)
         \<and> asStringUriOnlyOrdered (mParticipant x) = asStringUriOnlyOrdered a" by blast
  qed
qed

lemma sample_dialog: "open_dialogs (calls sample_world) 0 = Some bob"
  by (simp add: sample_world_def open_dialogs_def upd_dialogs_def)

theorem dialogs_match_clients_witness:
  "\<exists>s x. s \<in> stored (mSubscriptions sample_world) \<and> subs sample_world s = Some (External x)
     \<and> asStringUriOnlyOrdered (mParticipant x) = asStringUriOnlyOrdered bob"
  using dialogs_match_clients [OF sample_reachable] sample_dialog by blast

text \<open>
  C20. In every reachable state the client factory listens to the core exactly while some stored
  subscription is an external one, and its use count is the number of live clients.
\<close>

theorem factory_listens_iff_used:
  assumes "reachable g w"
  shows "(core_listening (calls w) \<longleftrightarrow>
           (\<exists>s x. s \<in> stored (mSubscriptions w) \<and> subs w s = Some (External x)))
    \<and> mUseCount (mRegEventClientFactory w) = int (card (dom (clients w)))"
proof
  note I = reachable_inv [OF assms]
  note J = invD [OF I]
  have "core_listening (calls w) \<longleftrightarrow> dom (clients w) \<noteq> {}"
    using J(6) by (auto simp: inv_factory_def fac.consistent_def card_gt_0_iff)
  also have "\<dots> \<longleftrightarrow> (\<exists>s x. s \<in> stored (mSubscriptions w) \<and> subs w s = Some (External x))"
  proof
    assume "dom (clients w) \<noteq> {}"
    then obtain c k where "clients w c = Some k" by (metis domD ex_in_conv)
    then show "\<exists>s x. s \<in> stored (mSubscriptions w) \<and> subs w s = Some (External x)"
      using live_client_held [OF I] by metis
  next
    assume "\<exists>s x. s \<in> stored (mSubscriptions w) \<and> subs w s = Some (External x)"
    then show "dom (clients w) \<noteq> {}" using J(2) unfolding inv_refs_def by blast
  qed
  finally show "core_listening (calls w) \<longleftrightarrow>
    (\<exists>s x. s \<in> stored (mSubscriptions w) \<and> subs w s = Some (External x))" .
  show "mUseCount (mRegEventClientFactory w) = int (card (dom (clients w)))"
    using J(6) by (simp add: inv_factory_def)
qed

theorem factory_listens_iff_used_witness:
  "mUseCount (mRegEventClientFactory sample_world) = int (card (dom (clients sample_world)))"
  using factory_listens_iff_used [OF sample_reachable] by blast

text \<open>
  C19. In every reachable state the registrar database has as listeners exactly the own
  subscriptions of the store whose address parses, each under that address and with the global
  domain setting; and these are the active ones.
\<close>

theorem database_listeners:
  assumes "reachable g w"
  shows "db_subscriptions (calls w) =
      {(u, g', s). g' = g \<and> (\<exists>o1. s \<in> stored (mSubscriptions w) \<and> subs w s = Some (Own o1)
         \<and> mParticipantAor o1 = u \<and> u \<noteq> '''')}
    \<and> (\<forall>s o1. subs w s = Some (Own o1) \<longrightarrow>
         (mActive o1 \<longleftrightarrow> s \<in> stored (mSubscriptions w) \<and> mParticipantAor o1 \<noteq> ''''))"
proof -
  have O: "\<forall>s o1. subs w s = Some (Own o1) \<longrightarrow>
        (mActive o1 \<longleftrightarrow> s \<in> stored (mSubscriptions w) \<and> mParticipantAor o1 \<noteq> '''')"
    and D: "db_subscriptions (calls w) =
        {(u, g', s). g' = g \<and> (\<exists>o1. subs w s = Some (Own o1) \<and> mActive o1 \<and> mParticipantAor o1 = u)}"
    using invD(7) [OF reachable_inv [OF assms]] by (simp_all add: inv_own_def)
  have "(\<exists>o1. subs w s = Some (Own o1) \<and> mActive o1 \<and> mParticipantAor o1 = u) \<longleftrightarrow>
      (\<exists>o1. s \<in> stored (mSubscriptions w) \<and> subs w s = Some (Own o1) \<and> mParticipantAor o1 = u \<and> u \<noteq> '''')"
    for s u using O by blast
  with O D show ?thesis by simp
qed

theorem database_listeners_witness:
  "db_subscriptions (calls sample_world) =
     {(u, g', s). g' = False \<and> (\<exists>o1. s \<in> stored (mSubscriptions sample_world)
        \<and> subs sample_world s = Some (Own o1) \<and> mParticipantAor o1 = u \<and> u \<noteq> '''')}"
  using database_listeners [OF sample_reachable] by blast

section \<open>Teardown\<close>

lemma unsubscribeAll_keeps_released:
  assumes "reachable g w" and "useGlobalDomain E = g"
  shows "\<exists>w'. unsubscribeAll E w = Inr w' \<and> mSubscriptions w' = [] \<and> clients w' = Map.empty
    \<and> observers (calls w') = {} \<and> db_subscriptions (calls w') = {}
    \<and> open_dialogs (calls w') = Map.empty \<and> event_data (calls w') = Map.empty
    \<and> \<not> core_listening (calls w') \<and> mUseCount (mRegEventClientFactory w') = 0"
proof -
  obtain w' where w': "unsubscribeAll E w = Inr w'" "world_inv {} g w'" "mSubscriptions w' = []"
    using unsubscribeAll_keeps [OF reachable_inv [OF assms(1)] assms(2)] by blast
  note I = w'(2)
  note J = invD [OF I]
  have st: "stored (mSubscriptions w') = {}" by (simp add: w' stored_def)
  then have "holders (subs w') c = {}" for c
    using J(2) unfolding inv_refs_def holders_def by blast
  then have obs: "observers (calls w') = {}" using J(3) by (simp add: inv_obs_def)
  have "clients w' c = None" for c
    using live_client_held [OF I] st by (metis empty_iff not_Some_eq)
  then have cl: "clients w' = Map.empty" by (rule ext)
  have "open_dialogs (calls w') e = None" "event_data (calls w') e = None" for e
    using J(4) unfolding inv_events_def cl by (metis not_Some_eq option.distinct(1))+
  then have "open_dialogs (calls w') = Map.empty" "event_data (calls w') = Map.empty"
    by (intro ext; simp)+
  moreover have "\<not> core_listening (calls w')" "mUseCount (mRegEventClientFactory w') = 0"
    using J(6) by (simp_all add: inv_factory_def cl fac.consistent_def)
  moreover have "db_subscriptions (calls w') = {}"
    using J(7) st unfolding inv_own_def by auto
  ultimately show ?thesis using w' obs cl by blast
qed

text \<open>
  C8. \<^verbatim>\<open>unsubscribeAll\<close> releases everything: no subscription in the store, no client, no
  observer, no listener of the registrar database, no open dialog, no event data, and the factory
  no longer listens to the core.
\<close>

theorem unsubscribeAll_releases:
  assumes "reachable g w" and "useGlobalDomain E = g"
  shows "\<exists>w'. unsubscribeAll E w = Inr w' \<and> mSubscriptions w' = [] \<and> clients w' = Map.empty
    \<and> observers (calls w') = {} \<and> db_subscriptions (calls w') = {}
    \<and> open_dialogs (calls w') = Map.empty \<and> event_data (calls w') = Map.empty
    \<and> \<not> core_listening (calls w') \<and> mUseCount (mRegEventClientFactory w') = 0"
  using assms by (rule unsubscribeAll_keeps_released)

theorem unsubscribeAll_releases_witness:
  "\<exists>w'. unsubscribeAll sample_env sample_world = Inr w' \<and> open_dialogs (calls w') = Map.empty"
  using unsubscribeAll_releases [OF sample_reachable sample_useGlobalDomain] by blast

section \<open>The fan-out of a NOTIFY\<close>

text \<open>
  What a subscription passes on to its chat room: a device list restricted to the devices that are
  compatible with the room, and each refreshed device that is.
\<close>

definition tells :: "env \<Rightarrow> ExternalRegistrationSubscription \<Rightarrow> listener_call \<Rightarrow> ext_call list" where
  "tells E y lc =
     (let compatible = (\<lambda>d. isContactCompatible E y (getCapabilityDescriptor E d))
      in case lc of
           OnNotifyReceived ds \<Rightarrow>
             [SetParticipantDevices (mChatRoom y) (mParticipant y) (filter compatible ds)]
         | OnRefreshed d \<Rightarrow>
             (if compatible d then [NotifyParticipantDeviceRegistration (mChatRoom y) (pdi_address d)]
              else []))"

lemma hears_tells:
  "External_callback E y lc \<noteq> Inl NullDeref \<Longrightarrow> ext.hears E y lc = tells E y lc"
  by (auto simp: ext.hears_def tells_def External_callback_def External_onNotifyReceived_def
      External_onRefreshed_def notify_def notifyRegistration_def split: listener_call.splits if_splits)

lemma told_tells:
  assumes "\<forall>lc \<in> set lcs. \<forall>y \<in> set ys. External_callback E y lc \<noteq> Inl NullDeref"
  shows "ext.told E ys lcs = concat (map (\<lambda>lc. concat (map (\<lambda>y. tells E y lc) ys)) lcs)"
  using assms hears_tells by (auto simp: ext.told_def intro!: arg_cong [of _ _ concat])

text \<open>The observers \<^verbatim>\<open>Observable::notify\<close> visits are the subscriptions that use the client.\<close>

lemma notify_outcome:
  assumes "reachable g w" and "admissible (CoreNotify e body targets) w"
    and "event_data (calls w) e = Some c" and "clients w c = Some k"
    and "Client_onNotifyReceived E body k = Inr (k', lcs)"
  obtains xs where
    "\<And>y. y \<in> set xs \<longleftrightarrow> (\<exists>s. subs w s = Some (External y) \<and> mClient y = Some c)"
    "step E srv (CoreNotify e body targets) w =
       (if \<exists>lc \<in> set lcs. \<exists>x \<in> set xs. External_callback E x lc = Inl NullDeref
        then Inl NullDeref
        else Inr (emit (ext.told E xs lcs) (w\<lparr>clients := (clients w)(c \<mapsto> k')\<rparr>)))"
proof -
  note I = reachable_inv [OF assms(1)]
  have t: "set targets = {s. (c, s) \<in> observers (calls w)}"
    using assms(2,3) by (simp add: admissible_def)
  then have t': "set targets = holders (subs w) c" using invD(3) [OF I] by (simp add: inv_obs_def)
  obtain xs where xs: "map (\<lambda>s. subs w s) targets = map (\<lambda>x. Some (External x)) xs"
    and eq: "ClientFactory_onNotifyReceived E (event_data (calls w) e) body targets w =
       (if \<exists>lc \<in> set lcs. \<exists>x \<in> set xs. External_callback E x lc = Inl NullDeref
        then Inl NullDeref
        else Inr (emit (ext.told E xs lcs) (w\<lparr>clients := (clients w)(c \<mapsto> k')\<rparr>)))"
    using notify_eq [OF I assms(3) t assms(5,4)] by blast
  have "y \<in> set xs \<longleftrightarrow> (\<exists>s. subs w s = Some (External y) \<and> mClient y = Some c)" for y
  proof -
    have "y \<in> set xs \<longleftrightarrow> Some (External y) \<in> set (map (\<lambda>x. Some (External x)) xs)" by auto
    also have "\<dots> \<longleftrightarrow> (\<exists>s \<in> holders (subs w) c. subs w s = Some (External y))"
      unfolding xs [symmetric] using t' by force
    also have "\<dots> \<longleftrightarrow> (\<exists>s. subs w s = Some (External y) \<and> mClient y = Some c)"
      by (auto simp: holders_def)
    finally show ?thesis .
  qed
  from that [OF this eq [folded step.simps(6) [where srv = srv]]] show thesis .
qed

text \<open>
  C3. A NOTIFY that the client accepts and that is processed (C22 says which ones are not) is delivered
  to exactly the stored subscriptions that use that client, each of them once per callback, and to
  nobody else: after the state of the client is updated, the only calls are, for each callback in
  order and each subscription in the order visited, the device list restricted to the devices its chat
  room is compatible with, or the refreshed device if it is compatible.
\<close>

theorem notify_fanout:
  assumes "reachable g w" and "admissible (CoreNotify e body targets) w"
    and "event_data (calls w) e = Some c" and "clients w c = Some k"
    and "Client_onNotifyReceived E body k = Inr (k', lcs)"
    and "step E srv (CoreNotify e body targets) w = Inr w'"
  shows "distinct targets
    \<and> set targets = {s. \<exists>y. s \<in> stored (mSubscriptions w) \<and> subs w s = Some (External y) \<and> mClient y = Some c}
    \<and> (\<exists>ys. map (subs w) targets = map (\<lambda>y. Some (External y)) ys
        \<and> w' = w\<lparr>clients := (clients w)(c \<mapsto> k'),
                 calls := calls w @ concat (map (\<lambda>lc. concat (map (\<lambda>y. tells E y lc) ys)) lcs)\<rparr>)"
proof (intro conjI)
  note I = reachable_inv [OF assms(1)]
  note J = invD [OF I]
  have t: "distinct targets" "set targets = {s. (c, s) \<in> observers (calls w)}"
    using assms(2,3) by (simp_all add: admissible_def)
  then show "distinct targets" by simp
  have "set targets = holders (subs w) c" using t(2) J(3) by (simp add: inv_obs_def)
  moreover have "s \<in> stored (mSubscriptions w)" if "subs w s = Some (External y)" for s y
    using J(2) that unfolding inv_refs_def by blast
  ultimately show "set targets =
      {s. \<exists>y. s \<in> stored (mSubscriptions w) \<and> subs w s = Some (External y) \<and> mClient y = Some c}"
    by (auto simp: holders_def)
  obtain ys where ys: "map (\<lambda>s. subs w s) targets = map (\<lambda>x. Some (External x)) ys"
    and eq: "ClientFactory_onNotifyReceived E (event_data (calls w) e) body targets w =
       (if \<exists>lc \<in> set lcs. \<exists>x \<in> set ys. External_callback E x lc = Inl NullDeref
        then Inl NullDeref
        else Inr (emit (ext.told E ys lcs) (w\<lparr>clients := (clients w)(c \<mapsto> k')\<rparr>)))"
    using notify_eq [OF I assms(3) t(2) assms(5,4)] by blast
  with assms(6) have "\<forall>lc \<in> set lcs. \<forall>y \<in> set ys. External_callback E y lc \<noteq> Inl NullDeref"
    and "w' = emit (ext.told E ys lcs) (w\<lparr>clients := (clients w)(c \<mapsto> k')\<rparr>)"
    by (auto split: if_splits)
  with ys show "\<exists>ys. map (subs w) targets = map (\<lambda>y. Some (External y)) ys
      \<and> w' = w\<lparr>clients := (clients w)(c \<mapsto> k'),
               calls := calls w @ concat (map (\<lambda>lc. concat (map (\<lambda>y. tells E y lc) ys)) lcs)\<rparr>"
    by (intro exI [of _ ys]) (simp add: told_tells emit_def)
qed

text \<open>Some device of a registration that is processed makes the program use a null pointer.\<close>

definition uses_null :: "env \<Rightarrow> world \<Rightarrow> client_id \<Rightarrow> Registration list \<Rightarrow> bool" where
  "uses_null E w c regs \<longleftrightarrow>
     (\<exists>reg \<in> set regs. \<exists>d. pdi_address d = None
        \<and> (d \<in> set (devices_of E reg) \<and> \<not> nullIdentity E
           \<or> d \<in> set (refreshed_of E reg) \<and> debugLogs E
             \<and> (\<exists>s y. subs w s = Some (External y) \<and> mClient y = Some c
                  \<and> isContactCompatible E y (getCapabilityDescriptor E d))))"

lemma refreshed_called:
  "OnRefreshed d \<in> set (concat (map (callbacks_of E) regs) @ (if b then [OnNotifyReceived []] else []))
     \<longleftrightarrow> (\<exists>reg \<in> set regs. d \<in> set (refreshed_of E reg))"
  by (auto simp: callbacks_of_def)

lemma null_identities:
  "list_ex (null_identity E) regs \<longleftrightarrow>
     (\<exists>reg \<in> set regs. \<exists>d. pdi_address d = None \<and> d \<in> set (devices_of E reg) \<and> \<not> nullIdentity E)"
  by (auto simp: list_ex_iff null_identity_def)

text \<open>
  C22. When a NOTIFY makes the program use a null pointer: a device in a registration that is
  processed has an address that cannot be parsed, and either the library makes no identity for it, or
  debug messages are on, it was refreshed and some chat room that follows the participant is
  compatible with it. Every other NOTIFY of a live dialog is processed. (What the library does with
  a null address that the program only passes on to it is not part of the statement.)
\<close>

theorem malformed_notify_faults:
  assumes "reachable g w" and "admissible (CoreNotify e body targets) w"
    and "event_data (calls w) e = Some c" and "clients w c = Some k"
  shows "let null = (\<exists>b regs. body = Some b \<and> parseReginfo E b = Some regs
                       \<and> uses_null E w c (before_termination (matching k regs)))
    in case step E srv (CoreNotify e body targets) w of
         Inl f \<Rightarrow> f = NullDeref \<and> null
       | Inr w' \<Rightarrow> \<not> null"
proof (cases "Client_onNotifyReceived E body k")
  case (Inl err)
  then have "step E srv (CoreNotify e body targets) w =
      (if err = NullIdentity then Inl NullDeref else Inr w)"
    using assms(3,4) by (cases err) (simp_all add: ClientFactory_onNotifyReceived_def)
  with Inl show ?thesis
    by (cases err) (auto simp: Client_onNotifyReceived_def registration_loop_eq null_identities
        uses_null_def simp del: step.simps split: option.splits if_splits)
next
  case (Inr r)
  then obtain k' lcs where r: "Client_onNotifyReceived E body k = Inr (k', lcs)" by (cases r) simp
  obtain b regs where b: "body = Some b" "parseReginfo E b = Some regs"
    and n: "\<not> list_ex (null_identity E) (before_termination (matching k regs))"
    and lcs: "lcs = concat (map (callbacks_of E) (before_termination (matching k regs)))
       @ (if terminates (matching k regs) then [OnNotifyReceived []] else [])"
    using r by (rule onNotifyReceived_InrD)
  obtain xs where
    in_xs: "\<And>y. y \<in> set xs \<longleftrightarrow> (\<exists>s. subs w s = Some (External y) \<and> mClient y = Some c)"
    and eq: "step E srv (CoreNotify e body targets) w =
       (if \<exists>lc \<in> set lcs. \<exists>x \<in> set xs. External_callback E x lc = Inl NullDeref
        then Inl NullDeref
        else Inr (emit (ext.told E xs lcs) (w\<lparr>clients := (clients w)(c \<mapsto> k')\<rparr>)))"
    using notify_outcome [OF assms r, where srv = srv] by blast
  have "(\<exists>lc \<in> set lcs. \<exists>x \<in> set xs. External_callback E x lc = Inl NullDeref) \<longleftrightarrow>
      debugLogs E \<and> (\<exists>d. OnRefreshed d \<in> set lcs \<and> pdi_address d = None
        \<and> (\<exists>s y. subs w s = Some (External y) \<and> mClient y = Some c
             \<and> isContactCompatible E y (getCapabilityDescriptor E d)))"
    unfolding External_callback_fails_iff Bex_def in_xs by blast
  also have "\<dots> \<longleftrightarrow> uses_null E w c (before_termination (matching k regs))"
    using n unfolding lcs refreshed_called null_identities uses_null_def by blast
  finally show ?thesis unfolding eq by (simp add: b)
qed

text \<open>A NOTIFY with a refreshed device without an address.\<close>

definition malformed_reg :: Registration where
  "malformed_reg = \<lparr>reg_aor = ''sip:bob@ext'', reg_state = RActive,
     reg_contacts = [\<lparr>contact_uri = ''?'', contact_displayName = None,
       contact_unknownParams = [(''+org.linphone.specs'', ''lime'')], contact_event = Refreshed\<rparr>]\<rparr>"

definition malformed_env :: env where
  "malformed_env = sample_env\<lparr>createAddress := (\<lambda>_. None), parseReginfo := (\<lambda>_. Some [malformed_reg])\<rparr>"

definition terminated_reg :: Registration where
  "terminated_reg = \<lparr>reg_aor = ''sip:bob@ext'', reg_state = RTerminated, reg_contacts = []\<rparr>"

definition notify_env :: env where
  "notify_env = sample_env\<lparr>parseReginfo := (\<lambda>_. Some [terminated_reg])\<rparr>"

lemma sample_notify_admissible: "admissible (CoreNotify 0 (Some ''x'') [2, 1]) sample_world"
  by (auto simp: admissible_def sample_world_def event_data_def observers_def upd_defs)

lemma sample_notify_readable: "readable notify_env (CoreNotify 0 (Some ''x'') [2, 1])"
  by (simp add: readable_def notify_env_def terminated_reg_def)

lemma sample_event: "event_data (calls sample_world) 0 = Some 0"
  "clients sample_world 0 = Some bob_client"
  by (simp_all add: sample_world_def event_data_def upd_data_def)

lemma notify_env_result:
  "Client_onNotifyReceived notify_env (Some ''x'') bob_client = Inr (bob_client, [OnNotifyReceived []])"
  by (simp add: Client_onNotifyReceived_def notify_env_def terminated_reg_def bob_client_def bob_def
      sample_address_def)

text \<open>A NOTIFY with a new and a refreshed device, then one registration that ended.\<close>

definition device_contact :: "string \<Rightarrow> contact_event \<Rightarrow> Contact" where
  "device_contact u ev = \<lparr>contact_uri = u, contact_displayName = None,
     contact_unknownParams = [(''+sip.x'', ''y''), (''+org.linphone.specs'', ''lime'')], contact_event = ev\<rparr>"

definition active_reg :: Registration where
  "active_reg = \<lparr>reg_aor = ''sip:bob@ext'', reg_state = RActive,
     reg_contacts = [device_contact ''a'' Created, device_contact ''b'' Refreshed]\<rparr>"

definition active_env :: env where
  "active_env = sample_env\<lparr>parseReginfo := (\<lambda>_. Some [active_reg, active_reg\<lparr>reg_aor := ''other''\<rparr>])\<rparr>"

theorem onNotifyReceived_spec_witness:
  "Client_onNotifyReceived active_env (Some ''x'') bob_client =
     Inr (bob_client\<lparr>mParticipantDevices := devices_of active_env active_reg\<rparr>,
          [OnRefreshed (devices_of active_env active_reg ! 1), OnNotifyReceived (devices_of active_env active_reg)])"
proof -
  have "parseReginfo active_env ''x'' = Some [active_reg, active_reg\<lparr>reg_aor := ''other''\<rparr>]"
    by (simp add: active_env_def)
  from onNotifyReceived_spec [OF this, of bob_client] show ?thesis
    by (simp add: matching_def terminates_def before_termination_def callbacks_of_def active_reg_def
        device_contact_def devices_of_def refreshed_of_def contact_device_def map_filter_Cons_eq
        null_identity_def List.map_filter_def active_env_def sample_env_def bob_client_def bob_def sample_address_def)
qed

text \<open>
  C26. A NOTIFY whose registration has refreshed contacts only replaces the list the client keeps
  without telling it to the chat rooms: devices that are gone since the last one, even all of them,
  are not reported, and only a chat room that joins later is told the new list. (As for any NOTIFY,
  the processing breaks off if the library makes no identity for a device without an address.)
\<close>

theorem refreshed_only_not_reported:
  assumes "parseReginfo E text = Some [reg]" and "reg_aor reg = asStringUriOnly (mTo cl)"
    and "reg_state reg \<noteq> RTerminated" and "\<forall>c \<in> set (reg_contacts reg). contact_event c = Refreshed"
  shows "Client_onNotifyReceived E (Some text) cl =
      (if null_identity E reg then Inl NullIdentity
       else Inr (cl\<lparr>mParticipantDevices := devices_of E reg\<rparr>, map OnRefreshed (devices_of E reg)))
    \<and> (\<forall>cl' lcs. Client_onNotifyReceived E (Some text) cl = Inr (cl', lcs) \<longrightarrow>
         mSubscribeEvent cl \<noteq> None \<longrightarrow>
           Client_subscribe delay c ev cl' = (cl', [], [OnNotifyReceived (devices_of E reg)]))"
proof -
  have "refreshed_of E reg = devices_of E reg"
    using assms(4) by (simp add: refreshed_of_def devices_of_def)
  with assms(1-3) have "Client_onNotifyReceived E (Some text) cl =
      (if null_identity E reg then Inl NullIdentity
       else Inr (cl\<lparr>mParticipantDevices := devices_of E reg\<rparr>, map OnRefreshed (devices_of E reg)))"
    by (simp add: Client_onNotifyReceived_def registration_loop_eq matching_def terminates_def
        before_termination_def callbacks_of_def)
  then show ?thesis by (auto simp: Client_subscribe_def split: if_splits)
qed

definition gone_env :: env where
  "gone_env = sample_env\<lparr>parseReginfo := (\<lambda>_. Some [active_reg\<lparr>reg_contacts := []\<rparr>])\<rparr>"

theorem refreshed_only_not_reported_witness:
  "Client_onNotifyReceived gone_env (Some ''x'')
     (bob_client\<lparr>mParticipantDevices := devices_of active_env active_reg\<rparr>) =
   Inr (bob_client\<lparr>mParticipantDevices := []\<rparr>, [])"
proof -
  have p: "parseReginfo gone_env ''x'' = Some [active_reg\<lparr>reg_contacts := []\<rparr>]"
    by (simp add: gone_env_def)
  show ?thesis
    using refreshed_only_not_reported [OF p, of "bob_client\<lparr>mParticipantDevices := devices_of active_env active_reg\<rparr>"]
    by (simp add: active_reg_def bob_client_def bob_def sample_address_def devices_of_def List.map_filter_def
        null_identity_def)
qed

theorem notify_fanout_witness:
  "\<exists>w'. step notify_env sample_srv (CoreNotify 0 (Some ''x'') [2, 1]) sample_world = Inr w'
     \<and> calls w' = calls sample_world @ [SetParticipantDevices 2 bob [], SetParticipantDevices 1 bob []]"
proof -
  let ?x = "\<lambda>r. External_init False r bob (Some 0)"
  have x: "map (subs sample_world) [2, 1] = map (\<lambda>y. Some (External y)) [?x 2, ?x 1]"
    by (simp add: sample_world_def)
  obtain w' where w': "step notify_env sample_srv (CoreNotify 0 (Some ''x'') [2, 1]) sample_world = Inr w'"
    using step_keeps [OF reachable_inv [OF sample_reachable] _ sample_notify_admissible sample_notify_readable]
    by (auto simp: notify_env_def sample_env_def)
  from notify_fanout [OF sample_reachable sample_notify_admissible sample_event notify_env_result w']
  obtain ys where "map (subs sample_world) [2, 1] = map (\<lambda>y. Some (External y)) ys"
    and c: "w' = sample_world\<lparr>clients := (clients sample_world)(0 \<mapsto> bob_client), calls := calls sample_world
      @ concat (map (\<lambda>lc. concat (map (\<lambda>y. tells notify_env y lc) ys)) [OnNotifyReceived []])\<rparr>"
    by blast
  with x have "ys = [?x 2, ?x 1]" by (auto simp: map_eq_Cons_conv)
  then have "calls w' = calls sample_world @ [SetParticipantDevices 2 bob [], SetParticipantDevices 1 bob []]"
    using c by (simp add: tells_def)
  with w' show ?thesis by blast
qed

theorem malformed_notify_faults_witness:
  "step malformed_env sample_srv (CoreNotify 0 (Some ''x'') [2, 1]) sample_world = Inl NullDeref
   \<and> step (malformed_env\<lparr>debugLogs := False, nullIdentity := False\<rparr>) sample_srv
        (CoreNotify 0 (Some ''x'') [2, 1]) sample_world = Inl NullDeref
   \<and> \<not> isl (step (malformed_env\<lparr>debugLogs := False\<rparr>) sample_srv (CoreNotify 0 (Some ''x'') [2, 1]) sample_world)"
proof -
  let ?d = "\<lparr>pdi_address = None, pdi_displayName = '''', pdi_capabilityList = [''lime'']\<rparr>"
  have devices: "devices_of E malformed_reg = [?d]" "refreshed_of E malformed_reg = [?d]"
    and seen: "before_termination (matching bob_client [malformed_reg]) = [malformed_reg]"
    if "E = malformed_env \<or> E = malformed_env\<lparr>debugLogs := False, nullIdentity := False\<rparr>
      \<or> E = malformed_env\<lparr>debugLogs := False\<rparr>" for E
    using that
    by (auto simp: devices_of_def refreshed_of_def List.map_filter_def contact_device_def malformed_reg_def
        malformed_env_def sample_env_def before_termination_def matching_def bob_client_def bob_def
        sample_address_def)
  have y: "\<exists>s y. subs sample_world s = Some (External y) \<and> mClient y = Some 0
      \<and> isContactCompatible E y (getCapabilityDescriptor E ?d)" for E
    by (intro exI [of _ 1] exI [of _ "External_init False 1 bob (Some 0)"])
      (simp add: sample_world_def isContactCompatible_def)
  have env: "parseReginfo malformed_env ''x'' = Some [malformed_reg]" "debugLogs malformed_env"
    "nullIdentity malformed_env"
    by (simp_all add: malformed_env_def sample_env_def)
  have step: "case step E sample_srv (CoreNotify 0 (Some ''x'') [2, 1]) sample_world of
      Inl f \<Rightarrow> f = NullDeref \<and> null | Inr w' \<Rightarrow> \<not> null"
    if E: "E = malformed_env \<or> E = malformed_env\<lparr>debugLogs := False, nullIdentity := False\<rparr>
      \<or> E = malformed_env\<lparr>debugLogs := False\<rparr>"
      and n: "null \<longleftrightarrow> \<not> nullIdentity E \<or> debugLogs E" for E null
  proof -
    have p: "parseReginfo E ''x'' = Some [malformed_reg]" using E env by auto
    have u: "uses_null E sample_world 0 [malformed_reg] \<longleftrightarrow> null"
      unfolding uses_null_def n using devices [OF E] y [of E]
      by (auto intro!: exI [of _ ?d])
    show ?thesis
      using malformed_notify_faults [OF sample_reachable sample_notify_admissible sample_event,
          where srv = sample_srv and E = E] p u seen [OF E]
      by (simp del: step.simps)
  qed
  show ?thesis
    using step [of malformed_env True] step [of "malformed_env\<lparr>debugLogs := False, nullIdentity := False\<rparr>" True]
      step [of "malformed_env\<lparr>debugLogs := False\<rparr>" False] env
    by (auto simp del: step.simps split: sum.splits)
qed

lemma no_data_ignored:
  assumes "event_data (calls w) e = None"
  shows "step E srv (CoreNotify e body targets) w = Inr w"
    and "step E srv (CoreStateChanged e st) w = Inr w"
  using assms
  by (simp_all add: ClientFactory_onNotifyReceived_def ClientFactory_onSubscriptionStateChanged_def)

text \<open>
  C21. An event that no client owns any more is ignored, and so is a NOTIFY without a body or
  with one that does not parse: the state does not change and nobody is told anything.
\<close>

theorem ignored_events:
  "(event_data (calls w) e = None \<longrightarrow> step E srv (CoreNotify e body targets) w = Inr w
       \<and> step E srv (CoreStateChanged e st) w = Inr w)
   \<and> (reachable g w \<and> (body = None \<or> (\<exists>text. body = Some text \<and> parseReginfo E text = None)) \<longrightarrow>
        step E srv (CoreNotify e body targets) w = Inr w)"
proof (intro conjI impI)
  assume "event_data (calls w) e = None"
  then show "step E srv (CoreNotify e body targets) w = Inr w"
    and "step E srv (CoreStateChanged e st) w = Inr w"
    by (simp_all only: no_data_ignored)
next
  assume r: "reachable g w \<and> (body = None \<or> (\<exists>text. body = Some text \<and> parseReginfo E text = None))"
  then show "step E srv (CoreNotify e body targets) w = Inr w"
  proof (cases "event_data (calls w) e")
    case None
    then show ?thesis by (simp add: ClientFactory_onNotifyReceived_def)
  next
    case (Some c)
    then obtain k where "clients w c = Some k" using event_client [OF reachable_inv] r by blast
    with Some r show ?thesis
      by (auto simp: ClientFactory_onNotifyReceived_def Client_onNotifyReceived_def)
  qed
qed

theorem ignored_events_witness:
  "step sample_env sample_srv (CoreNotify 0 None [2, 1]) sample_world = Inr sample_world
   \<and> step sample_env sample_srv (CoreStateChanged 7 Error) sample_world = Inr sample_world"
proof
  show "step sample_env sample_srv (CoreNotify 0 None [2, 1]) sample_world = Inr sample_world"
    using ignored_events sample_reachable by blast
  have "event_data (calls sample_world) 7 = None"
    by (simp add: sample_world_def event_data_def upd_data_def)
  then show "step sample_env sample_srv (CoreStateChanged 7 Error) sample_world = Inr sample_world"
    using ignored_events by blast
qed

section \<open>The order of the calls\<close>

text \<open>
  C5. In every reachable state the calls about each SUBSCRIBE event are a prefix of one life: created,
  given its header and its client, sent, and possibly cleared and terminated in this order, with
  nothing after; while it is open it names its client. The calls of an own subscription to the
  registrar database are a fetch, then the subscription for the same address, then, once it was
  stopped, the end of that subscription; one without a valid address makes none.
\<close>

theorem call_order:
  assumes "reachable g w"
  shows "(\<forall>e. event_calls e (calls w) = []
        \<or> (\<exists>a d c. event_calls e (calls w) = open_calls e a d c \<and> event_data (calls w) e = Some c)
        \<or> (\<exists>a d c. event_calls e (calls w) = open_calls e a d c @ close_calls e
                    \<and> event_data (calls w) e = None))
    \<and> (\<forall>s. db_calls s (calls w) =
          (case subs w s of
             Some (Own o1) \<Rightarrow>
               (if mParticipantAor o1 = '''' then []
                else [DbFetch (mParticipantAor o1) s, DbSubscribe (mParticipantAor o1) g s]
                     @ (if s \<in> stored (mSubscriptions w) then []
                        else [DbUnsubscribe (mParticipantAor o1) g s]))
           | _ \<Rightarrow> []))"
proof
  note J = invD [OF reachable_inv [OF assms]]
  have ord: "events_ordered (next_event w) (calls w)" using J(4) by (simp add: inv_events_def)
  show "\<forall>e. event_calls e (calls w) = []
        \<or> (\<exists>a d c. event_calls e (calls w) = open_calls e a d c \<and> event_data (calls w) e = Some c)
        \<or> (\<exists>a d c. event_calls e (calls w) = open_calls e a d c @ close_calls e
                    \<and> event_data (calls w) e = None)"
  proof
    fix e
    from ord have "event_calls e (calls w) = [] \<or> (\<exists>a d c. event_calls e (calls w) = open_calls e a d c
        \<or> event_calls e (calls w) = open_calls e a d c @ close_calls e)"
      unfolding events_ordered_def by metis
    then show "event_calls e (calls w) = []
        \<or> (\<exists>a d c. event_calls e (calls w) = open_calls e a d c \<and> event_data (calls w) e = Some c)
        \<or> (\<exists>a d c. event_calls e (calls w) = open_calls e a d c @ close_calls e
                    \<and> event_data (calls w) e = None)"
      using event_data_objects [of "calls w" e] event_data_open event_data_closed by metis
  qed
  have "own_calls g s o1 = (if mParticipantAor o1 = '''' then []
      else [DbFetch (mParticipantAor o1) s, DbSubscribe (mParticipantAor o1) g s]
        @ (if s \<in> stored (mSubscriptions w) then [] else [DbUnsubscribe (mParticipantAor o1) g s]))"
    if "subs w s = Some (Own o1)" for s o1
    using J(7) that by (auto simp: inv_own_def own_calls_def)
  with J(7) show "\<forall>s. db_calls s (calls w) =
          (case subs w s of
             Some (Own o1) \<Rightarrow>
               (if mParticipantAor o1 = '''' then []
                else [DbFetch (mParticipantAor o1) s, DbSubscribe (mParticipantAor o1) g s]
                     @ (if s \<in> stored (mSubscriptions w) then []
                        else [DbUnsubscribe (mParticipantAor o1) g s]))
           | _ \<Rightarrow> [])"
    by (auto simp: inv_own_def db_ordered_def split: option.split subscription.split)
qed

theorem call_order_witness:
  "\<exists>a d c. event_calls 0 (calls sample_world) = open_calls 0 a d c
     \<and> event_data (calls sample_world) 0 = Some c"
proof -
  have "event_calls 0 (calls sample_world) \<noteq> []"
    by (simp add: sample_world_def call_event_def)
  then show ?thesis
    using call_order [OF sample_reachable] sample_event(1) by (metis option.distinct(1))
qed

end
