(* ===== verification/Requests.thy ===== *)
theory Requests
  imports Delivery
begin

text \<open>
  What a subscription request and the end of a dialog do, call by call: routing by domain, a
  participant followed by a second chat room, a dialog lost and opened again, and the callbacks of
  the registrar database to own subscriptions, also when they come late.
\<close>

section \<open>Requests for a participant of a local domain\<close>

text \<open>
  C17. For a participant of a local domain not yet followed for the chat room, \<^verbatim>\<open>subscribe\<close>
  creates an own subscription that first fetches the record and then listens to its changes,
  or makes no call at all when the address is not a valid SIP URI. The external clients are not
  touched.
\<close>

theorem subscribe_local:
  assumes "reachable g w" and "getDomain a \<in> set (getLocalDomains srv)"
    and "(getSubscriptionKey a, r) \<notin> store_abs w"
  shows "\<exists>w' o1. subscribe E srv r a w = Inr w'
    \<and> subs w' = (subs w)(next_sub w \<mapsto> Own o1)
    \<and> mChatRoom o1 = r \<and> mParticipant o1 = a \<and> mCheckCapabilities o1 = capabilityCheckEnabled srv
    \<and> clients w' = clients w \<and> mClients w' = mClients w
    \<and> (case makeSipUri E (asStringUriOnly a) of
         None \<Rightarrow> calls w' = calls w \<and> \<not> mActive o1
       | Some u \<Rightarrow> u \<noteq> '''' \<longrightarrow> mActive o1 \<and> mParticipantAor o1 = u \<and>
           calls w' = calls w @ [DbFetch u (next_sub w), DbSubscribe u (useGlobalDomain E) (next_sub w)])"
proof -
  let ?o = "Own_init E (capabilityCheckEnabled srv) r a"
  have aor: "mParticipantAor ?o = (case makeSipUri E (asStringUriOnly a) of None \<Rightarrow> '''' | Some u \<Rightarrow> u)"
    by (simp add: Own_init_def RegistrationSubscription.extend_def)
  have chk: "mCheckCapabilities (fst (Own_start E (next_sub w) ?o)) = capabilityCheckEnabled srv"
    by (simp add: Own_start_def)
  have "subscribe E srv r a w =
      startSubscription E (OwnFactory_create E (capabilityCheckEnabled srv) r a) a w"
    using assms(2,3) by (simp add: subscribe_eq [OF reachable_inv [OF assms(1)]])
  then obtain w' where w': "subscribe E srv r a w = Inr w'"
      "subs w' = (subs w)(next_sub w \<mapsto> Own (fst (Own_start E (next_sub w) ?o)))"
      "clients w' = clients w" "mClients w' = mClients w"
      "calls w' = calls w @ snd (Own_start E (next_sub w) ?o)"
    by (simp add: start_own_eq Let_def)
  have "case makeSipUri E (asStringUriOnly a) of
         None \<Rightarrow> snd (Own_start E (next_sub w) ?o) = [] \<and> \<not> mActive (fst (Own_start E (next_sub w) ?o))
       | Some u \<Rightarrow> u \<noteq> '''' \<longrightarrow> mActive (fst (Own_start E (next_sub w) ?o))
           \<and> mParticipantAor (fst (Own_start E (next_sub w) ?o)) = u
           \<and> snd (Own_start E (next_sub w) ?o) =
               [DbFetch u (next_sub w), DbSubscribe u (useGlobalDomain E) (next_sub w)]"
    by (cases "makeSipUri E (asStringUriOnly a)") (simp_all add: Own_start_def aor)
  with w' chk show ?thesis
    by (intro exI [of _ w'] exI [of _ "fst (Own_start E (next_sub w) ?o)"])
      (simp split: option.splits)
qed

theorem subscribe_local_witness:
  "\<exists>w' o1. subscribe sample_env sample_srv 3 alice sample_world = Inr w'
     \<and> subs w' = (subs sample_world)(3 \<mapsto> Own o1) \<and> mChatRoom o1 = 3"
proof -
  have "getDomain alice \<in> set (getLocalDomains sample_srv)" by (simp add: sample_defs)
  moreover have "(getSubscriptionKey alice, 3) \<notin> store_abs sample_world"
    by (auto simp: store_abs_def sample_world_def getSubscriptionKey_def sample_defs room_of_def)
  ultimately have "\<exists>w' o1. subscribe sample_env sample_srv 3 alice sample_world = Inr w'
    \<and> subs w' = (subs sample_world)(next_sub sample_world \<mapsto> Own o1) \<and> mChatRoom o1 = 3"
    using subscribe_local [OF sample_reachable, where E = sample_env] by blast
  then show ?thesis by (simp add: sample_world_def)
qed

section \<open>Requests for a participant of another domain\<close>

lemma acquireClient_existing:
  assumes I: "world_inv {} g w" and k: "clients w c = Some k"
    and u: "asStringUriOnlyOrdered (mTo k) = asStringUriOnlyOrdered a"
  shows "acquireClient a w = (c, w\<lparr>use_count := (use_count w)(c := use_count w c + 1)\<rparr>)"
proof -
  have "mClients w (asStringUriOnlyOrdered a) = Some c"
    using invD(5) [OF I] k u unfolding inv_clients_def by metis
  then show ?thesis using acquire_shared(1) [OF I _ k] by blast
qed

text \<open>
  C15. For a participant of another domain that some chat room already follows, \<^verbatim>\<open>subscribe\<close> shares
  the existing client. While its dialog is open no request is sent: the new chat room, and only
  it, is told the devices known so far that it is compatible with. After the dialog was lost a
  new SUBSCRIBE is sent for the address of the client.
\<close>

theorem subscribe_shares_client:
  assumes "reachable g w" and "getDomain a \<notin> set (getLocalDomains srv)"
    and "(getSubscriptionKey a, r) \<notin> store_abs w"
    and "clients w c = Some k" and "asStringUriOnlyOrdered (mTo k) = asStringUriOnlyOrdered a"
  shows "\<exists>w' x. subscribe E srv r a w = Inr w'
    \<and> subs w' = (subs w)(next_sub w \<mapsto> External x) \<and> mClient x = Some c \<and> mChatRoom x = r
    \<and> mRegEventClientFactory w' = mRegEventClientFactory w
    \<and> (case mSubscribeEvent k of
         Some e \<Rightarrow> clients w' = clients w
         \<and> calls w' = calls w @ [AddObserver c (next_sub w),
             SetParticipantDevices r a
               (filter (\<lambda>d. isContactCompatible E x (getCapabilityDescriptor E d)) (mParticipantDevices k))]
       | None \<Rightarrow> clients w' = (clients w)(c \<mapsto> k\<lparr>mSubscribeEvent := Some (next_event w)\<rparr>)
         \<and> calls w' = calls w @ [AddObserver c (next_sub w),
             CreateSubscribe (next_event w) (mTo k) ''reg''
               (mSubscriptionRefreshDelay (mRegEventClientFactory w)),
             AddCustomHeader (next_event w) ''Accept'' ''application/reginfo+xml'',
             SetData (next_event w) c, SendSubscribe (next_event w)])"
proof -
  note I = reachable_inv [OF assms(1)]
  have "subscribe E srv r a w =
      startSubscription E (ExternalFactory_create (capabilityCheckEnabled srv) r a) a w"
    using assms(2,3) by (simp add: subscribe_eq [OF I])
  then show ?thesis
    using assms(4)
    by (auto simp: startSubscription_def ExternalFactory_create_def
        acquireClient_existing [OF I assms(4,5)] new_sub_def addSubscription_def sub_start_def
        External_start_def Client_subscribe_def Let_def External_callback_def
        External_onNotifyReceived_def notify_def fun_upd_idem split: option.split)
qed

theorem subscribe_shares_client_witness:
  "\<exists>w'. subscribe sample_env sample_srv 3 bob sample_world = Inr w'
     \<and> calls w' = calls sample_world @ [AddObserver 0 3, SetParticipantDevices 3 bob []]"
proof -
  have "getDomain bob \<notin> set (getLocalDomains sample_srv)"
    "asStringUriOnlyOrdered (mTo bob_client) = asStringUriOnlyOrdered bob"
    by (simp_all add: sample_defs)
  moreover have "(getSubscriptionKey bob, 3) \<notin> store_abs sample_world"
    by (auto simp: store_abs_def sample_world_def getSubscriptionKey_def sample_defs room_of_def)
  ultimately obtain w' where "subscribe sample_env sample_srv 3 bob sample_world = Inr w'"
    "case mSubscribeEvent bob_client of
       Some e \<Rightarrow> calls w' = calls sample_world @ [AddObserver 0 (next_sub sample_world),
         SetParticipantDevices 3 bob []] | None \<Rightarrow> True"
    using subscribe_shares_client [OF sample_reachable, of bob sample_srv 3 0 bob_client sample_env]
      sample_event(2) by (auto simp: bob_client_def)
  then show ?thesis by (simp add: bob_client_def sample_world_def)
qed

text \<open>
  C16. For a participant of another domain that nobody follows, \<^verbatim>\<open>subscribe\<close> creates the client
  and opens its dialog: the factory starts listening to the core if this is its first client, the
  subscription observes the client before the SUBSCRIBE is sent, the event names the client
  before it is sent, and no chat room is told anything yet.
\<close>

theorem subscribe_new_client:
  assumes "reachable g w" and "getDomain a \<notin> set (getLocalDomains srv)"
    and "(getSubscriptionKey a, r) \<notin> store_abs w"
    and "\<And>c k. clients w c = Some k \<Longrightarrow> asStringUriOnlyOrdered (mTo k) \<noteq> asStringUriOnlyOrdered a"
  shows "\<exists>w' x. subscribe E srv r a w = Inr w'
    \<and> subs w' = (subs w)(next_sub w \<mapsto> External x) \<and> mClient x = Some (next_client w)
    \<and> mChatRoom x = r
    \<and> clients w' = (clients w)(next_client w \<mapsto>
          \<lparr>mSubscribeEvent = Some (next_event w), mTo = a, mParticipantDevices = []\<rparr>)
    \<and> calls w' = calls w
          @ (if \<exists>c. clients w c \<noteq> None then [] else [CoreAddListener])
          @ [AddObserver (next_client w) (next_sub w),
             CreateSubscribe (next_event w) a ''reg''
               (mSubscriptionRefreshDelay (mRegEventClientFactory w)),
             AddCustomHeader (next_event w) ''Accept'' ''application/reginfo+xml'',
             SetData (next_event w) (next_client w), SendSubscribe (next_event w)]"
proof -
  note I = reachable_inv [OF assms(1)]
  have "clients w c = None" if "mClients w (asStringUriOnlyOrdered a) = Some c" for c
  proof (rule ccontr)
    assume "clients w c \<noteq> None"
    then obtain k where "clients w c = Some k" by auto
    with that have "asStringUriOnlyOrdered (mTo k) = asStringUriOnlyOrdered a"
      using invD(5) [OF I] unfolding inv_clients_def by metis
    with assms(4) \<open>clients w c = Some k\<close> show False by blast
  qed
  note acq = acquire_new_eq [OF I this]
  have cnt: "mUseCount (mRegEventClientFactory w) = 0 \<longleftrightarrow> \<not> (\<exists>c. clients w c \<noteq> None)"
    using invD(6) [OF I] by (auto simp: inv_factory_def)
  have "subscribe E srv r a w =
      startSubscription E (ExternalFactory_create (capabilityCheckEnabled srv) r a) a w"
    using assms(2,3) by (simp add: subscribe_eq [OF I])
  then obtain w' where w': "subscribe E srv r a w = Inr w'"
      "subs w' = (subs w)(next_sub w \<mapsto>
         External (External_init (capabilityCheckEnabled srv) r a (Some (next_client w))))"
      "clients w' = (clients w)(next_client w \<mapsto>
          \<lparr>mSubscribeEvent = Some (next_event w), mTo = a, mParticipantDevices = []\<rparr>)"
      "calls w' = calls w
          @ (if \<exists>c. clients w c \<noteq> None then [] else [CoreAddListener])
          @ [AddObserver (next_client w) (next_sub w),
             CreateSubscribe (next_event w) a ''reg''
               (mSubscriptionRefreshDelay (mRegEventClientFactory w)),
             AddCustomHeader (next_event w) ''Accept'' ''application/reginfo+xml'',
             SetData (next_event w) (next_client w), SendSubscribe (next_event w)]"
    by (simp add: startSubscription_def ExternalFactory_create_def acq new_sub_def
        addSubscription_def sub_start_def External_start_def Client_subscribe_def Client_init_def
        registerClient_def cnt)
  show ?thesis
    by (intro exI conjI, fact w'(1), fact w'(2)) (simp_all add: w'(3,4))
qed

definition carol :: Address where "carol = sample_address ''carol'' ''far''"

theorem subscribe_new_client_witness:
  "\<exists>w' x. subscribe sample_env sample_srv 1 carol sample_world = Inr w'
     \<and> subs w' = (subs sample_world)(3 \<mapsto> External x) \<and> mClient x = Some 1"
proof -
  have "getDomain carol \<notin> set (getLocalDomains sample_srv)"
    by (simp add: carol_def sample_defs)
  moreover have "asStringUriOnlyOrdered (mTo k) \<noteq> asStringUriOnlyOrdered carol"
    if "clients sample_world c = Some k" for c k
    using that by (auto simp: sample_world_def carol_def sample_defs split: if_splits)
  moreover have "(getSubscriptionKey carol, 1) \<notin> store_abs sample_world"
    by (auto simp: store_abs_def sample_world_def getSubscriptionKey_def carol_def sample_defs)
  ultimately have "\<exists>w' x. subscribe sample_env sample_srv 1 carol sample_world = Inr w'
     \<and> subs w' = (subs sample_world)(next_sub sample_world \<mapsto> External x)
     \<and> mClient x = Some (next_client sample_world)"
    using subscribe_new_client [OF sample_reachable, where a = carol and srv = sample_srv and r = 1]
    by blast
  then show ?thesis by (simp add: sample_world_def)
qed

section \<open>The dialog is lost\<close>

text \<open>
  C18. When the core reports the dialog of a client terminated or in error, the client ends it,
  forgets its devices and keeps its observers; the other states change nothing. Later events of
  the old dialog are then ignored. (The next \<^verbatim>\<open>subscribe\<close> for the participant opens a new
  dialog, by the property on shared clients.)
\<close>

theorem dialog_lost:
  assumes "reachable g w" and "event_data (calls w) e = Some c"
  shows "\<exists>k w'. clients w c = Some k \<and> step E srv (CoreStateChanged e st) w = Inr w'
    \<and> (if st = Terminated \<or> st = Error
       then calls w' = calls w @ [UnsetData e, TerminateEvent e]
         \<and> clients w' = (clients w)(c \<mapsto> k\<lparr>mSubscribeEvent := None, mParticipantDevices := []\<rparr>)
         \<and> subs w' = subs w \<and> mSubscriptions w' = mSubscriptions w
         \<and> observers (calls w') = observers (calls w) \<and> open_dialogs (calls w') e = None
         \<and> (\<forall>body targets st'. step E srv (CoreNotify e body targets) w' = Inr w'
                                \<and> step E srv (CoreStateChanged e st') w' = Inr w')
       else w' = w)"
proof -
  note I = reachable_inv [OF assms(1)]
  obtain k where k: "clients w c = Some k" using event_client [OF I assms(2)] by blast
  show ?thesis
  proof (cases "st = Terminated \<or> st = Error")
    case False
    then show ?thesis
      using k onSubscriptionStateChanged_eq [OF I assms(2) k, of st]
      by (intro exI [of _ k] exI [of _ w]) simp
  next
    case True
    let ?w = "w\<lparr>clients := (clients w)(c \<mapsto> k\<lparr>mSubscribeEvent := None, mParticipantDevices := []\<rparr>),
                calls := calls w @ [UnsetData e, TerminateEvent e]\<rparr>"
    have "step E srv (CoreStateChanged e st) w = Inr ?w"
      using onSubscriptionStateChanged_eq [OF I assms(2) k, of st] True by simp
    moreover have "event_data (calls ?w) e = None" "open_dialogs (calls ?w) e = None"
      "observers (calls ?w) = observers (calls w)"
      by (simp_all add: trace_append upd_defs)
    moreover from this(1) have
      "\<forall>body targets st'. step E srv (CoreNotify e body targets) ?w = Inr ?w
        \<and> step E srv (CoreStateChanged e st') ?w = Inr ?w"
      using no_data_ignored by blast
    ultimately show ?thesis
      using k True by (intro exI [of _ k] exI [of _ ?w]) (simp del: step.simps)
  qed
qed

theorem dialog_lost_witness:
  "\<exists>w'. step sample_env sample_srv (CoreStateChanged 0 Error) sample_world = Inr w'
     \<and> open_dialogs (calls w') 0 = None"
  using dialog_lost [OF sample_reachable sample_event(1), of sample_env sample_srv Error] by auto

section \<open>The registrar database calls back\<close>

text \<open>
  A record reported to a subscription that was stopped, however late, is not passed on: a
  callback to an own subscription that is no longer in the store changes nothing.
\<close>

lemma late_record_ignored:
  assumes "reachable g w" and "subs w s = Some (Own o1)" and "s \<notin> stored (mSubscriptions w)"
  shows "step E srv (RecordFound s r) w = Inr w \<and> step E srv (ContactRegistered s r uid) w = Inr w"
proof -
  have "\<not> mActive o1"
    using invD(7) [OF reachable_inv [OF assms(1)]] assms(2,3) unfolding inv_own_def by blast
  with assms(2) show ?thesis
    by (simp add: onRecordFound_def onContactRegistered_def Own_onRecordFound_def
        Own_processRecord_def Own_onContactRegistered_def emit_def)
qed

lemma left_run:
  "run sample_env sample_srv [Subscribe 1 alice, Unsubscribe 1 alice] (world_init 600) =
     Inr (world_init 600\<lparr>subs := [0 \<mapsto> Own (Own_init sample_env False 1 alice)], next_sub := 1,
       calls := [DbFetch ''sip:alice@local'' 0, DbSubscribe ''sip:alice@local'' False 0,
                 DbUnsubscribe ''sip:alice@local'' False 0]\<rparr>)"
  by (simp add: model_defs sample_defs Let_def Own_init_def
      RegistrationSubscription.extend_def RegistrationSubscription_init_def)

lemma late_record_ignored_example:
  "\<exists>w. run sample_env sample_srv [Subscribe 1 alice, Unsubscribe 1 alice] (world_init 600) = Inr w
     \<and> step sample_env sample_srv (RecordFound 0 None) w = Inr w"
proof -
  let ?w = "world_init 600\<lparr>subs := [0 \<mapsto> Own (Own_init sample_env False 1 alice)], next_sub := 1,
       calls := [DbFetch ''sip:alice@local'' 0, DbSubscribe ''sip:alice@local'' False 0,
                 DbUnsubscribe ''sip:alice@local'' False 0]\<rparr>"
  have "reachable False ?w"
    by (rule run_reachable [OF reachable.start _ _ left_run]) (simp_all add: request_def)
  then have "step sample_env sample_srv (RecordFound 0 None) ?w = Inr ?w"
    by (rule late_record_ignored [THEN conjunct1]) (simp_all add: world_init_def stored_def)
  then show ?thesis using left_run by blast
qed

end
