(* ===== verification/ServerGuarantees.thy ===== *)
theory ServerGuarantees
  imports ServerProps Requests
begin

text \<open>
  The state a successful \<^verbatim>\<open>_init\<close> leaves: local domains, accounts, UUID, media and database
  settings; and with the subscription handler, which participants are followed through the
  registrar database.
\<close>

section \<open>What each phase changes\<close>

lemma init_transport_ok:
  assumes "snd (init_transport E I cfg srv) = Inr srv'"
  obtains t u where "getString cfg ''transport'' = Inr t" "t \<noteq> ''''" "makeSipUri E t = Some u"
    "srv' = srv\<lparr>mTransport := u\<rparr>"
  using assms by (auto simp: init_transport_def action_simps split: option.splits)

lemma init_media_ok:
  assumes "snd (init_media cfg srv) = Inr srv'"
  obtains c d ms where "getBool cfg ''check-capabilities'' = Inr c"
    "getString cfg ''state-directory'' = Inr d" "getList cfg ''supported-media-types'' = Inr ms"
    "srv' = srv\<lparr>mCheckCapabilities_srv := c, mStateDir := d, mMediaConfig :=
       \<lparr>audioEnabled = audioEnabled (mMediaConfig srv) \<or> ''audio'' \<in> set ms,
        videoEnabled = videoEnabled (mMediaConfig srv) \<or> ''video'' \<in> set ms,
        textEnabled = textEnabled (mMediaConfig srv) \<or> ''text'' \<in> set ms\<rparr>\<rparr>"
    "audioEnabled (mMediaConfig srv') \<or> videoEnabled (mMediaConfig srv') \<or> textEnabled (mMediaConfig srv')"
proof -
  from assms obtain c d ms where r: "getBool cfg ''check-capabilities'' = Inr c"
    "getString cfg ''state-directory'' = Inr d" "getList cfg ''supported-media-types'' = Inr ms"
    by (auto simp: init_media_def action_simps Let_def)
  show thesis
    using assms by (intro that [OF r]) (auto simp: init_media_def r Let_def action_simps split: if_splits)
qed

lemma init_media_frame:
  assumes "snd (init_media cfg srv) = Inr srv'"
  shows "mConfServerUris srv' = mConfServerUris srv" "mLocalDomains srv' = mLocalDomains srv"
    "mAddressesBound srv' = mAddressesBound srv"
    "audioEnabled (mMediaConfig srv') \<or> videoEnabled (mMediaConfig srv') \<or> textEnabled (mMediaConfig srv')"
  by (rule init_media_ok [OF assms]; simp)+

lemma sorted_remdups_adj_distinct: "sorted xs \<Longrightarrow> distinct (remdups_adj (xs :: 'a::linorder list))"
  by (induction xs rule: remdups_adj.induct) (auto simp: order.antisym)

lemma image_fst_zip:
  assumes "length fs \<le> length gs"
  shows "(\<lambda>p. h (fst p)) ` set (zip fs gs) = h ` set fs"
proof -
  have "map fst (zip fs gs) = fs" using assms by (simp add: map_fst_zip_take)
  then have "fst ` set (zip fs gs) = set fs" by (metis set_map)
  then show ?thesis by (metis image_image)
qed

lemma init_core_config_ok:
  assumes "snd (init_core_config I sys files cfg srv) = Inr srv'"
  shows "srv' = srv\<lparr>mUuid := readUuid sys files (mStateDir srv)\<rparr>"
  using assms by (auto simp: init_core_config_def action_simps Let_def split: if_splits)

lemma init_network_ok:
  assumes "snd (init_network E I sys ts cfg srv) = Inr (srv', proxy)"
  obtains uris out where "loadFactoryUris ts cfg (mConfServerUris srv) = Inr uris"
    "srv' = srv\<lparr>mConfServerUris := uris\<rparr>"
    "getString cfg ''outbound-proxy'' = Inr out" "createAddress E out = Some proxy"
  using assms by (auto simp: init_network_def action_simps Let_def split: option.splits)

lemma init_domains_ok:
  assumes "snd (init_domains cfg srv) = Inr srv'"
  obtains others where "getList cfg ''local-domains'' = Inr others"
    "srv' = srv\<lparr>mLocalDomains := remdups_adj (sort (mLocalDomains srv @ others))\<rparr>"
  using assms by (auto simp: init_domains_def action_simps)

text \<open>The account made for a pair of URIs.\<close>

definition account_of :: "env \<Rightarrow> Address \<Rightarrow> string \<times> string \<Rightarrow> Account" where
  "account_of E proxy p =
     \<lparr>identityAddress = (if snd p \<noteq> '''' then createAddress E (snd p) else createAddress E (fst p)),
      serverAddress = Some proxy, registerEnabled = False, outboundProxyEnabled = True,
      conferenceFactoryAddress = createAddress E (fst p)\<rparr>"

definition account_calls :: "nat \<Rightarrow> Account \<Rightarrow> srv_call list" where
  "account_calls n a = [Method ''account'' ''setContactAddress'' [AAccount n, AAddress (identityAddress a)],
     AddAccount a] @ (if n = 0 then [Method ''mCore'' ''setDefaultAccount'' [AAccount 0]] else [])"

lemma init_accounts_ok:
  assumes "snd (init_accounts E proxy uris b accs srv) = Inr (srv', accs')"
    and "b \<longleftrightarrow> accs \<noteq> []"
  shows "srv' = srv\<lparr>mLocalDomains := mLocalDomains srv @ map (\<lambda>p. getDomain (the (createAddress E (fst p)))) uris\<rparr>
    \<and> accs' = accs @ map (account_of E proxy) uris
    \<and> fst (init_accounts E proxy uris b accs srv) =
        concat (map (\<lambda>(n, p). account_calls n (account_of E proxy p)) (enumerate (length accs) uris))
    \<and> (\<forall>p \<in> set uris. createAddress E (fst p) \<noteq> None)"
  using assms
proof (induction uris arbitrary: b accs srv)
  case Nil
  then show ?case by simp
next
  case (Cons p uris)
  obtain f g where p: "p = (f, g)" by (cases p)
  from Cons.prems(1) obtain a where a: "createAddress E f = Some a"
    by (cases "createAddress E f") (auto simp: p Let_def action_simps)
  let ?acc = "account_of E proxy p" and ?srv = "srv\<lparr>mLocalDomains := mLocalDomains srv @ [getDomain a]\<rparr>"
  have step: "snd (init_accounts E proxy uris True (accs @ [?acc]) ?srv) = Inr (srv', accs')"
    using Cons.prems(1) by (auto simp: p a Let_def action_simps account_of_def)
  have "fst (init_accounts E proxy (p # uris) b accs srv) =
      account_calls (length accs) ?acc @ fst (init_accounts E proxy uris True (accs @ [?acc]) ?srv)"
    using Cons.prems(2) by (cases b) (auto simp: p a Let_def seqA_Inr account_of_def account_calls_def)
  with Cons.IH [OF step] a show ?case by (simp add: p)
qed

text \<open>
  Each pair of URIs gives one account, in the order of the configuration: its identity is the
  focus URI, or the factory URI when the focus URI is empty, its contact is its identity, it does
  not register and goes through the outbound proxy; exactly the first one becomes the default
  account. The domain of each factory URI becomes a local domain.
\<close>

lemma init_accounts_spec:
  assumes "snd (init_accounts E proxy uris False [] srv) = Inr (srv', accounts)"
  shows "accounts = map (account_of E proxy) uris
    \<and> fst (init_accounts E proxy uris False [] srv) =
        concat (map (\<lambda>(n, a). account_calls n a) (enumerate 0 accounts))
    \<and> mLocalDomains srv' = mLocalDomains srv @ map (\<lambda>p. getDomain (the (createAddress E (fst p)))) uris"
  using init_accounts_ok [OF assms]
  by (simp add: enumerate_eq_zip zip_map2 case_prod_unfold comp_def)

lemma init_accounts_spec_example:
  "snd (init_accounts init_env bob [(''f'', ''sip:focus@local''), (''g'', '''')] False []
          (ConferenceServer_init ''p'')) =
     Inr ((ConferenceServer_init ''p'')\<lparr>mLocalDomains := [''local'', ''local'']\<rparr>,
          [account_of init_env bob (''f'', ''sip:focus@local''), account_of init_env bob (''g'', '''')])"
proof -
  have "\<exists>s as. snd (init_accounts init_env bob [(''f'', ''sip:focus@local''), (''g'', '''')] False []
          (ConferenceServer_init ''p'')) = Inr (s, as)"
    by (simp add: Let_def snd_seqA init_env_def)
  then obtain s as where r: "snd (init_accounts init_env bob [(''f'', ''sip:focus@local''), (''g'', '''')] False []
          (ConferenceServer_init ''p'')) = Inr (s, as)" by blast
  have "as = map (account_of init_env bob) [(''f'', ''sip:focus@local''), (''g'', '''')]"
    using init_accounts_spec [OF r] by blast
  moreover have "s = (ConferenceServer_init ''p'')\<lparr>mLocalDomains := [''local'', ''local'']\<rparr>"
    using init_accounts_ok [OF r] by (simp add: init_env_def sample_address_def ConferenceServer_init_def)
  ultimately show ?thesis using r by simp
qed

lemma init_start_ok:
  assumes "snd (init_start E I sys accs srv) = Inr srv'" and "\<not> mAddressesBound srv"
  shows "0 \<le> core_start I"
    and "srv' = srv\<lparr>mUuid := core_uuid I, mAddressesBound := isWritable I\<rparr>"
    and "mUuid srv = '''' \<longrightarrow> os_can_write sys (getUuidFilePath (mStateDir srv)) \<longrightarrow>
           Os (WriteFile (getUuidFilePath (mStateDir srv)) (core_uuid I)) \<in> set (fst (init_start E I sys accs srv))"
    and "mUuid srv \<noteq> '''' \<longrightarrow> mUuid srv = core_uuid I"
proof -
  let ?u = "if mUuid srv = ''''
     then seqA (mapA Os (writeUuid sys (mStateDir srv) (core_uuid I))) (\<lambda>uuid. ret (srv\<lparr>mUuid := uuid\<rparr>))
     else seqA (guardA (core_uuid I = mUuid srv) (BadConfiguration ''inconsistent uuid'')) (\<lambda>_. ret srv)"
  let ?b = "\<lambda>srv1. if isWritable I then bindAddresses E (server_lib.truncate I) accs (getChatRooms I) srv1
      else ret srv1"
  from assms(1) obtain srv1 where ok: "0 \<le> core_start I" "core_start I \<noteq> - 2"
    and u: "snd ?u = Inr srv1" and b: "snd (?b srv1) = Inr srv'"
    by (auto simp: init_start_unfold action_simps split: if_splits)
  show "0 \<le> core_start I" by (rule ok(1))
  have s1: "srv1 = srv\<lparr>mUuid := core_uuid I\<rparr>" and old: "mUuid srv \<noteq> '''' \<longrightarrow> mUuid srv = core_uuid I"
    using u by (auto simp: action_simps writeUuid_def Let_def split: if_splits)
  then show "mUuid srv \<noteq> '''' \<longrightarrow> mUuid srv = core_uuid I" by simp
  have "core_uuid (server_lib.truncate I) = core_uuid I" by (simp add: server_lib.truncate_def)
  then show "srv' = srv\<lparr>mUuid := core_uuid I, mAddressesBound := isWritable I\<rparr>"
    using b assms(2) s1 bindAddresses_ok [of srv1 E "server_lib.truncate I" accs "getChatRooms I" srv']
    by (auto simp: uuid_of_def split: if_splits)
  have "fst (init_start E I sys accs srv) =
      [Method ''mCore'' ''start'' []] @ fst ?u @ [Method ''mRegistrarDb'' ''addStateListener'' [AThis]] @ fst (?b srv1)"
    using ok u by (simp add: init_start_unfold seqA_Inr del: if_image_distrib)
  moreover have "Os (WriteFile (getUuidFilePath (mStateDir srv)) (core_uuid I)) \<in> set (fst ?u)"
    if "mUuid srv = ''''" "os_can_write sys (getUuidFilePath (mStateDir srv))"
    using u that by (auto simp: writeUuid_def Let_def seqA_def action_simps split: sum.splits)
  ultimately show "mUuid srv = '''' \<longrightarrow> os_can_write sys (getUuidFilePath (mStateDir srv)) \<longrightarrow>
      Os (WriteFile (getUuidFilePath (mStateDir srv)) (core_uuid I)) \<in> set (fst (init_start E I sys accs srv))"
    by simp
qed

section \<open>The state after a successful start\<close>

lemma init_server_state:
  assumes "snd (init_server E SL I sys files to_string cfg (ConferenceServer_init p)) = Inr (srv', w)"
  shows "\<exists>factories focuses others.
      getList cfg ''conference-factory-uris'' = Inr factories
    \<and> getList cfg ''conference-focus-uris'' = Inr focuses
    \<and> getList cfg ''local-domains'' = Inr others
    \<and> mConfServerUris srv' = zip factories focuses \<and> length factories \<le> length focuses
    \<and> set (mLocalDomains srv') = (\<lambda>f. getDomain (the (createAddress E f))) ` set factories \<union> set others
    \<and> sorted (mLocalDomains srv') \<and> distinct (mLocalDomains srv')
    \<and> (audioEnabled (mMediaConfig srv') \<or> videoEnabled (mMediaConfig srv') \<or> textEnabled (mMediaConfig srv'))
    \<and> mAddressesBound srv' = isWritable I \<and> 0 \<le> core_start I"
proof -
  obtain srv1 srv2 srv3 srv4 proxy srv5 accounts srv6 delay where
    r: "snd (init_transport E I cfg (ConferenceServer_init p)) = Inr srv1" "snd (init_media cfg srv1) = Inr srv2"
    "snd (init_core_config I sys files cfg srv2) = Inr srv3" "snd (init_network E I sys to_string cfg srv3) = Inr (srv4, proxy)"
    "snd (init_accounts E proxy (mConfServerUris srv4) False [] srv4) = Inr (srv5, accounts)"
    "snd (init_domains cfg srv5) = Inr srv6" "snd (init_start E I sys accounts srv6) = Inr srv'"
    using init_server_ok [OF assms] by metis
  obtain u where s1: "srv1 = (ConferenceServer_init p)\<lparr>mTransport := u\<rparr>"
    using init_transport_ok [OF r(1)] by metis
  note s2 = init_media_frame(1-3) [OF r(2)] and m = init_media_frame(4) [OF r(2)]
  note s3 = init_core_config_ok [OF r(3)]
  obtain uris where uris: "loadFactoryUris to_string cfg (mConfServerUris srv3) = Inr uris"
    and s4: "srv4 = srv3\<lparr>mConfServerUris := uris\<rparr>"
    using init_network_ok [OF r(4)] by metis
  have s5: "srv5 = srv4\<lparr>mLocalDomains := mLocalDomains srv4 @ map (\<lambda>p. getDomain (the (createAddress E (fst p)))) uris\<rparr>"
    using init_accounts_ok [OF r(5)] s4 by simp
  obtain others where others: "getList cfg ''local-domains'' = Inr others"
    and s6: "srv6 = srv5\<lparr>mLocalDomains := remdups_adj (sort (mLocalDomains srv5 @ others))\<rparr>"
    using init_domains_ok [OF r(6)] by metis
  have b: "\<not> mAddressesBound srv6"
    by (simp add: s6 s5 s4 s3 s2 s1 ConferenceServer_init_def)
  note s7 = init_start_ok [OF r(7) b]
  from uris obtain factories focuses where f: "getList cfg ''conference-factory-uris'' = Inr factories"
    "getList cfg ''conference-focus-uris'' = Inr focuses" "uris = zip factories focuses"
    "length factories \<le> length focuses"
    by (auto simp: loadFactoryUris_def factory_loop_eq bindE_eq_Inr_iff s3 s2 s1 ConferenceServer_init_def
        split: if_splits)
  have "(\<lambda>p. getDomain (the (createAddress E (fst p)))) ` set uris =
      (\<lambda>f. getDomain (the (createAddress E f))) ` set factories"
    using f(3,4) image_fst_zip [of factories focuses "\<lambda>f. getDomain (the (createAddress E f))"] by simp
  then have "set (mLocalDomains srv') = (\<lambda>f. getDomain (the (createAddress E f))) ` set factories \<union> set others"
    by (simp add: s7(2) s6 s5 s4 s3 s2 s1 ConferenceServer_init_def)
  moreover have "sorted (mLocalDomains srv')" "distinct (mLocalDomains srv')"
    by (simp_all add: s7(2) s6 sorted_remdups_adj_distinct)
  ultimately show ?thesis
    using f others m s7(1) by (intro exI [of _ factories] exI [of _ focuses] exI [of _ others])
      (simp add: s7(2) s6 s5 s4 s3)
qed

text \<open>
  C30. After a successful start the local domains are the domains of the factory URIs together
  with the configured ones, sorted and without repetition; the pairs of URIs are those of the
  configuration; at least one media type is enabled; and the addresses are bound exactly if the
  registrar database was writable.
\<close>

theorem init_state:
  assumes "snd (init_server E SL I sys files to_string cfg (ConferenceServer_init p)) = Inr (srv', w)"
  shows "\<exists>factories focuses others.
      getList cfg ''conference-factory-uris'' = Inr factories
    \<and> getList cfg ''conference-focus-uris'' = Inr focuses
    \<and> getList cfg ''local-domains'' = Inr others
    \<and> mConfServerUris srv' = zip factories focuses \<and> length factories \<le> length focuses
    \<and> set (mLocalDomains srv') = (\<lambda>f. getDomain (the (createAddress E f))) ` set factories \<union> set others
    \<and> sorted (mLocalDomains srv') \<and> distinct (mLocalDomains srv')
    \<and> (audioEnabled (mMediaConfig srv') \<or> videoEnabled (mMediaConfig srv') \<or> textEnabled (mMediaConfig srv'))
    \<and> mAddressesBound srv' = isWritable I \<and> 0 \<le> core_start I"
  using assms by (rule init_server_state)

theorem init_state_witness:
  "mLocalDomains started_server = [''example.com'', ''local'']
   \<and> (\<exists>others. set (mLocalDomains started_server) =
        (\<lambda>f. getDomain (the (createAddress init_env f))) ` {''sip:factory@local''} \<union> set others)"
proof -
  from init_state [OF sample_start [of "\<lambda>n. ''n''"]]
  obtain factories others where "Inr factories = (Inr [''sip:factory@local''] :: server_error + string list)"
    "set (mLocalDomains started_server) =
        (\<lambda>f. getDomain (the (createAddress init_env f))) ` set factories \<union> set others"
    by auto
  then show ?thesis by (auto simp: started_server_def)
qed

text \<open>The two phases of a successful start that look at the UUID, and what lies between them.\<close>

lemma init_uuid_phases:
  assumes "snd (init_server E SL I sys files to_string cfg (ConferenceServer_init p)) = Inr (srv', w)"
  obtains srv2 srv3 accounts srv6 where
    "snd (init_core_config I sys files cfg srv2) = Inr srv3" "snd (init_start E I sys accounts srv6) = Inr srv'"
    "mUuid srv6 = readUuid sys files (mStateDir srv2)" "mStateDir srv6 = mStateDir srv2"
    "\<not> mAddressesBound srv6"
    "set (fst (init_core_config I sys files cfg srv2)) \<union> set (fst (init_start E I sys accounts srv6))
      \<subseteq> set (fst (init_server E SL I sys files to_string cfg (ConferenceServer_init p)))"
proof -
  obtain srv1 srv2 srv3 srv4 proxy srv5 accounts srv6 delay where
    r1: "snd (init_transport E I cfg (ConferenceServer_init p)) = Inr srv1" "snd (init_media cfg srv1) = Inr srv2"
    "snd (init_core_config I sys files cfg srv2) = Inr srv3" and "snd (init_core I cfg srv3) = Inr ()"
    and "snd (init_codecs SL I cfg) = Inr ()"
    and r2: "snd (init_network E I sys to_string cfg srv3) = Inr (srv4, proxy)"
    "snd (init_accounts E proxy (mConfServerUris srv4) False [] srv4) = Inr (srv5, accounts)"
    "snd (init_domains cfg srv5) = Inr srv6" and "snd (init_settings cfg) = Inr delay"
    and r3: "snd (init_start E I sys accounts srv6) = Inr srv'" and "w = world_init delay"
    and eq: "fst (init_server E SL I sys files to_string cfg (ConferenceServer_init p)) =
       fst (init_transport E I cfg (ConferenceServer_init p)) @ fst (init_media cfg srv1)
       @ fst (init_core_config I sys files cfg srv2) @ fst (init_core I cfg srv3)
       @ fst (init_codecs SL I cfg) @ fst (init_network E I sys to_string cfg srv3)
       @ fst (init_accounts E proxy (mConfServerUris srv4) False [] srv4)
       @ fst (init_domains cfg srv5) @ fst (init_settings cfg) @ fst (init_start E I sys accounts srv6)"
    by (rule init_server_ok [OF assms]) (rule that)
  note r = r1 r2 r3
  have sub: "set (fst (init_core_config I sys files cfg srv2)) \<union> set (fst (init_start E I sys accounts srv6))
      \<subseteq> set (fst (init_server E SL I sys files to_string cfg (ConferenceServer_init p)))"
    unfolding eq by auto
  have s1: "\<not> mAddressesBound srv1"
    by (rule init_transport_ok [OF r(1)]) (simp add: ConferenceServer_init_def)
  have s2: "\<not> mAddressesBound srv2" using init_media_frame(3) [OF r(2)] s1 by simp
  note s3 = init_core_config_ok [OF r(3)]
  have s4: "mUuid srv4 = mUuid srv3 \<and> mStateDir srv4 = mStateDir srv3 \<and> mAddressesBound srv4 = mAddressesBound srv3"
    by (rule init_network_ok [OF r(4)]) simp
  have s5: "mUuid srv5 = mUuid srv4 \<and> mStateDir srv5 = mStateDir srv4 \<and> mAddressesBound srv5 = mAddressesBound srv4"
    using init_accounts_ok [OF r(5)] by simp
  have s6: "mUuid srv6 = mUuid srv5 \<and> mStateDir srv6 = mStateDir srv5 \<and> mAddressesBound srv6 = mAddressesBound srv5"
    by (rule init_domains_ok [OF r(6)]) simp
  have u6: "mUuid srv6 = readUuid sys files (mStateDir srv2)" "mStateDir srv6 = mStateDir srv2"
    "\<not> mAddressesBound srv6"
    using s2 s3 s4 s5 s6 by simp_all
  show thesis by (rule that [OF r(3,7) u6 sub])
qed

text \<open>
  C31. After a successful start the server's UUID is the one of the core. One kept from an earlier
  run is given to the core before the core is created, and the start is refused if the core then
  reports another one; without one, the UUID the core chose is written to the state directory.
\<close>

theorem init_uuid:
  assumes "snd (init_server E SL I sys files to_string cfg (ConferenceServer_init p)) = Inr (srv', w)"
    and "kept = readUuid sys files (mStateDir srv')"
  shows "mUuid srv' = core_uuid I
    \<and> (kept \<noteq> '''' \<longrightarrow> kept = core_uuid I
        \<and> Method ''configLinphone'' ''setString'' [AString ''misc'', AString ''uuid'', AString kept]
            \<in> set (fst (init_server E SL I sys files to_string cfg (ConferenceServer_init p))))
    \<and> (kept = '''' \<longrightarrow> os_can_write sys (getUuidFilePath (mStateDir srv')) \<longrightarrow>
        Os (WriteFile (getUuidFilePath (mStateDir srv')) (core_uuid I))
          \<in> set (fst (init_server E SL I sys files to_string cfg (ConferenceServer_init p))))"
proof -
  obtain srv2 srv3 accounts srv6 where
    r: "snd (init_core_config I sys files cfg srv2) = Inr srv3" "snd (init_start E I sys accounts srv6) = Inr srv'"
    and u6: "mUuid srv6 = readUuid sys files (mStateDir srv2)" "mStateDir srv6 = mStateDir srv2"
      "\<not> mAddressesBound srv6"
    and sub: "set (fst (init_core_config I sys files cfg srv2)) \<union> set (fst (init_start E I sys accounts srv6))
      \<subseteq> set (fst (init_server E SL I sys files to_string cfg (ConferenceServer_init p)))"
    by (rule init_uuid_phases [OF assms(1)])
  note s7 = init_start_ok [OF r(2) u6(3)]
  have kept: "kept = mUuid srv6" "mStateDir srv' = mStateDir srv6"
    using u6(1,2) by (simp_all add: assms(2) s7(2))
  have "Method ''configLinphone'' ''setString'' [AString ''misc'', AString ''uuid'', AString kept]
      \<in> set (fst (init_core_config I sys files cfg srv2))" if "kept \<noteq> ''''"
  proof -
    have "kept = readUuid sys files (mStateDir srv2)" using kept(1) u6(1) by simp
    with that r(1) show ?thesis
      by (auto simp: init_core_config_def action_simps seqA_Inr Let_def split: if_splits)
  qed
  with s7 kept sub show ?thesis by auto
qed

theorem init_uuid_witness:
  "mUuid started_server = core_uuid sample_init"
  using init_uuid [OF sample_start [of "\<lambda>n. ''n''"] refl] by blast

text \<open>
  A successful start has checked that the RTP timeout is positive, but gives the core whole
  seconds: the check ensures a positive timeout only from one second on, and for a shorter
  duration the core is told 0.
\<close>

lemma nortp_timeout:
  assumes "snd (init_core I cfg srv) = Inr ()"
  shows "\<exists>d. getDuration cfg ''no-rtp-timeout'' = Inr d \<and> 0 < d
    \<and> Method ''mCore'' ''setNortpTimeout'' [AInt (d div 1000)] \<in> set (fst (init_core I cfg srv))
    \<and> (0 < d div 1000 \<longleftrightarrow> 1000 \<le> d)"
proof -
  from assms obtain d where d: "getDuration cfg ''no-rtp-timeout'' = Inr d" "0 < d"
    by (auto simp: init_core_def action_simps)
  then have "seconds_of d = d div 1000" "0 < d div 1000 \<longleftrightarrow> 1000 \<le> d"
    by (auto simp: seconds_of_def)
  moreover have "Method ''mCore'' ''setNortpTimeout'' [AInt (seconds_of d)] \<in> set (fst (init_core I cfg srv))"
    using assms d by (auto simp: init_core_def action_simps seqA_Inr)
  ultimately show ?thesis using d by metis
qed

lemma nortp_timeout_example:
  "\<exists>d. getDuration sample_cfg ''no-rtp-timeout'' = Inr d \<and> 1000 \<le> d \<and> 0 < d div 1000"
  using nortp_timeout [OF sample_phases(4)] by auto

end
