(* ===== verification/ServerRuntime.thy ===== *)
theory ServerRuntime
  imports ServerGuarantees
begin

text \<open>
  The running server: the callbacks of the core and of the chat rooms, \<^verbatim>\<open>_run\<close> and \<^verbatim>\<open>_stop\<close> of
  \<^verbatim>\<open>ConferenceServer\<close>, composed with the subscription handler, and the notifications of the
  registrar database. What the server owns when it stops, and what it has released afterwards.
\<close>

section \<open>Callbacks\<close>

datatype room_state = Instantiated | Deleted | OtherRoomState

definition onChatRoomStateChanged :: "chatroom \<Rightarrow> room_state \<Rightarrow> ConferenceServer
    \<Rightarrow> ConferenceServer \<times> srv_call list" where
  "onChatRoomStateChanged cr state srv =
     (if state = Instantiated
      then (srv\<lparr>mChatRooms := mChatRooms srv @ [cr]\<rparr>, [Method ''ChatRoom'' ''addListener'' [ARoom cr, AThis]])
      else if state = Deleted
      then (srv\<lparr>mChatRooms := removeAll cr (mChatRooms srv)\<rparr>,
            [Method ''ChatRoom'' ''removeListener'' [ARoom cr, AThis]])
      else (srv, []))"

definition view_of :: "ConferenceServer \<Rightarrow> server_view" where
  "view_of srv = \<lparr>capabilityCheckEnabled = mCheckCapabilities_srv srv, getLocalDomains = mLocalDomains srv\<rparr>"

definition onParticipantRegistrationSubscriptionRequested ::
    "env \<Rightarrow> ConferenceServer \<Rightarrow> chatroom \<Rightarrow> Address \<Rightarrow> world \<Rightarrow> fault + world" where
  "onParticipantRegistrationSubscriptionRequested E srv cr participantAddr w =
     subscribe E (view_of srv) cr participantAddr w"

definition onParticipantRegistrationUnsubscriptionRequested ::
    "env \<Rightarrow> chatroom \<Rightarrow> Address \<Rightarrow> world \<Rightarrow> fault + world" where
  "onParticipantRegistrationUnsubscriptionRequested E cr participantAddr w =
     unsubscribe E cr participantAddr w"

definition server_run :: "srv_call list" where
  "server_run = [Method ''mCore'' ''iterate'' []]"

section \<open>The system\<close>

record system =
  server :: ConferenceServer
  handler :: world
  srv_calls :: "srv_call list"  \<comment> \<open>since the start\<close>

text \<open>The hook with which a chat room once asked for an address has an empty body.\<close>

definition onConferenceAddressGeneration :: "chatroom \<Rightarrow> system \<Rightarrow> system" where
  [simp]: "onConferenceAddressGeneration cr y = y"

text \<open>\<^verbatim>\<open>_stop\<close>: the listeners go first, then the subscriptions, then the core.\<close>

definition server_stop :: "env \<Rightarrow> system \<Rightarrow> fault + system" where
  "server_stop E y =
     (let cs = [Method ''mCore'' ''removeListener'' [AThis],
                Method ''mRegistrarDb'' ''removeStateListener'' [AThis]]
               @ map (\<lambda>cr. Method ''ChatRoom'' ''removeListener'' [ARoom cr, AThis]) (mChatRooms (server y))
      in bindE (unsubscribeAll E (handler y)) (\<lambda>w.
           Inr (y\<lparr>handler := w, srv_calls := srv_calls y @ cs @ [Method ''mCore'' ''stop'' []]\<rparr>)))"

text \<open>
  What ends the main loop early: a fault, or an exception of a callback that binds addresses. The
  accounts and the chat rooms of the core are given when the registrar database becomes writable.
\<close>

datatype sys_error = Fault fault | Raised server_error

datatype sys_input =
    RoomState chatroom room_state
  | AddressGeneration chatroom
  | SubscriptionRequested chatroom Address
  | UnsubscriptionRequested chatroom Address
  | Callback input  \<comment> \<open>of the registrar database or of the core\<close>
  | RegistrarWritable bool "Account list" "Address list"
  | FocusRecord nat string "Record option"
  | Iterate

definition sys_handle :: "fault + world \<Rightarrow> system \<Rightarrow> sys_error + system" where
  "sys_handle r y = (case r of Inl f \<Rightarrow> Inl (Fault f) | Inr w \<Rightarrow> Inr (y\<lparr>handler := w\<rparr>))"

definition sys_act :: "(srv_call, server_error, ConferenceServer) action \<Rightarrow> system \<Rightarrow> sys_error + system" where
  "sys_act m y = (case snd m of Inl e \<Rightarrow> Inl (Raised e)
     | Inr srv \<Rightarrow> Inr (y\<lparr>server := srv, srv_calls := srv_calls y @ fst m\<rparr>))"

definition sys_step :: "env \<Rightarrow> server_lib \<Rightarrow> sys_input \<Rightarrow> system \<Rightarrow> sys_error + system" where
  "sys_step E L i y =
     (case i of
        RoomState cr st \<Rightarrow>
          (let (srv, cs) = onChatRoomStateChanged cr st (server y)
           in Inr (y\<lparr>server := srv, srv_calls := srv_calls y @ cs\<rparr>))
      | AddressGeneration cr \<Rightarrow> Inr (onConferenceAddressGeneration cr y)
      | SubscriptionRequested cr a \<Rightarrow>
          sys_handle (onParticipantRegistrationSubscriptionRequested E (server y) cr a (handler y)) y
      | UnsubscriptionRequested cr a \<Rightarrow>
          sys_handle (onParticipantRegistrationUnsubscriptionRequested E cr a (handler y)) y
      | Callback j \<Rightarrow>
          sys_handle (step E (view_of (server y)) j (handler y)) y
      | RegistrarWritable writable accounts chatRooms \<Rightarrow>
          sys_act (onRegistrarDbWritable E L accounts chatRooms writable (server y)) y
      | FocusRecord account uuid r \<Rightarrow>
          sys_act (seqA (FocusListener_onRecordFound E L account uuid r) (\<lambda>_. ret (server y))) y
      | Iterate \<Rightarrow> Inr (y\<lparr>srv_calls := srv_calls y @ server_run\<rparr>))"

definition sys_admissible :: "sys_input \<Rightarrow> system \<Rightarrow> bool" where
  "sys_admissible i y = (case i of Callback j \<Rightarrow> \<not> request j \<and> admissible j (handler y) | _ \<Rightarrow> True)"

inductive sys_reachable :: "bool \<Rightarrow> system \<Rightarrow> bool" for g where
  sys_start: "mChatRooms srv = [] \<Longrightarrow>
     sys_reachable g \<lparr>server = srv, handler = world_init delay, srv_calls = []\<rparr>"
| sys_step: "sys_reachable g y \<Longrightarrow> useGlobalDomain E = g \<Longrightarrow> sys_admissible i y \<Longrightarrow>
     sys_step E L i y = Inr y' \<Longrightarrow> sys_reachable g y'"

section \<open>The listeners of the chat rooms\<close>

definition upd_rooms :: "srv_call \<Rightarrow> chatroom set \<Rightarrow> chatroom set" where
  "upd_rooms x S =
     (case x of
        Method obj name [ARoom cr, AThis] \<Rightarrow>
          (if obj = ''ChatRoom'' \<and> name = ''addListener'' then insert cr S
           else if obj = ''ChatRoom'' \<and> name = ''removeListener'' then S - {cr} else S)
      | _ \<Rightarrow> S)"

definition listened_rooms :: "srv_call list \<Rightarrow> chatroom set" where
  "listened_rooms cs = fold upd_rooms cs {}"

lemma listened_rooms_append: "listened_rooms (cs @ ds) = fold upd_rooms ds (listened_rooms cs)"
  by (simp add: listened_rooms_def)

lemma fold_remove_rooms:
  "fold upd_rooms (map (\<lambda>cr. Method ''ChatRoom'' ''removeListener'' [ARoom cr, AThis]) rs) S = S - set rs"
  by (induction rs arbitrary: S) (auto simp: upd_rooms_def)

inductive_cases sys_stepE: "sys_reachable g y"

lemma sys_handle_Inr_iff [simp]: "sys_handle r y = Inr y' \<longleftrightarrow> (\<exists>w. r = Inr w \<and> y' = y\<lparr>handler := w\<rparr>)"
  by (auto simp: sys_handle_def split: sum.split)

lemma sys_act_Inr_iff [simp]:
  "sys_act m y = Inr y' \<longleftrightarrow>
     (\<exists>srv. snd m = Inr srv \<and> y' = y\<lparr>server := srv, srv_calls := srv_calls y @ fst m\<rparr>)"
  by (auto simp: sys_act_def split: sum.split)

lemma sys_step_handler:
  assumes "reachable g (handler y)" and "useGlobalDomain E = g" and "sys_admissible i y"
    and "sys_step E L i y = Inr y'"
  shows "reachable g (handler y')"
proof (cases i)
  case (SubscriptionRequested cr a)
  with assms(4) have "step E (view_of (server y)) (Subscribe cr a) (handler y) = Inr (handler y')"
    by (auto simp: sys_step_def onParticipantRegistrationSubscriptionRequested_def)
  from reachable.step [OF assms(1,2) _ this] show ?thesis by (simp add: admissible_def)
next
  case (UnsubscriptionRequested cr a)
  with assms(4) have "step E (view_of (server y)) (Unsubscribe cr a) (handler y) = Inr (handler y')"
    by (auto simp: sys_step_def onParticipantRegistrationUnsubscriptionRequested_def)
  from reachable.step [OF assms(1,2) _ this] show ?thesis by (simp add: admissible_def)
next
  case (Callback j)
  with assms(4) have "step E (view_of (server y)) j (handler y) = Inr (handler y')"
    by (auto simp: sys_step_def simp del: step.simps)
  from reachable.step [OF assms(1,2) _ this] assms(3) Callback show ?thesis
    by (simp add: sys_admissible_def)
qed (use assms in \<open>auto simp: sys_step_def case_prod_beta\<close>)

lemma sys_reachable_handler: "sys_reachable g y \<Longrightarrow> reachable g (handler y)"
  by (induction rule: sys_reachable.induct) (auto intro: reachable.start sys_step_handler)

text \<open>Binding addresses makes calls to the registrar database only.\<close>

fun binds :: "srv_call \<Rightarrow> bool" where
  "binds (DbClear u c) = True"
| "binds (DbBind u c p l) = True"
| "binds _ = False"

lemma binding_calls:
  "c \<in> set (factory_bindings E L srv) \<Longrightarrow> binds c"
  "c \<in> set (focus_bindings E L accounts srv) \<Longrightarrow> binds c"
  "c \<in> set (room_bindings E L rooms srv) \<Longrightarrow> binds c"
  by (auto simp: factory_bindings_def focus_bindings_def room_bindings_def Let_def split: if_splits)

lemma onRegistrarDbWritable_ok:
  assumes "snd (onRegistrarDbWritable E L accounts chatRooms writable srv) = Inr srv'"
  shows "(\<forall>c \<in> set (fst (onRegistrarDbWritable E L accounts chatRooms writable srv)). binds c)
    \<and> mChatRooms srv' = mChatRooms srv
    \<and> (if writable \<and> \<not> mAddressesBound srv
       then srv' = srv\<lparr>mUuid := uuid_of L srv, mAddressesBound := True\<rparr>
       else srv' = srv \<and> fst (onRegistrarDbWritable E L accounts chatRooms writable srv) = [])"
proof (cases "writable \<and> \<not> mAddressesBound srv")
  case True
  then have "snd (bindAddresses E L accounts chatRooms srv) = Inr srv'"
    using assms by (simp add: onRegistrarDbWritable_def)
  from bindAddresses_ok [OF _ this] True show ?thesis
    by (auto simp: onRegistrarDbWritable_def dest: binding_calls split: if_splits)
next
  case False
  with assms show ?thesis
    by (cases writable) (auto simp: onRegistrarDbWritable_def bindAddresses_def)
qed

lemma FocusListener_calls:
  "c \<in> set (fst (FocusListener_onRecordFound E L n uuid r)) \<Longrightarrow>
     \<exists>args. c = Method ''account'' ''setContactAddress'' args"
  by (auto simp: FocusListener_onRecordFound_def Let_def guardA_def seqA_def
      split: option.splits if_splits sum.splits)

lemma fold_upd_rooms_other:
  "(\<And>c. c \<in> set cs \<Longrightarrow> binds c \<or> (\<exists>args. c = Method ''account'' ''setContactAddress'' args)) \<Longrightarrow>
     fold upd_rooms cs S = S"
proof (induction cs arbitrary: S)
  case (Cons c cs)
  then have "binds c \<or> (\<exists>args. c = Method ''account'' ''setContactAddress'' args)" by simp
  then have "upd_rooms c S = S" by (cases c) (auto simp: upd_rooms_def split: list.splits arg.splits)
  with Cons show ?case by simp
qed simp

text \<open>
  The chat rooms the server listens to are exactly those it keeps in \<^verbatim>\<open>mChatRooms\<close>: a room is
  kept from its instantiation to its deletion, also when it is instantiated more than once.
\<close>

lemma listened_rooms_kept:
  assumes "sys_reachable g y"
  shows "listened_rooms (srv_calls y) = set (mChatRooms (server y))"
  using assms
proof (induction rule: sys_reachable.induct)
  case (sys_start srv delay)
  then show ?case by (simp add: listened_rooms_def)
next
  case (sys_step y E i L y')
  show ?case
  proof (cases i)
    case (RoomState cr st)
    with sys_step show ?thesis
      by (auto simp: sys_step_def onChatRoomStateChanged_def listened_rooms_append upd_rooms_def
          split: if_splits)
  next
    case Iterate
    with sys_step show ?thesis
      by (auto simp: sys_step_def server_run_def listened_rooms_append upd_rooms_def)
  next
    case (RegistrarWritable writable accounts rooms)
    with sys_step obtain srv where
      ok: "snd (onRegistrarDbWritable E L accounts rooms writable (server y)) = Inr srv"
      and y': "y' = y\<lparr>server := srv, srv_calls := srv_calls y
        @ fst (onRegistrarDbWritable E L accounts rooms writable (server y))\<rparr>"
      by (auto simp: sys_step_def)
    note W = onRegistrarDbWritable_ok [OF ok]
    then show ?thesis
      using sys_step.IH by (simp add: y' listened_rooms_append fold_upd_rooms_other)
  next
    case (FocusRecord n uuid r)
    with sys_step have "server y' = server y" and
      "srv_calls y' = srv_calls y @ fst (FocusListener_onRecordFound E L n uuid r)"
      by (auto simp: sys_step_def action_simps)
    with sys_step.IH FocusListener_calls show ?thesis
      by (simp add: listened_rooms_append fold_upd_rooms_other)
  qed (use sys_step in \<open>auto simp: sys_step_def\<close>)
qed

definition sample_system :: system where
  "sample_system = \<lparr>server = started_server\<lparr>mChatRooms := [5]\<rparr>, handler = world_init 600,
     srv_calls = [Method ''ChatRoom'' ''addListener'' [ARoom 5, AThis]]\<rparr>"

lemma sample_system_reachable: "sys_reachable False sample_system"
proof -
  have "sys_reachable False \<lparr>server = started_server, handler = world_init 600, srv_calls = []\<rparr>"
    by (rule sys_start) (simp add: started_server_def)
  then show ?thesis
    by (rule sys_step [where E = sample_env and i = "RoomState 5 Instantiated"])
      (simp_all add: sys_admissible_def sys_step_def onChatRoomStateChanged_def sample_system_def
        started_server_def)
qed

section \<open>Stopping\<close>

lemma server_stop_released:
  assumes "sys_reachable g y" and "useGlobalDomain E = g"
  shows "\<exists>y'. server_stop E y = Inr y' \<and> listened_rooms (srv_calls y') = {}
    \<and> mSubscriptions (handler y') = [] \<and> clients (handler y') = Map.empty
    \<and> observers (calls (handler y')) = {} \<and> db_subscriptions (calls (handler y')) = {}
    \<and> open_dialogs (calls (handler y')) = Map.empty \<and> \<not> core_listening (calls (handler y'))
    \<and> last (srv_calls y') = Method ''mCore'' ''stop'' []"
proof -
  obtain w where w: "unsubscribeAll E (handler y) = Inr w" "mSubscriptions w = []" "clients w = Map.empty"
    "observers (calls w) = {}" "db_subscriptions (calls w) = {}" "open_dialogs (calls w) = Map.empty"
    "\<not> core_listening (calls w)"
    using unsubscribeAll_keeps_released [OF sys_reachable_handler [OF assms(1)] assms(2)] by blast
  let ?cs = "srv_calls y @ [Method ''mCore'' ''removeListener'' [AThis],
      Method ''mRegistrarDb'' ''removeStateListener'' [AThis]]
    @ map (\<lambda>cr. Method ''ChatRoom'' ''removeListener'' [ARoom cr, AThis]) (mChatRooms (server y))
    @ [Method ''mCore'' ''stop'' []]"
  have "listened_rooms ?cs = {}"
    using listened_rooms_kept [OF assms(1)]
    by (simp add: listened_rooms_append fold_remove_rooms upd_rooms_def)
  with w show ?thesis
    by (intro exI [of _ "y\<lparr>handler := w, srv_calls := ?cs\<rparr>"]) (simp add: server_stop_def Let_def)
qed

text \<open>
  C10. From every reachable state the server can be stopped without a fault, and then it listens
  to no chat room, and its subscription handler has no subscription, client, observer, registrar
  listener or open dialog left; the core is stopped last, after the dialogs were ended.
\<close>

theorem stop_releases_everything:
  assumes "sys_reachable g y" and "useGlobalDomain E = g"
  shows "\<exists>y'. server_stop E y = Inr y' \<and> listened_rooms (srv_calls y') = {}
    \<and> mSubscriptions (handler y') = [] \<and> clients (handler y') = Map.empty
    \<and> observers (calls (handler y')) = {} \<and> db_subscriptions (calls (handler y')) = {}
    \<and> open_dialogs (calls (handler y')) = Map.empty \<and> \<not> core_listening (calls (handler y'))
    \<and> last (srv_calls y') = Method ''mCore'' ''stop'' []"
  using assms by (rule server_stop_released)

theorem stop_releases_everything_witness:
  "\<exists>y'. server_stop sample_env sample_system = Inr y' \<and> listened_rooms (srv_calls y') = {}"
  using stop_releases_everything [OF sample_system_reachable sample_useGlobalDomain] by blast

end
