(* ===== verification/MainProgram.thy ===== *)
theory MainProgram
  imports CommandLine ServerRuntime
begin

text \<open>
  The main program: \<^verbatim>\<open>flexisip_conference::main\<close> of \<^verbatim>\<open>src/src/main/flexisip-conference.cc\<close> in its
  phases, around the start, the run and the stop of the server, and \<^verbatim>\<open>main\<close> of \<^verbatim>\<open>src/src/main.cc\<close>,
  which turns exceptions into exit codes.
\<close>

section \<open>The environment\<close>

datatype parse_result = Parsed Options | ParseExit int | ParseError string

text \<open>
  What the linked code, the operating system and the build give. \<open>lib_raises\<close> is the exception a
  call raises, if any; the values of \<open>cfg_global\<close> are those after \<^verbatim>\<open>load\<close>; the fields that start
  with \<open>srv\<close> are the arguments of the model of the server; \<open>loop_inputs\<close> is what happens to the server
  while the main loop runs.
\<close>

record main_lib =
  cmd_parse :: "string list \<Rightarrow> parse_result"
  cmd_failure :: "string \<Rightarrow> int"  \<comment> \<open>the status of the \<^verbatim>\<open>ExitException\<close> that \<^verbatim>\<open>failure\<close> throws\<close>
  lib_raises :: "main_call \<Rightarrow> main_error option"
  cfg_root :: entry
  cfg_find :: "string \<Rightarrow> entry option"
  module_chain :: "(string \<times> bool) list"
  cfg_load :: "string \<Rightarrow> bool \<Rightarrow> int"
  cfg_global :: config
  logLevelFromName :: "string \<Rightarrow> server_error + int"
  LOG_DEBUG :: int
  LOG_WARNING :: int
  LOG_ERROR :: int
  setShowBodyFor_error :: "string \<Rightarrow> string option"
  open_stream :: "string \<rightharpoonup> istream"
  proc_files :: "string \<rightharpoonup> string"
  getrlimit_nofile :: "rlimit option"
  can_open :: "string \<Rightarrow> bool"
  getpid :: nat
  config_dir :: string
  preferredRoute :: string
  with_snmp :: bool
  with_systemd :: bool
  sd_notify_rc :: int
  run_flag :: bool  \<comment> \<open>\<^verbatim>\<open>run\<close> when the main loop would be entered\<close>
  loop_inputs :: "sys_input list"
  cleanup_tasks :: "(nat \<Rightarrow> bool) list"
  stop_time :: int  \<comment> \<open>milliseconds\<close>
  clock :: "nat \<Rightarrow> int"
  srv_env :: env
  srv_strings :: string_lib
  srv_init :: init_lib
  srv_os :: os
  srv_files :: "string \<rightharpoonup> string"
  srv_to_string :: "nat \<Rightarrow> string"
  srv_config :: config
  exit_code_of :: "server_error \<Rightarrow> int option"  \<comment> \<open>\<open>None\<close> for a class not derived from \<^verbatim>\<open>Exit\<close>\<close>
  what_of :: "server_error \<Rightarrow> string option"  \<comment> \<open>\<open>None\<close> for a null pointer\<close>

type_synonym 'a main_action = "(main_call, main_error, 'a) action"

definition api :: "string \<Rightarrow> string list \<Rightarrow> unit main_action" where
  "api f args = call (Api f args)"

definition lcall :: "main_lib \<Rightarrow> main_call \<Rightarrow> unit main_action" where
  "lcall M c = ([c], case lib_raises M c of None \<Rightarrow> Inr () | Some e \<Rightarrow> Inl e)"

definition outputs :: "main_call list \<Rightarrow> unit main_action" where
  "outputs cs = (cs, Inr ())"

text \<open>
  A value the server or the configuration gives, and a part of the server that makes calls. A null
  pointer used and \<^verbatim>\<open>front\<close> of an empty list, which refers to no element, are not exceptions.
\<close>

definition thrown :: "server_error \<Rightarrow> main_error" where
  "thrown e = (case e of NullPointer \<Rightarrow> Undefined NullDeref | EmptyFront \<Rightarrow> Undefined DanglingRef | _ \<Rightarrow> Thrown e)"

definition liftG :: "server_error + 'a \<Rightarrow> 'a main_action" where
  "liftG r = liftA (map_sum thrown id r)"

definition liftServer :: "(srv_call, server_error, 'a) action \<Rightarrow> 'a main_action" where
  "liftServer m = (map Server (fst m), map_sum thrown id (snd m))"

definition liftFault :: "fault + 'a \<Rightarrow> 'a main_action" where
  "liftFault r = liftA (map_sum Undefined id r)"

definition sys_thrown :: "sys_error \<Rightarrow> main_error" where
  "sys_thrown e = (case e of Fault f \<Rightarrow> Undefined f | Raised x \<Rightarrow> thrown x)"

definition liftSys :: "sys_error + 'a \<Rightarrow> 'a main_action" where
  "liftSys r = liftA (map_sum sys_thrown id r)"

section \<open>Until the configuration is loaded\<close>

definition main_parse :: "main_lib \<Rightarrow> string list \<Rightarrow> Options main_action" where
  "main_parse M argv =
     (case cmd_parse M argv of
        Parsed opts \<Rightarrow> ret opts
      | ParseExit status \<Rightarrow> raise (TclapExitException status)
      | ParseError exn \<Rightarrow> raise (TclapExitException (cmd_failure M exn)))"

text \<open>First logger configuration, overrides, signals, deprecated sections.\<close>

definition main_configure :: "main_lib \<Rightarrow> Options \<Rightarrow> unit main_action" where
  "main_configure M opts =
     seqA (call (LoggerConfigure
       \<lparr>enableStandardOutput = \<not> (disableStdout opts \<or> rewriteConf opts),
        level = (if useDebug opts then LOG_DEBUG M else LOG_WARNING M),
        enableSyslog = disableStdout opts, syslogLevel = LOG_ERROR M,
        enableUserErrors = useDebug opts, logFilename = '''', logDirectory = ''''\<rparr>)) (\<lambda>_.
     let oset = oset_loop (overrideConfig opts) Map.empty
     in seqA (outputs [Api ''SuRoot'' [], Api ''signal'' [''SIGPIPE'', ''SIG_IGN''],
                Api ''signal'' [''SIGTERM'', ''flexisip_stop''], Api ''signal'' [''SIGINT'', ''flexisip_stop''],
                Api ''signal'' [''SIGHUP'', ''flexisip_reopen_log_files''], Api ''ConfigManager'' [],
                SetOverrideMap oset]) (\<lambda>_.
        outputs (deprecate_sections (cfg_root M))))"

text \<open>The options that print and leave; the value is the exit code, if they do.\<close>

definition main_listing :: "main_lib \<Rightarrow> Options \<Rightarrow> int option main_action" where
  "main_listing M opts =
     (let module = (if dumpAll opts then ''all'' else dumpDefault opts)
      in if module \<noteq> ''''
         then seqA (dump_config (cfg_root M) (cfg_find M) (module_chain M) module (displayExperimental opts) True
                (removeDeprecated opts) (dumpFormat opts)) (\<lambda>_. ret (Some EXIT_SUCCESS))
         else if dumpMibs opts then seqA (api ''MibDumper'' []) (\<lambda>_. ret (Some EXIT_SUCCESS))
         else if listModules opts
         then seqA (outputs (list_sections (cfg_root M) True)) (\<lambda>_. ret (Some EXIT_SUCCESS))
         else if listSections opts
         then seqA (outputs (list_sections (cfg_root M) False)) (\<lambda>_. ret (Some EXIT_SUCCESS))
         else if listOverrides opts \<noteq> ''''
         then seqA (outputs (list_overrides (listOverrides opts) (cfg_root M))) (\<lambda>_. ret (Some EXIT_SUCCESS))
         else ret None)"

definition main_load :: "main_lib \<Rightarrow> Options \<Rightarrow> int option main_action" where
  "main_load M opts =
     seqA (lcall M (Load (configFile opts) (rewriteConf opts))) (\<lambda>_.
     seqA (guardA (cfg_load M (configFile opts) (rewriteConf opts) \<noteq> - 1) (Thrown (BadConfiguration
       (''No configuration file found at '' @ [CHR 0x27] @ configFile opts @ [CHR 0x27] @ ''. A default ''
        @ [CHR 0x27] @ ''flexisip-conference.conf'' @ [CHR 0x27] @ '' file should be installed in ''
        @ [CHR 0x27] @ config_dir M @ [CHR 0x27]
        @ ''. Please edit it and restart flexisip-conference when ready. Alternatively, a default configuration ''
        @ ''file can be generated using '' @ [CHR 0x27] @ ''--dump-default all'' @ [CHR 0x27] @ ''.'')))) (\<lambda>_.
       if rewriteConf opts
       then seqA (dump_config (cfg_root M) (cfg_find M) (module_chain M) ''all'' (displayExperimental opts) False
              (removeDeprecated opts) ''file'') (\<lambda>_. ret (Some EXIT_SUCCESS))
       else if displayExperimental opts then ret (Some EXIT_FAILURE)
       else ret None))"

section \<open>Set-up\<close>

text \<open>\<^verbatim>\<open>regex_replace\<close> of \<open>{server}\<close>, from the left.\<close>

fun replace_server :: "string \<Rightarrow> string \<Rightarrow> string" where
  "replace_server fName [] = []"
| "replace_server fName (c # cs) =
     (if prefix ''{server}'' (c # cs) then fName @ replace_server fName (drop 7 cs)
      else c # replace_server fName cs)"

text \<open>Core dumps, host addresses, the log level of the SIP stack.\<close>

definition setup_stack :: "main_lib \<Rightarrow> Options \<Rightarrow> string main_action" where
  "setup_stack M opts =
     seqA (liftG (getBool (cfg_global M) ''dump-corefiles'')) (\<lambda>enableCoreDumps.
     seqA (outputs [Api ''ortp_init'' [], Api ''su_init'' [], Api ''sip_update_default_mclass'' []]) (\<lambda>_.
     seqA (whenA enableCoreDumps (call (Setrlimit RLIMIT_CORE \<lparr>rlim_cur = - 1, rlim_max = - 1\<rparr>))) (\<lambda>_.
     seqA (outputs (override_hosts (hostsOverride opts))) (\<lambda>_.
     seqA (liftG (getString (cfg_global M) ''log-level'')) (\<lambda>logLevel.
     seqA (api ''su_log_redirect'' []) (\<lambda>_.
     seqA (if useDebug opts \<or> logLevel = ''debug''
           then seqA (liftG (getInt (cfg_global M) ''sofia-level'')) (\<lambda>sofiaLevel.
                seqA (guardA (\<not> (sofiaLevel < 1 \<or> 9 < sofiaLevel)) (BadValue ''sofia-level'')) (\<lambda>_.
                  call (SofiaLevel sofiaLevel)))
           else ret ()) (\<lambda>_.
       ret logLevel)))))))"

text \<open>The passphrase, the PID file and the second configuration of the logger.\<close>

definition setup_logger :: "main_lib \<Rightarrow> Options \<Rightarrow> string \<Rightarrow> unit main_action" where
  "setup_logger M opts logLevel =
     (let g = cfg_global M
      in seqA (case getPkcsPassphrase (open_stream M) (pkcsFile opts) of
                 None \<Rightarrow> raise NoReturn | Some passphrase \<Rightarrow> ret ()) (\<lambda>_.
         seqA (outputs (makePidFile (can_open M) (getpid M) (pidFile opts))) (\<lambda>_.
         seqA (liftG (getString g ''log-filename'')) (\<lambda>filename.
         seqA (if rewriteConf opts then ret (LOG_ERROR M)
               else if useDebug opts then ret (LOG_DEBUG M)
               else liftG (logLevelFromName M logLevel)) (\<lambda>lvl.
         seqA (liftG (getString g ''syslog-level'')) (\<lambda>syslog.
         seqA (liftG (logLevelFromName M syslog)) (\<lambda>syslogLvl.
         seqA (if useDebug opts then ret True else liftG (getBool g ''user-errors-logs'')) (\<lambda>userErrors.
         seqA (liftG (getString g ''log-directory'')) (\<lambda>directory.
         seqA (call (LoggerConfigure
                 \<lparr>enableStandardOutput = \<not> disableStdout opts, level = lvl, enableSyslog = useSyslog opts,
                  syslogLevel = syslogLvl, enableUserErrors = userErrors,
                  logFilename = replace_server ''conference'' filename, logDirectory = directory\<rparr>)) (\<lambda>_.
         seqA (liftG (getString g ''contextual-log-filter'')) (\<lambda>contextualFilter.
         seqA (api ''setContextualFilter'' [contextualFilter]) (\<lambda>_.
         seqA (liftG (getString g ''contextual-log-level'')) (\<lambda>contextualLevel.
         seqA (liftG (logLevelFromName M contextualLevel)) (\<lambda>contextualLvl.
           call (ContextualLevel contextualLvl)))))))))))))))"

text \<open>Bodies in logs, file descriptors, the memory watcher, the objects of the SIP stack.\<close>

definition setup_services :: "main_lib \<Rightarrow> unit main_action" where
  "setup_services M =
     seqA (liftG (getString (cfg_global M) ''show-body-for'')) (\<lambda>showBodyFor.
     seqA (case setShowBodyFor_error M showBodyFor of
             None \<Rightarrow> api ''setShowBodyFor'' [showBodyFor]
           | Some e \<Rightarrow> raise (Thrown (BadConfigurationValue ''show-body-for''
               (''it must only contain SIP method names, whitespace separated ('' @ e @ '')'')))) (\<lambda>_.
     seqA (outputs (snd (increaseFDLimit (proc_files M) (getrlimit_nofile M) 0))) (\<lambda>_.
     seqA (liftG (getDuration (cfg_global M) ''memory-usage-log-interval'')) (\<lambda>interval.
     seqA (whenA (seconds_of interval \<noteq> 0) (api ''MemoryWatcher'' [])) (\<lambda>_.
     seqA (lcall M (Api ''AuthDb'' [])) (\<lambda>_.
     seqA (lcall M (Api ''RegistrarDb'' [])) (\<lambda>_.
     seqA (lcall M (Api ''Agent'' [])) (\<lambda>_.
       outputs setOpenSSLThreadSafe))))))))"

section \<open>Serving\<close>

fun sys_run :: "env \<Rightarrow> server_lib \<Rightarrow> sys_input list \<Rightarrow> system \<Rightarrow> sys_error + system" where
  "sys_run E L [] y = Inr y"
| "sys_run E L (i # is) y = bindE (sys_step E L i y) (sys_run E L is)"

definition started_system :: "ConferenceServer \<times> world \<Rightarrow> system" where
  "started_system p = \<lparr>server = fst p, handler = snd p, srv_calls = []\<rparr>"

definition srv_lib :: "main_lib \<Rightarrow> server_lib" where
  "srv_lib M = server_lib.truncate (srv_init M)"

definition run_init :: "main_lib \<Rightarrow> (srv_call, server_error, ConferenceServer \<times> world) action" where
  "run_init M = init_server (srv_env M) (srv_strings M) (srv_init M) (srv_os M) (srv_files M)
     (srv_to_string M) (srv_config M) (ConferenceServer_init (preferredRoute M))"

text \<open>SNMP, the server's start, systemd, the main loop; the value is the system when it ends.\<close>

definition main_serve :: "main_lib \<Rightarrow> system main_action" where
  "main_serve M =
     seqA (if with_snmp M
           then seqA (liftG (getBool (cfg_global M) ''enable-snmp'')) (\<lambda>enabled.
                  outputs (if enabled
                    then [Api ''SnmpAgent'' [], Api ''sendNotification'' [''Flexisip conference-server starting''],
                          Api ''setNotifier'' []] else []))
           else ret ()) (\<lambda>_.
     seqA (liftServer (run_init M)) (\<lambda>started.
     seqA (if with_systemd M
           then seqA (api ''sd_notify'' [''READY=1'']) (\<lambda>_.
                seqA (guardA (0 \<le> sd_notify_rc M) (Thrown (ExitFailure
                  ''Could not notify systemd that Flexisip-conference has started successfully''))) (\<lambda>_.
                seqA (liftG (getDuration (cfg_global M) ''watchdog-notify-interval'')) (\<lambda>_.
                  api ''watchdogTimer'' [])))
           else ret ()) (\<lambda>_.
       if run_flag M
       then seqA (api ''root->run'' []) (\<lambda>_.
            seqA (liftSys (sys_run (srv_env M) (srv_lib M) (loop_inputs M) (started_system started))) (\<lambda>y.
            seqA (outputs (map Server (srv_calls y))) (\<lambda>_. ret y)))
       else ret (started_system started))))"

text \<open>The stop; the value is the exit code and the system afterwards.\<close>

definition main_stop :: "main_lib \<Rightarrow> Options \<Rightarrow> system \<Rightarrow> (int \<times> system) main_action" where
  "main_stop M opts y =
     seqA (api ''unloadConfig'' []) (\<lambda>_.
     seqA (liftFault (server_stop (srv_env M) y)) (\<lambda>y'.
     seqA (outputs (map Server (drop (length (srv_calls y)) (srv_calls y')))) (\<lambda>_.
     seqA (case cleanup_loop (clock M) (cleanup_tasks M) (stop_time M + 5000) EXIT_SUCCESS 0 of
             None \<Rightarrow> raise NoReturn | Some code \<Rightarrow> ret code) (\<lambda>errcode.
     seqA (if with_snmp M
           then seqA (liftG (getBool (cfg_global M) ''enable-snmp'')) (\<lambda>enabled.
                  outputs (if enabled
                    then [Api ''sendNotification'' [''Flexisip conference-server exiting normally'']] else []))
           else ret ()) (\<lambda>_.
     seqA (api ''bctbx_uninit_logger'' []) (\<lambda>_.
       ret (errcode, y')))))))"

section \<open>The program\<close>

text \<open>The exit code, and the system that was stopped if the server ran.\<close>

definition flexisip_main :: "main_lib \<Rightarrow> string list \<Rightarrow> (int \<times> system option) main_action" where
  "flexisip_main M argv =
     seqA (main_parse M argv) (\<lambda>opts.
     seqA (main_configure M opts) (\<lambda>_.
     seqA (main_listing M opts) (\<lambda>early.
       case early of
         Some code \<Rightarrow> ret (code, None)
       | None \<Rightarrow>
           seqA (main_load M opts) (\<lambda>early'.
           case early' of
             Some code \<Rightarrow> ret (code, None)
           | None \<Rightarrow>
               seqA (setup_stack M opts) (\<lambda>logLevel.
               seqA (setup_logger M opts logLevel) (\<lambda>_.
               seqA (setup_services M) (\<lambda>_.
               seqA (main_serve M) (\<lambda>y.
               seqA (main_stop M opts y) (\<lambda>(code, y').
                 ret (code, Some y'))))))))))"

text \<open>\<^verbatim>\<open>main\<close>: what is logged and the exit status; \<open>Inl\<close> if it never gets there.\<close>

datatype log_line = LogD string | LogE string

definition program_main :: "main_lib \<Rightarrow> string list \<Rightarrow> log_line list \<times> (main_error + int)" where
  "program_main M argv =
     (case snd (flexisip_main M argv) of
        Inr (code, y) \<Rightarrow> ([], Inr code)
      | Inl (TclapExitException status) \<Rightarrow> ([], Inr status)
      | Inl (ExitSuccess message) \<Rightarrow>
          (case message of
             Some (c # cs) \<Rightarrow> ([LogD (''Exit success: '' @ c # cs)], Inr EXIT_SUCCESS)
           | _ \<Rightarrow> ([], Inr EXIT_SUCCESS))
      | Inl (Exit code message) \<Rightarrow>
          (case message of
             Some (c # cs) \<Rightarrow> ([LogE (''Exit failure: '' @ c # cs)], Inr code)
           | _ \<Rightarrow> ([], Inr code))
      | Inl (Thrown e) \<Rightarrow>
          (case exit_code_of M e of
             Some code \<Rightarrow>
               (case what_of M e of
                  Some (c # cs) \<Rightarrow> ([LogE (''Exit failure: '' @ c # cs)], Inr code)
                | _ \<Rightarrow> ([], Inr code))
           | None \<Rightarrow>
               ([LogE (''Error, caught an unexpected exception: '' @ (case what_of M e of None \<Rightarrow> '''' | Some w \<Rightarrow> w))],
                Inr EXIT_FAILURE))
      | Inl (BadValue n) \<Rightarrow>
          (case exit_code_of M (BadConfigurationValue n '''') of
             Some code \<Rightarrow>
               (case what_of M (BadConfigurationValue n '''') of
                  Some (c # cs) \<Rightarrow> ([LogE (''Exit failure: '' @ c # cs)], Inr code)
                | _ \<Rightarrow> ([], Inr code))
           | None \<Rightarrow>
               ([LogE (''Error, caught an unexpected exception: ''
                  @ (case what_of M (BadConfigurationValue n '''') of None \<Rightarrow> '''' | Some w \<Rightarrow> w))],
                Inr EXIT_FAILURE))
      | Inl (StdException w) \<Rightarrow> ([LogE (''Error, caught an unexpected exception: '' @ w)], Inr EXIT_FAILURE)
      | Inl UnknownException \<Rightarrow> ([LogE ''Error, caught an unknown exception''], Inr EXIT_FAILURE)
      | Inl e \<Rightarrow> ([], Inl e))"

end
