(* ===== verification/Lifetime.thy ===== *)
theory Lifetime
  imports MainProgram
begin

text \<open>
  What the phases of the main program can call and raise, and the life of the server in it: a
  successful start gives a state of the running system, every run of admissible inputs succeeds up to
  one of the inputs that end the main loop, and the stop releases what the run acquired.
\<close>

section \<open>Calls and exceptions of the phases\<close>

text \<open>Every call satisfies \<open>P\<close> and every exception \<open>Q\<close>.\<close>

definition within :: "('c \<Rightarrow> bool) \<Rightarrow> ('e \<Rightarrow> bool) \<Rightarrow> ('c, 'e, 'a) action \<Rightarrow> bool" where
  "within P Q m \<longleftrightarrow> (\<forall>c \<in> set (fst m). P c) \<and> (\<forall>e. snd m = Inl e \<longrightarrow> Q e)"

named_theorems within_intros

lemma within_basic [within_intros]:
  "within P Q (ret x)" "P c \<Longrightarrow> within P Q (call c)" "Q e \<Longrightarrow> within P Q (raise e)"
  by (auto simp: within_def ret_def call_def raise_def)

lemma within_outputs [within_intros]:
  "P (Api f args) \<Longrightarrow> within P Q (api f args)" "\<forall>c \<in> set cs. P c \<Longrightarrow> within P Q (outputs cs)"
  by (auto simp: within_def api_def call_def outputs_def)

lemma within_seqA [within_intros]:
  "within P Q m \<Longrightarrow> (\<And>x. snd m = Inr x \<Longrightarrow> within P Q (f x)) \<Longrightarrow> within P Q (seqA m f)"
  by (auto simp: within_def seqA_def split: sum.split)

lemma within_guardA [within_intros]: "(\<not> b \<Longrightarrow> Q e) \<Longrightarrow> within P Q (guardA b e)"
  by (cases b) (simp_all add: within_intros)

lemma within_whenA [within_intros]: "(b \<Longrightarrow> within P Q m) \<Longrightarrow> within P Q (whenA b m)"
  by (cases b) (simp_all add: within_intros)

lemma thrown_cases: "thrown e = Thrown e \<or> (\<exists>f. thrown e = Undefined f)"
  by (cases e) (simp_all add: thrown_def)

lemma within_lifts [within_intros]:
  "\<forall>f. Q (Undefined f) \<Longrightarrow> \<forall>e. Q (Thrown e) \<Longrightarrow> within P Q (liftG r)"
  "\<forall>f. Q (Undefined f) \<Longrightarrow> within P Q (liftFault u)"
  "\<forall>f. Q (Undefined f) \<Longrightarrow> \<forall>e. Q (Thrown e) \<Longrightarrow> within P Q (liftSys v)"
  "\<forall>c. P (Server c) \<Longrightarrow> \<forall>f. Q (Undefined f) \<Longrightarrow> \<forall>e. Q (Thrown e) \<Longrightarrow> within P Q (liftServer s)"
proof -
  assume Q: "\<forall>f. Q (Undefined f)" "\<forall>e. Q (Thrown e)"
  then have t: "Q (thrown e)" for e using thrown_cases [of e] by metis
  then have "Q (sys_thrown e)" for e using Q by (cases e) (simp_all add: sys_thrown_def)
  with t show "within P Q (liftG r)" "within P Q (liftSys v)"
    by (auto simp: within_def liftG_def liftSys_def map_sum_def liftA_def split: sum.splits)
  show "within P Q (liftServer s)" if "\<forall>c. P (Server c)"
    using t that by (auto simp: within_def liftServer_def map_sum_def split: sum.splits)
qed (auto simp: within_def liftFault_def map_sum_def liftA_def split: sum.splits)

lemma within_lcall [within_intros]:
  "P c \<Longrightarrow> \<forall>e. lib_raises M c = Some e \<longrightarrow> Q e \<Longrightarrow> within P Q (lcall M c)"
  by (auto simp: within_def lcall_def split: option.splits)

lemma within_if [within_intros]:
  "(b \<Longrightarrow> within P Q m) \<Longrightarrow> (\<not> b \<Longrightarrow> within P Q n) \<Longrightarrow> within P Q (if b then m else n)"
  by simp

lemma within_dump [within_intros]:
  assumes "P (ApplyOverrides True)" and "\<forall>d n ex rd. P (Dump d n ex rd)" and "\<forall>e. Q (Thrown e)"
  shows "within P Q (dump_config root find_node chain part ex dd rd format)"
  using assms unfolding dump_config_def
  by (auto intro!: within_intros split: option.split entry.split)

section \<open>The life of the server\<close>

text \<open>
  Each input is one the linked code can give where the run gets to it; the run goes on after a step
  that succeeds.
\<close>

fun run_admissible :: "env \<Rightarrow> server_lib \<Rightarrow> sys_input list \<Rightarrow> system \<Rightarrow> bool" where
  "run_admissible E L [] y = True"
| "run_admissible E L (i # is) y =
     (sys_admissible i y
      \<and> (case sys_step E L i y of Inl f \<Rightarrow> True | Inr y' \<Rightarrow> run_admissible E L is y'))"

text \<open>
  The inputs that end the main loop, with the error they end it with: a NOTIFY that makes the program
  use a null pointer, a recording of the addresses or an answer to one that makes it throw.
\<close>

definition ends_loop :: "env \<Rightarrow> server_lib \<Rightarrow> sys_input \<Rightarrow> system \<Rightarrow> sys_error \<Rightarrow> bool" where
  "ends_loop E L i y e =
     (case i of
        Callback j \<Rightarrow> e = Fault NullDeref \<and> \<not> readable E j
      | RegistrarWritable writable accounts chatRooms \<Rightarrow>
          writable \<and> \<not> mAddressesBound (server y)
          \<and> (\<exists>x. e = Raised x \<and> snd (bindAddresses E L accounts chatRooms (server y)) = Inl x)
      | FocusRecord account uuid r \<Rightarrow>
          (\<exists>x. e = Raised x \<and> snd (FocusListener_onRecordFound E L account uuid r) = Inl x)
      | _ \<Rightarrow> False)"

lemma sys_step_cases:
  assumes "sys_reachable g y" and "useGlobalDomain E = g" and "sys_admissible i y"
  shows "case sys_step E L i y of Inl e \<Rightarrow> ends_loop E L i y e | Inr y' \<Rightarrow> sys_reachable g y'"
proof -
  note I = reachable_inv [OF sys_reachable_handler [OF assms(1)]]
  have "ends_loop E L i y e" if s: "sys_step E L i y = Inl e" for e
  proof (cases i)
    case (SubscriptionRequested cr a)
    obtain w' where "subscribe E (view_of (server y)) cr a (handler y) = Inr w'"
      by (rule subscribe_keeps [OF I assms(2)])
    with s show ?thesis
      by (simp add: sys_step_def SubscriptionRequested onParticipantRegistrationSubscriptionRequested_def
          sys_handle_def)
  next
    case (UnsubscriptionRequested cr a)
    obtain w' where "unsubscribe E cr a (handler y) = Inr w'"
      by (rule unsubscribe_keeps [OF I assms(2)])
    with s show ?thesis
      by (simp add: sys_step_def UnsubscriptionRequested onParticipantRegistrationUnsubscriptionRequested_def
          sys_handle_def)
  next
    case (Callback j)
    with assms(3) have "admissible j (handler y)" by (simp add: sys_admissible_def)
    from step_inv_cases [OF I assms(2) this, of "view_of (server y)"] s show ?thesis
      by (auto simp: sys_step_def Callback sys_handle_def ends_loop_def simp del: step.simps split: sum.splits)
  next
    case (RegistrarWritable writable accounts rooms)
    with s show ?thesis
      by (auto simp: sys_step_def sys_act_def ends_loop_def onRegistrarDbWritable_def bindAddresses_def
          split: sum.splits if_splits)
  next
    case (FocusRecord n uuid r)
    with s show ?thesis
      by (auto simp: sys_step_def sys_act_def ends_loop_def action_simps split: sum.splits)
  qed (use s in \<open>simp_all add: sys_step_def case_prod_beta\<close>)
  with sys_reachable.sys_step [OF assms] show ?thesis by (simp split: sum.split)
qed

lemma sys_run_cases:
  assumes "sys_reachable g y" and "useGlobalDomain E = g" and "run_admissible E L is y"
  shows "case sys_run E L is y of
      Inl e \<Rightarrow> \<exists>is1 i is2 y1. is = is1 @ i # is2 \<and> sys_run E L is1 y = Inr y1 \<and> ends_loop E L i y1 e
    | Inr y' \<Rightarrow> sys_reachable g y'"
  using assms(1,3)
proof (induction "is" arbitrary: y)
  case Nil
  then show ?case by simp
next
  case (Cons i "is")
  from Cons.prems(2) have "sys_admissible i y" by simp
  note S = sys_step_cases [OF Cons.prems(1) assms(2) this, of L]
  show ?case
  proof (cases "sys_step E L i y")
    case (Inl e)
    with S have "i # is = [] @ i # is \<and> sys_run E L [] y = Inr y \<and> ends_loop E L i y e" by simp
    then have "\<exists>is1 i' is2 y1. i # is = is1 @ i' # is2 \<and> sys_run E L is1 y = Inr y1 \<and> ends_loop E L i' y1 e"
      by blast
    with Inl show ?thesis by simp
  next
    case (Inr y1)
    with S Cons.prems(2) have "sys_reachable g y1" "run_admissible E L is y1" by simp_all
    from Cons.IH [OF this] show ?thesis
    proof (cases "sys_run E L is y1")
      case (Inl e)
      with \<open>sys_reachable g y1\<close> \<open>run_admissible E L is y1\<close> Cons.IH obtain is1 i' is2 y2
        where "is = is1 @ i' # is2" "sys_run E L is1 y1 = Inr y2" "ends_loop E L i' y2 e" by fastforce
      then have "i # is = (i # is1) @ i' # is2 \<and> sys_run E L (i # is1) y = Inr y2 \<and> ends_loop E L i' y2 e"
        using Inr by simp
      then have "\<exists>is1 i' is2 y1. i # is = is1 @ i' # is2 \<and> sys_run E L is1 y = Inr y1 \<and> ends_loop E L i' y1 e"
        by blast
      with Inl Inr show ?thesis by simp
    qed (simp add: Inr)
  qed
qed

lemma init_fresh:
  assumes "snd (init_server E SL I sys files ts cfg (ConferenceServer_init p)) = Inr (srv, w)"
  shows "mChatRooms srv = [] \<and> (\<exists>delay. w = world_init delay)"
proof -
  obtain srv1 srv2 srv3 srv4 proxy srv5 accounts srv6 delay where
    r: "snd (init_transport E I cfg (ConferenceServer_init p)) = Inr srv1" "snd (init_media cfg srv1) = Inr srv2"
    "snd (init_core_config I sys files cfg srv2) = Inr srv3" "snd (init_network E I sys ts cfg srv3) = Inr (srv4, proxy)"
    "snd (init_accounts E proxy (mConfServerUris srv4) False [] srv4) = Inr (srv5, accounts)"
    "snd (init_domains cfg srv5) = Inr srv6" "snd (init_start E I sys accounts srv6) = Inr srv"
    "w = world_init delay"
    using init_server_ok [OF assms] by metis
  have 1: "mChatRooms srv1 = [] \<and> \<not> mAddressesBound srv1"
    by (rule init_transport_ok [OF r(1)]) (simp add: ConferenceServer_init_def)
  have 2: "mChatRooms srv2 = [] \<and> \<not> mAddressesBound srv2"
    by (rule init_media_ok [OF r(2)]) (simp add: 1)
  have 4: "mChatRooms srv4 = [] \<and> \<not> mAddressesBound srv4"
    by (rule init_network_ok [OF r(4)]) (simp add: 2 init_core_config_ok [OF r(3)])
  have 6: "mChatRooms srv6 = [] \<and> \<not> mAddressesBound srv6"
    by (rule init_domains_ok [OF r(6)]) (use 4 init_accounts_ok [OF r(5)] in simp)
  with init_start_ok(2) [OF r(7)] r(8) show ?thesis by auto
qed

lemma started_reachable:
  assumes "snd (run_init M) = Inr p"
  shows "sys_reachable g (started_system p)"
proof -
  obtain srv w where p: "p = (srv, w)" by (cases p)
  from init_fresh [OF assms [unfolded run_init_def p]] show ?thesis
    by (auto simp: started_system_def p intro: sys_start)
qed

lemma serve_runs:
  assumes i: "snd (run_init M) = Inr p"
    and s: "with_snmp M \<Longrightarrow> \<exists>b. getBool (cfg_global M) ''enable-snmp'' = Inr b"
    and d: "with_systemd M \<Longrightarrow> 0 \<le> sd_notify_rc M \<and> (\<exists>d. getDuration (cfg_global M) ''watchdog-notify-interval'' = Inr d)"
  shows "snd (main_serve M) = map_sum sys_thrown id
    (sys_run (srv_env M) (srv_lib M) (if run_flag M then loop_inputs M else []) (started_system p))"
proof -
  have "snd (liftServer (run_init M)) = Inr p" using i by (simp add: liftServer_def)
  then show ?thesis
    using s d
    by (cases "with_snmp M"; cases "with_systemd M"; cases "run_flag M")
      (auto simp: main_serve_def snd_seqA liftG_def liftSys_def outputs_def api_def map_sum_def
        split: sum.split)
qed

lemma stop_releases:
  assumes "sys_reachable (useGlobalDomain (srv_env M)) y"
    and s: "with_snmp M \<Longrightarrow> \<exists>b. getBool (cfg_global M) ''enable-snmp'' = Inr b"
    and c: "cleanup_loop (clock M) (cleanup_tasks M) (stop_time M + 5000) EXIT_SUCCESS 0 = Some code"
  shows "\<exists>y'. snd (main_stop M opts y) = Inr (code, y') \<and> server_stop (srv_env M) y = Inr y'
    \<and> listened_rooms (srv_calls y') = {} \<and> mSubscriptions (handler y') = []
    \<and> clients (handler y') = Map.empty \<and> observers (calls (handler y')) = {}
    \<and> db_subscriptions (calls (handler y')) = {} \<and> open_dialogs (calls (handler y')) = Map.empty"
proof -
  obtain y' where y': "server_stop (srv_env M) y = Inr y'" "listened_rooms (srv_calls y') = {}"
    "mSubscriptions (handler y') = []" "clients (handler y') = Map.empty" "observers (calls (handler y')) = {}"
    "db_subscriptions (calls (handler y')) = {}" "open_dialogs (calls (handler y')) = Map.empty"
    using server_stop_released [OF assms(1) refl] by blast
  have "snd (main_stop M opts y) = Inr (code, y')"
    using s c y'(1) by (cases "with_snmp M")
      (auto simp: main_stop_def snd_seqA liftFault_def liftG_def outputs_def api_def)
  with y' show ?thesis by blast
qed

lemma cleanup_loop_returns:
  assumes "deadline < now k"
  obtains code where "cleanup_loop now tasks deadline EXIT_SUCCESS 0 = Some code"
    "code \<in> {EXIT_SUCCESS, EXIT_FAILURE}" "tasks = [] \<Longrightarrow> code = EXIT_SUCCESS"
proof -
  define k where "k = (LEAST k. list_all (\<lambda>finished. finished k) tasks \<or> deadline < now k)"
  have ex: "\<exists>k. list_all (\<lambda>finished. finished k) tasks \<or> deadline < now k" using assms by blast
  then have k: "list_all (\<lambda>finished. finished k) tasks \<or> deadline < now k"
    unfolding k_def by (rule LeastI_ex)
  have "\<forall>j. 0 \<le> j \<and> j < k \<longrightarrow> \<not> list_all (\<lambda>finished. finished j) tasks \<and> \<not> deadline < now j"
    using not_less_Least unfolding k_def by blast
  from cleanup_loop_skips [OF this] have "cleanup_loop now tasks deadline EXIT_SUCCESS 0
      = cleanup_loop now tasks deadline EXIT_SUCCESS k" by simp
  also have "\<dots> = Some (if list_all (\<lambda>finished. finished k) tasks then EXIT_SUCCESS else EXIT_FAILURE)"
    using k by (subst cleanup_loop.simps) auto
  finally show thesis by (rule that) (simp_all split: if_split)
qed

end
