(* ===== verification/Registry.thy ===== *)
theory Registry
  imports Requests
begin

text \<open>
  The map \<^verbatim>\<open>mClients\<close> of \<^verbatim>\<open>ExternalRegistrationSubscriptionClientsStore\<close> over the life of the
  server. Its entries are weak pointers, and an entry is erased only by \<^verbatim>\<open>acquireClient\<close>, just before
  it is written again; so what the map holds is decided by the SUBSCRIBE requests ever made, not by the
  clients that are alive. The comment on \<^verbatim>\<open>mClients\<close> in
  \<^verbatim>\<open>registration-subscription-factory.hh\<close> explains why.
\<close>

section \<open>The addresses a request was made for\<close>

definition followed :: "ext_call list \<Rightarrow> string set" where
  "followed cs = {asStringUriOnlyOrdered a | e a n d. CreateSubscribe e a n d \<in> set cs}"

lemma followed_simps [simp]:
  "followed [] = {}" "followed (cs @ ds) = followed cs \<union> followed ds"
  "followed (x # cs) = (case x of CreateSubscribe e a n d \<Rightarrow> {asStringUriOnlyOrdered a} | _ \<Rightarrow> {}) \<union> followed cs"
  by (auto simp: followed_def split: ext_call.splits)

lemma followed_room_calls: "\<forall>x \<in> set cs. is_room_call x \<Longrightarrow> followed cs = {}"
  by (auto simp: followed_def is_room_call_def split: ext_call.splits)

text \<open>An operation that neither looks for a client nor opens a dialog.\<close>

definition quiet :: "world \<Rightarrow> world \<Rightarrow> bool" where
  "quiet w w' \<longleftrightarrow> mClients w' = mClients w \<and> followed (calls w') = followed (calls w)
     \<and> next_event w' = next_event w"

lemma quiet_refl [simp]: "quiet w w"
  by (simp add: quiet_def)

lemma quiet_trans: "quiet w w1 \<Longrightarrow> quiet w1 w2 \<Longrightarrow> quiet w w2"
  by (simp add: quiet_def)

lemma quiet_upd [simp]:
  "quiet w (w'\<lparr>mSubscriptions := m\<rparr>) = quiet w w'" "quiet (w\<lparr>mSubscriptions := m\<rparr>) w' = quiet w w'"
  "quiet (w\<lparr>subs := h\<rparr>) w' = quiet w w'"
  by (simp_all add: quiet_def)

lemma quiet_emit: "\<forall>x \<in> set cs. is_room_call x \<Longrightarrow> quiet w (emit cs w)"
  by (simp add: quiet_def followed_room_calls)

lemma release_client_quiet: "release_client c w = Inr w' \<Longrightarrow> quiet w w'"
  by (auto simp: release_client_def quiet_def Let_def case_prod_beta Client_destroy_eq
      unregisterClient_def Client_unsubscribe_def split: option.splits if_splits)

lemma sub_stop_quiet: "sub_stop E s w = Inr w' \<Longrightarrow> quiet w w'"
  by (auto simp: sub_stop_def External_stop_def Own_stop_def quiet_def case_prod_beta
      split: option.splits subscription.splits if_splits)

lemma sub_release_quiet: "sub_release s w = Inr w' \<Longrightarrow> quiet w w'"
  by (auto simp: sub_release_def Let_def split: option.splits subscription.splits
      dest: release_client_quiet) (simp add: quiet_def)

text \<open>
  What the loop of \<^verbatim>\<open>removeSubscription\<close> does to the other fields is a sequence of stops and releases.
\<close>

lemma removeSubscription_loop_induct:
  assumes "removeSubscription_loop E r it w = Inr w'"
    and refl: "\<And>w. R w w" and trans: "\<And>w w1 w2. R w w1 \<Longrightarrow> R w1 w2 \<Longrightarrow> R w w2"
    and stop: "\<And>E s w w'. sub_stop E s w = Inr w' \<Longrightarrow> R w w'"
    and release: "\<And>s m w w'. sub_release s (w\<lparr>mSubscriptions := m\<rparr>) = Inr w' \<Longrightarrow> R w w'"
  shows "R w w'"
  using assms(1)
proof (induction E r it w rule: removeSubscription_loop.induct)
  case (1 E r w)
  then show ?case using refl by simp
next
  case (2 E r k s it w)
  from "2.prems" obtain sub where sub: "subs w s = Some sub" by (auto split: option.splits)
  show ?case
  proof (cases "sub_room sub = r")
    case False
    with "2.prems" sub "2.IH"(2) show ?thesis by simp
  next
    case True
    with "2.prems" sub obtain w1 w2 where w1: "sub_stop E s w = Inr w1"
      and w2: "sub_release s (w1\<lparr>mSubscriptions := mm_erase (k, s) (mSubscriptions w1)\<rparr>) = Inr w2"
      and r: "removeSubscription_loop E r it w2 = Inr w'"
      by (auto simp: bindE_eq_Inr_iff)
    show ?thesis
      using trans [OF trans [OF stop [OF w1] release [OF w2]] "2.IH"(1) [OF sub True w1 w2 r]] .
  qed
qed

lemma removeSubscription_loop_quiet: "removeSubscription_loop E r it w = Inr w' \<Longrightarrow> quiet w w'"
  by (erule removeSubscription_loop_induct) (auto intro: quiet_trans sub_stop_quiet dest: sub_release_quiet)

lemma stop_loop_quiet: "stop_loop E it w = Inr w' \<Longrightarrow> quiet w w'"
  by (induction E it w rule: stop_loop.induct)
    (auto simp: bindE_eq_Inr_iff dest: sub_stop_quiet intro: quiet_trans)

lemma clear_loop_quiet: "clear_loop it w = Inr w' \<Longrightarrow> quiet w w'"
proof (induction it w rule: clear_loop.induct)
  case (2 k s it w)
  then obtain w1 where w1: "sub_release s (w\<lparr>mSubscriptions := mm_erase (k, s) (mSubscriptions w)\<rparr>) = Inr w1"
    and "clear_loop it w1 = Inr w'" by (auto simp: bindE_eq_Inr_iff)
  with "2.IH" sub_release_quiet [OF w1] show ?case by (auto intro: quiet_trans)
qed simp

lemma notify_observers_room:
  "notify_observers E h targets lc = Inr cs \<Longrightarrow> \<forall>x \<in> set cs. is_room_call x"
proof (induction targets arbitrary: cs)
  case (Cons s targets)
  then obtain x cs1 cs2 where "External_callback E x lc = Inr cs1"
    "notify_observers E h targets lc = Inr cs2" "cs = cs1 @ cs2"
    by (auto simp: bindE_eq_Inr_iff split: option.splits subscription.splits)
  with Cons.IH show ?case using ext.deliver_room by auto
qed simp

lemma deliver_all_room: "deliver_all E h targets lcs = Inr cs \<Longrightarrow> \<forall>x \<in> set cs. is_room_call x"
proof (induction lcs arbitrary: cs)
  case (Cons lc lcs)
  then obtain cs1 cs2 where "notify_observers E h targets lc = Inr cs1"
    "deliver_all E h targets lcs = Inr cs2" "cs = cs1 @ cs2" by (auto simp: bindE_eq_Inr_iff)
  with Cons.IH notify_observers_room show ?case by (metis Un_iff set_append)
qed simp

text \<open>Only requests to follow somebody are not quiet.\<close>

lemma step_quiet:
  assumes "step E srv i w = Inr w'" and "\<And>r a. i \<noteq> Subscribe r a"
  shows "quiet w w'"
proof (cases i)
  case (Subscribe r a)
  with assms(2) show ?thesis by blast
next
  case (Unsubscribe r a)
  with assms(1) show ?thesis
    by (simp add: unsubscribe_def removeSubscription_def removeSubscription_loop_quiet)
next
  case UnsubscribeAll
  with assms(1) show ?thesis
    by (auto simp: unsubscribeAll_def removeAllSubscriptions_def bindE_eq_Inr_iff
        dest: stop_loop_quiet clear_loop_quiet intro: quiet_trans)
next
  case (RecordFound s r)
  with assms(1) show ?thesis
    by (auto simp: onRecordFound_def intro!: quiet_emit Own_callbacks_room(1) [rule_format]
        split: option.splits subscription.splits)
next
  case (ContactRegistered s r uid)
  with assms(1) show ?thesis
    by (auto simp: onContactRegistered_def bindE_eq_Inr_iff intro!: quiet_emit
        dest: Own_callbacks_room(2) split: option.splits subscription.splits)
next
  case (CoreNotify e body targets)
  with assms(1) show ?thesis
    by (auto simp: ClientFactory_onNotifyReceived_def bindE_eq_Inr_iff quiet_def
        dest!: deliver_all_room followed_room_calls split: option.splits sum.splits notify_error.splits)
next
  case (CoreStateChanged e st)
  with assms(1) show ?thesis
    by (auto simp: ClientFactory_onSubscriptionStateChanged_def Client_onSubscriptionStateChanged_def
        bindE_eq_Inr_iff quiet_def split: option.splits SubscriptionState.splits)
qed

section \<open>Following a participant\<close>

lemma acquireClient_registry:
  assumes "world_inv {} g w" and "acquireClient a w = (c, w1)"
  obtains k where "clients w1 c = Some k" "asStringUriOnlyOrdered (mTo k) = asStringUriOnlyOrdered a"
    "dom (mClients w1) = insert (asStringUriOnlyOrdered a) (dom (mClients w))"
    "followed (calls w1) = followed (calls w)"
    "mSubscribeEvent k = None \<or> asStringUriOnlyOrdered a \<in> dom (mClients w)"
proof (cases "\<exists>c k. mClients w (asStringUriOnlyOrdered a) = Some c \<and> clients w c = Some k")
  case True
  then obtain c' k where M: "mClients w (asStringUriOnlyOrdered a) = Some c'" "clients w c' = Some k"
    by blast
  note A = acquire_shared [OF assms(1) M]
  from assms(2) A(1) have "c = c'" "w1 = w\<lparr>use_count := (use_count w)(c' := use_count w c' + 1)\<rparr>"
    by (metis prod.inject)+
  with M A(3) show thesis by (intro that [of k]) auto
next
  case False
  then have dead: "\<And>c. mClients w (asStringUriOnlyOrdered a) = Some c \<Longrightarrow> clients w c = None"
    by auto
  have "followed (snd (registerClient f)) = {}" for f
    by (simp add: registerClient_def)
  moreover have "c = fst (acquireClient a w)" "w1 = snd (acquireClient a w)"
    by (simp_all add: assms(2))
  ultimately show thesis
    by (intro that [of "Client_init a"])
      (simp_all add: acquire_new_eq [where a = a, OF assms(1) dead] Client_init_def)
qed

lemma External_start_registry:
  assumes "External_start E s x w = Inr w'" and "mClient x = Some c" and "clients w c = Some k"
  shows "mClients w' = mClients w
    \<and> followed (calls w') = followed (calls w)
        \<union> (if mSubscribeEvent k = None then {asStringUriOnlyOrdered (mTo k)} else {})"
proof -
  have "list_all (readable_call E)
      (snd (snd (Client_subscribe (mSubscriptionRefreshDelay (mRegEventClientFactory w)) c (next_event w) k)))"
    by (simp add: Client_subscribe_def readable_call_def split: option.split)
  note cb = External_callbacks_eq [OF this]
  have "followed (ext.told E [x] lcs) = {}" for lcs
    using ext.told_room_calls by (rule followed_room_calls)
  then show ?thesis
    using assms by (cases "mSubscribeEvent k")
      (auto simp: External_start_def Let_def case_prod_beta cb [simplified]
        simp del: External_callbacks.simps, simp_all add: Client_subscribe_def)
qed

lemma subscribe_registry:
  assumes I: "world_inv {} g w" and R: "dom (mClients w) = followed (calls w)"
    and s: "subscribe E srv r a w = Inr w'"
  shows "dom (mClients w') = followed (calls w')"
proof -
  consider "w' = w" | "startSubscription E (OwnFactory_create E (capabilityCheckEnabled srv) r a) a w = Inr w'"
    | "startSubscription E (ExternalFactory_create (capabilityCheckEnabled srv) r a) a w = Inr w'"
    using s unfolding subscribe_eq [OF I]
    by (cases "(getSubscriptionKey a, r) \<in> store_abs w"; cases "getDomain a \<in> set (getLocalDomains srv)")
      (simp_all only: if_True if_False sum.inject simp_thms)
  then show ?thesis
  proof cases
    case 2
    then have "quiet w w'"
      by (auto simp: start_own_eq Let_def quiet_def Own_start_def split: if_splits)
    with R show ?thesis by (simp add: quiet_def)
  next
    case 3
    obtain c w1 where acq: "acquireClient a w = (c, w1)" by (cases "acquireClient a w")
    obtain k where k: "clients w1 c = Some k" "asStringUriOnlyOrdered (mTo k) = asStringUriOnlyOrdered a"
      "dom (mClients w1) = insert (asStringUriOnlyOrdered a) (dom (mClients w))"
      "followed (calls w1) = followed (calls w)"
      "mSubscribeEvent k = None \<or> asStringUriOnlyOrdered a \<in> dom (mClients w)"
      by (rule acquireClient_registry [OF I acq])
    let ?x = "External_init (capabilityCheckEnabled srv) r a (Some c)"
    let ?w = "w1\<lparr>subs := (subs w1)(next_sub w1 \<mapsto> External ?x), next_sub := next_sub w1 + 1,
                mSubscriptions := mm_insert (getSubscriptionKey a) (next_sub w1) (mSubscriptions w1)\<rparr>"
    from 3 acq have "External_start E (next_sub w1) ?x ?w = Inr w'"
      by (simp add: startSubscription_def ExternalFactory_create_def new_sub_def addSubscription_def
          sub_start_def)
    from External_start_registry [OF this, of c k] k R show ?thesis by auto
  qed (use R in simp)
qed

text \<open>
  C25. In every reachable state the map of weak pointers to clients has exactly the addresses a
  SUBSCRIBE request was ever made for as keys, alive or not: an entry is never given up when its
  client dies, so the map grows with every new external participant for the life of the process.
\<close>

theorem weak_entries_never_leave:
  assumes "reachable g w"
  shows "dom (mClients w) = {asStringUriOnlyOrdered a | e a n d. CreateSubscribe e a n d \<in> set (calls w)}
    \<and> {asStringUriOnlyOrdered (mTo k) | c k. clients w c = Some k} \<subseteq> dom (mClients w)"
proof
  have "dom (mClients w) = followed (calls w)"
    using assms
  proof (induction rule: reachable.induct)
    case (start delay)
    show ?case by (simp add: world_init_def)
  next
    case (step w E i srv w')
    show ?case
    proof (cases "\<exists>r a. i = Subscribe r a")
      case True
      then obtain r a where "i = Subscribe r a" by blast
      with step subscribe_registry [OF reachable_inv [OF step.hyps(1)]] show ?thesis by simp
    next
      case False
      with step step_quiet show ?thesis by (metis quiet_def)
    qed
  qed
  then show "dom (mClients w) = {asStringUriOnlyOrdered a | e a n d. CreateSubscribe e a n d \<in> set (calls w)}"
    by (simp only: followed_def)
  show "{asStringUriOnlyOrdered (mTo k) | c k. clients w c = Some k} \<subseteq> dom (mClients w)"
    using invD(5) [OF reachable_inv [OF assms]] unfolding inv_clients_def by blast
qed

text \<open>The last chat room that follows bob leaves: his client is gone, his entry stays.\<close>

lemma sample_all_left:
  obtains w' where "step sample_env sample_srv UnsubscribeAll sample_world = Inr w'"
    "reachable False w'" "clients w' = Map.empty" "quiet sample_world w'"
proof -
  obtain w' where w': "unsubscribeAll sample_env sample_world = Inr w'" "clients w' = Map.empty"
    using unsubscribeAll_keeps_released [OF sample_reachable sample_useGlobalDomain] by blast
  then have s: "step sample_env sample_srv UnsubscribeAll sample_world = Inr w'" by simp
  have "reachable False w'"
    by (rule reachable.step [OF sample_reachable sample_useGlobalDomain _ s])
      (simp add: admissible_def)
  moreover have "quiet sample_world w'" by (rule step_quiet [OF s]) simp
  ultimately show thesis using s w'(2) by (blast intro: that)
qed

theorem weak_entries_never_leave_witness:
  "\<exists>w'. step sample_env sample_srv UnsubscribeAll sample_world = Inr w' \<and> clients w' = Map.empty
     \<and> ''sip:bob@ext'' \<in> dom (mClients w')
     \<and> dom (mClients w') = {asStringUriOnlyOrdered a | e a n d. CreateSubscribe e a n d \<in> set (calls w')}"
proof -
  obtain w' where w': "step sample_env sample_srv UnsubscribeAll sample_world = Inr w'"
    "reachable False w'" "clients w' = Map.empty" "quiet sample_world w'"
    by (rule sample_all_left)
  have "''sip:bob@ext'' \<in> dom (mClients w')"
    using w'(4) by (simp add: quiet_def sample_world_def)
  with w'(1,3) weak_entries_never_leave [OF w'(2)] show ?thesis by blast
qed

end
