(* ===== verification/RunProps.thy ===== *)
theory RunProps
  imports Lifetime Registry
begin

text \<open>
  The running server over a whole run: how often its addresses are recorded, and how the configured
  domains decide by which kind of subscription a participant is followed.
\<close>

section \<open>Recording the addresses\<close>

text \<open>The accounts and chat rooms of the core when the registrar database first becomes writable.\<close>

fun first_writable :: "sys_input list \<Rightarrow> (Account list \<times> Address list) option" where
  "first_writable [] = None"
| "first_writable (i # is) =
     (case i of RegistrarWritable True accounts chatRooms \<Rightarrow> Some (accounts, chatRooms)
      | _ \<Rightarrow> first_writable is)"

definition all_bindings :: "env \<Rightarrow> server_lib \<Rightarrow> Account list \<Rightarrow> Address list \<Rightarrow> ConferenceServer
    \<Rightarrow> srv_call list" where
  "all_bindings E L accounts chatRooms srv =
     factory_bindings E L srv @ focus_bindings E L accounts srv
     @ (if textEnabled (mMediaConfig srv) then room_bindings E L chatRooms srv else [])"

lemma bindings_rooms:
  "all_bindings E L accounts chatRooms (srv\<lparr>mChatRooms := rs\<rparr>) = all_bindings E L accounts chatRooms srv"
  by (simp add: all_bindings_def factory_bindings_def focus_bindings_def room_bindings_def
      is_focus_address_def room_gruu_def uuid_of_def server_contact_def binding_parameters_def
      Let_def cong: if_cong)

lemma filter_all_bindings [simp]:
  "filter binds (all_bindings E L accounts chatRooms srv) = all_bindings E L accounts chatRooms srv"
  by (rule filter_True) (auto simp: all_bindings_def dest: binding_calls split: if_splits)

text \<open>What one step adds to the calls that record addresses.\<close>

lemma sys_step_binds:
  assumes "sys_step E L i y = Inr y'"
  shows "filter binds (srv_calls y') = filter binds (srv_calls y)
      @ (case i of RegistrarWritable True accounts chatRooms \<Rightarrow>
           if mAddressesBound (server y) then [] else all_bindings E L accounts chatRooms (server y)
         | _ \<Rightarrow> [])
    \<and> mAddressesBound (server y') = (mAddressesBound (server y) \<or> first_writable [i] \<noteq> None)
    \<and> (mAddressesBound (server y') \<or> (\<exists>rs. server y' = (server y)\<lparr>mChatRooms := rs\<rparr>))"
proof (cases i)
  case (RegistrarWritable writable accounts rooms)
  with assms obtain srv where
    ok: "snd (onRegistrarDbWritable E L accounts rooms writable (server y)) = Inr srv"
    and y': "y' = y\<lparr>server := srv, srv_calls := srv_calls y
      @ fst (onRegistrarDbWritable E L accounts rooms writable (server y))\<rparr>"
    by (auto simp: sys_step_def)
  note W = onRegistrarDbWritable_ok [OF ok]
  show ?thesis
  proof (cases "writable \<and> \<not> mAddressesBound (server y)")
    case True
    then have "snd (bindAddresses E L accounts rooms (server y)) = Inr srv"
      using ok by (simp add: onRegistrarDbWritable_def)
    from bindAddresses_ok [OF _ this] True RegistrarWritable show ?thesis
      by (simp add: y' onRegistrarDbWritable_def all_bindings_def [symmetric])
  next
    case False
    with W have "srv = server y" "fst (onRegistrarDbWritable E L accounts rooms writable (server y)) = []"
      by simp_all
    with False RegistrarWritable show ?thesis
      by (cases writable; cases y) (auto simp: y' intro: exI [of _ "mChatRooms (server y)"])
  qed
next
  case (FocusRecord n uuid r)
  then have "server y' = server y" and
    "srv_calls y' = srv_calls y @ fst (FocusListener_onRecordFound E L n uuid r)"
    using assms by (auto simp: sys_step_def action_simps)
  moreover have "filter binds (fst (FocusListener_onRecordFound E L n uuid r)) = []"
    using FocusListener_calls [of _ E L n uuid r] by (force simp: filter_empty_conv)
  ultimately show ?thesis
    using FocusRecord by (auto intro: exI [of _ "mChatRooms (server y)"])
qed (use assms in \<open>auto simp: sys_step_def onChatRoomStateChanged_def server_run_def
      intro: exI [of _ "mChatRooms (server y)"] split: if_splits\<close>)

lemma sys_run_binds:
  assumes "sys_run E L is y = Inr y'"
  shows "filter binds (srv_calls y') = filter binds (srv_calls y)
      @ (if mAddressesBound (server y) then []
         else case first_writable is of None \<Rightarrow> []
           | Some (accounts, chatRooms) \<Rightarrow> all_bindings E L accounts chatRooms (server y))
    \<and> mAddressesBound (server y') = (mAddressesBound (server y) \<or> first_writable is \<noteq> None)"
  using assms
proof (induction "is" arbitrary: y)
  case Nil
  then show ?case by simp
next
  case (Cons i "is")
  then obtain y1 where s: "sys_step E L i y = Inr y1" and r: "sys_run E L is y1 = Inr y'"
    by (auto simp: bindE_eq_Inr_iff)
  note S = sys_step_binds [OF s] and R = Cons.IH [OF r]
  show ?case
  proof (cases "mAddressesBound (server y1)")
    case True
    with S R show ?thesis
      by (auto split: sys_input.splits bool.splits option.splits)
  next
    case False
    with S obtain rs where "server y1 = (server y)\<lparr>mChatRooms := rs\<rparr>" and
      b: "\<not> mAddressesBound (server y)" and i: "first_writable [i] = None" by blast
    then have "all_bindings E L accounts chatRooms (server y1) = all_bindings E L accounts chatRooms (server y)"
      for accounts chatRooms by (simp add: bindings_rooms)
    with S R False b i show ?thesis
      by (auto split: sys_input.splits bool.splits option.splits)
  qed
qed

text \<open>
  C11. In a whole run of the server its addresses are recorded at most once: the calls that clear or
  record a binding are those of the first notification that the registrar database is writable, if
  they were not recorded when the server started; later notifications, chat rooms that come and go,
  and all other events make none. Afterwards the addresses count as recorded exactly if they did
  before or there was such a notification.
\<close>

theorem run_binds_once:
  assumes "sys_run E L is y = Inr y'"
  shows "filter binds (srv_calls y') = filter binds (srv_calls y)
      @ (if mAddressesBound (server y) then []
         else case first_writable is of None \<Rightarrow> []
           | Some (accounts, chatRooms) \<Rightarrow>
               factory_bindings E L (server y) @ focus_bindings E L accounts (server y)
               @ (if textEnabled (mMediaConfig (server y)) then room_bindings E L chatRooms (server y) else []))
    \<and> mAddressesBound (server y') = (mAddressesBound (server y) \<or> first_writable is \<noteq> None)"
  using sys_run_binds [OF assms] unfolding all_bindings_def .

definition writable_twice :: "sys_input list" where
  "writable_twice = [RegistrarWritable False [] [], RoomState 5 Instantiated,
     RegistrarWritable True sample_accounts [sample_address ''bob'' ''ext''], RegistrarWritable True [] []]"

definition unbound_system :: system where
  "unbound_system = \<lparr>server = sample_server, handler = world_init 600, srv_calls = []\<rparr>"

theorem run_binds_once_witness:
  "\<exists>y'. sys_run sample_env sample_slib writable_twice unbound_system = Inr y'
     \<and> length (filter binds (srv_calls y')) = 4 \<and> mAddressesBound (server y')"
proof -
  let ?s = "sample_server\<lparr>mChatRooms := [5]\<rparr>"
  have u: "\<not> mAddressesBound sample_server" "mChatRooms sample_server = []"
    by (simp_all add: sample_server_def ConferenceServer_init_def)
  have b: "snd (bindAddresses sample_env sample_slib sample_accounts [sample_address ''bob'' ''ext''] ?s) =
      Inr (?s\<lparr>mUuid := ''u'', mAddressesBound := True\<rparr>)"
    by (simp add: bindAddresses_def bindFactoryUris_def bindFocusUris_def getUuid_eq uuid_of_def
        sample_server_def ConferenceServer_init_def sample_slib_def sample_accounts_def sample_env_def
        bindChatRoom_def seqA_Inr server_contact_def sample_address_def enumerate_eq_zip Let_def)
  then have "\<exists>y'. sys_run sample_env sample_slib writable_twice unbound_system = Inr y'"
    by (simp add: writable_twice_def unbound_system_def sys_step_def sys_act_def u
        onRegistrarDbWritable_def onChatRoomStateChanged_def bindAddresses_def [of _ _ "[]"]
        numeral_2_eq_2)
  then obtain y' where y': "sys_run sample_env sample_slib writable_twice unbound_system = Inr y'" by blast
  have f: "first_writable writable_twice = Some (sample_accounts, [sample_address ''bob'' ''ext''])"
    by (simp add: writable_twice_def)
  have "filter binds (srv_calls y') = factory_bindings sample_env sample_slib sample_server
      @ focus_bindings sample_env sample_slib sample_accounts sample_server
      @ (if textEnabled (mMediaConfig sample_server)
         then room_bindings sample_env sample_slib [sample_address ''bob'' ''ext''] sample_server else [])"
    "mAddressesBound (server y')"
    using run_binds_once [OF y'] u by (simp_all add: f unbound_system_def)
  moreover have "length (factory_bindings sample_env sample_slib sample_server
      @ focus_bindings sample_env sample_slib sample_accounts sample_server
      @ (if textEnabled (mMediaConfig sample_server)
         then room_bindings sample_env sample_slib [sample_address ''bob'' ''ext''] sample_server else [])) = 4"
    by (simp add: factory_bindings_def focus_bindings_def room_bindings_def is_focus_address_def
        sample_server_def ConferenceServer_init_def sample_slib_def sample_accounts_def sample_env_def
        sample_address_def enumerate_eq_zip Let_def)
  ultimately show ?thesis using y' by (intro exI [of _ y']) simp
qed

section \<open>From the configured domains to the subscriptions\<close>

text \<open>
  A subscription \<open>s\<close> that is followed in its way: an own one makes the registrar database fetch its
  record and then call back on changes, if its address is valid; an external one hears of the NOTIFYs
  of an open dialog for its address.
\<close>

definition follows_database :: "env \<Rightarrow> sub_id \<Rightarrow> Address \<Rightarrow> world \<Rightarrow> world \<Rightarrow> bool" where
  "follows_database E s a w w' \<longleftrightarrow>
     calls w' = calls w @ (case makeSipUri E (asStringUriOnly a) of
       None \<Rightarrow> []
     | Some u \<Rightarrow> (if u = '''' then [] else [DbFetch u s, DbSubscribe u (useGlobalDomain E) s]))"

definition follows_dialog :: "sub_id \<Rightarrow> Address \<Rightarrow> world \<Rightarrow> bool" where
  "follows_dialog s a w \<longleftrightarrow>
     (\<exists>c k e. clients w c = Some k \<and> mSubscribeEvent k = Some e
        \<and> asStringUriOnlyOrdered (mTo k) = asStringUriOnlyOrdered a
        \<and> open_dialogs (calls w) e = Some (mTo k) \<and> event_data (calls w) e = Some c
        \<and> (c, s) \<in> observers (calls w))"

lemma subscribe_routes:
  assumes I: "world_inv {} g w" and new: "(getSubscriptionKey a, r) \<notin> store_abs w"
    and s: "subscribe E srv r a w = Inr w'"
  shows "if getDomain a \<in> set (getLocalDomains srv)
    then \<exists>o1. subs w' = (subs w)(next_sub w \<mapsto> Own o1) \<and> mChatRoom o1 = r \<and> mParticipant o1 = a
           \<and> follows_database E (next_sub w) a w w'
    else \<exists>x c k e. subs w' = (subs w)(next_sub w \<mapsto> External x) \<and> mChatRoom x = r \<and> mParticipant x = a
           \<and> mClient x = Some c \<and> clients w' c = Some k \<and> mSubscribeEvent k = Some e"
proof (cases "getDomain a \<in> set (getLocalDomains srv)")
  case True
  have "mParticipantAor (Own_init E chk r a) = (case makeSipUri E (asStringUriOnly a) of None \<Rightarrow> '''' | Some u \<Rightarrow> u)"
    for chk by (simp add: Own_init_def RegistrationSubscription.extend_def)
  with s new True show ?thesis
    by (auto simp: subscribe_eq [OF I] start_own_eq Let_def Own_start_def follows_database_def split: option.split)
next
  case False
  obtain c w1 where acq: "acquireClient a w = (c, w1)" by (cases "acquireClient a w")
  then have same: "subs w1 = subs w" "next_sub w1 = next_sub w"
    using acquireClient_frame [of a w] by simp_all
  let ?x = "External_init (capabilityCheckEnabled srv) r a (Some c)"
  from False s new acq have st:
    "External_start E (next_sub w1) ?x
      (w1\<lparr>subs := (subs w1)(next_sub w1 \<mapsto> External ?x), next_sub := next_sub w1 + 1,
          mSubscriptions := mm_insert (getSubscriptionKey a) (next_sub w1) (mSubscriptions w1)\<rparr>) = Inr w'"
    by (simp add: subscribe_eq [OF I] startSubscription_def ExternalFactory_create_def new_sub_def
        addSubscription_def sub_start_def)
  then have "subs w' = (subs w)(next_sub w \<mapsto> External ?x)"
    by (auto simp: External_start_def Let_def case_prod_beta bindE_eq_Inr_iff same
        split: option.splits)
  moreover have "\<exists>k e. clients w' c = Some k \<and> mSubscribeEvent k = Some e"
    using st by (auto simp: External_start_def Client_subscribe_def bindE_eq_Inr_iff split: option.splits)
  ultimately show ?thesis using False by (auto intro!: exI [of _ ?x])
qed

lemma external_follows_dialog:
  assumes I: "world_inv {} g w" and "subs w s = Some (External x)" and "mClient x = Some c"
    and "clients w c = Some k" and "mSubscribeEvent k = Some e"
  shows "follows_dialog s (mParticipant x) w"
proof -
  note J = invD [OF I]
  have "open_dialogs (calls w) e = Some (mTo k)" "event_data (calls w) e = Some c"
    using J(4) assms(4,5) unfolding inv_events_def by blast+
  moreover have "asStringUriOnlyOrdered (mTo k) = asStringUriOnlyOrdered (mParticipant x)"
    using J(5) assms(2-4) unfolding inv_clients_def by blast
  moreover have "(c, s) \<in> observers (calls w)"
    using J(3) assms(2,3) by (auto simp: inv_obs_def holders_def)
  ultimately show ?thesis using assms(4,5) unfolding follows_dialog_def by blast
qed

lemma sys_run_domains:
  "sys_run E L is y = Inr y' \<Longrightarrow> mLocalDomains (server y') = mLocalDomains (server y)"
proof (induction "is" arbitrary: y)
  case (Cons i "is")
  then obtain y1 where s: "sys_step E L i y = Inr y1" and "sys_run E L is y1 = Inr y'"
    by (auto simp: bindE_eq_Inr_iff)
  moreover have "mLocalDomains (server y1) = mLocalDomains (server y)"
  proof (cases i)
    case (RegistrarWritable b accounts rooms)
    with s obtain srv where
      ok: "snd (onRegistrarDbWritable E L accounts rooms b (server y)) = Inr srv" and "server y1 = srv"
      by (auto simp: sys_step_def)
    with onRegistrarDbWritable_ok [OF ok] show ?thesis by (auto split: if_splits)
  qed (use s in \<open>auto simp: sys_step_def onChatRoomStateChanged_def action_simps split: if_splits\<close>)
  ultimately show ?case using Cons.IH by simp
qed simp

text \<open>
  C12. Whatever happened to a started server, a participant it is asked to follow is followed through
  the registrar database exactly if its domain is that of a configured factory URI or a configured
  local domain: its record is fetched and its changes are listened to, unless its address is no valid
  SIP URI. Otherwise it is followed by a SUBSCRIBE dialog: there is an open one for its address, whose
  event names a live client that the new subscription observes.
\<close>

theorem participants_routed:
  assumes "snd (init_server E SL I sys files to_string cfg (ConferenceServer_init p)) = Inr (srv, w)"
    and "run_admissible E L is (started_system (srv, w))"
    and "sys_run E L is (started_system (srv, w)) = Inr y"
    and "(getSubscriptionKey a, r) \<notin> store_abs (handler y)"
  shows "\<exists>y' sub factories others.
      getList cfg ''conference-factory-uris'' = Inr factories \<and> getList cfg ''local-domains'' = Inr others
    \<and> sys_step E L (SubscriptionRequested r a) y = Inr y'
    \<and> subs (handler y') = (subs (handler y))(next_sub (handler y) \<mapsto> sub)
    \<and> sub_room sub = r \<and> sub_participant sub = a
    \<and> (if getDomain a \<in> (\<lambda>f. getDomain (the (createAddress E f))) ` set factories \<union> set others
       then (\<exists>o1. sub = Own o1) \<and> follows_database E (next_sub (handler y)) a (handler y) (handler y')
       else (\<exists>x. sub = External x) \<and> follows_dialog (next_sub (handler y)) a (handler y'))"
proof -
  have "sys_reachable (useGlobalDomain E) (started_system (srv, w))"
    using init_fresh [OF assms(1)] by (auto simp: started_system_def intro: sys_start)
  with sys_run_cases [OF _ refl assms(2)] assms(3) have "sys_reachable (useGlobalDomain E) y" by fastforce
  note I = reachable_inv [OF sys_reachable_handler [OF this]]
  obtain w' where w': "subscribe E (view_of (server y)) r a (handler y) = Inr w'"
    and I': "world_inv {} (useGlobalDomain E) w'"
    using subscribe_keeps [OF I refl] by blast
  obtain factories others where f: "getList cfg ''conference-factory-uris'' = Inr factories"
    "getList cfg ''local-domains'' = Inr others"
    "set (mLocalDomains srv) = (\<lambda>f. getDomain (the (createAddress E f))) ` set factories \<union> set others"
    using init_server_state [OF assms(1)] by blast
  have dom: "set (getLocalDomains (view_of (server y))) =
      (\<lambda>f. getDomain (the (createAddress E f))) ` set factories \<union> set others"
    using sys_run_domains [OF assms(3)] f(3) by (simp add: view_of_def started_system_def)
  have step: "sys_step E L (SubscriptionRequested r a) y = Inr (y\<lparr>handler := w'\<rparr>)"
    using w' by (simp add: sys_step_def sys_handle_def onParticipantRegistrationSubscriptionRequested_def)
  note R = subscribe_routes [OF I assms(4) w', unfolded dom]
  show ?thesis
  proof (cases "getDomain a \<in> (\<lambda>f. getDomain (the (createAddress E f))) ` set factories \<union> set others")
    case True
    with R obtain o1 where "subs w' = (subs (handler y))(next_sub (handler y) \<mapsto> Own o1)" "mChatRoom o1 = r"
      "mParticipant o1 = a" "follows_database E (next_sub (handler y)) a (handler y) w'" by auto
    with step True f(1,2) show ?thesis
      by (intro exI [of _ "y\<lparr>handler := w'\<rparr>"] exI [of _ "Own o1"] exI [of _ factories] exI [of _ others]) simp
  next
    case False
    with R obtain x c k e where x: "subs w' = (subs (handler y))(next_sub (handler y) \<mapsto> External x)"
      "mChatRoom x = r" "mParticipant x = a" "mClient x = Some c" "clients w' c = Some k" "mSubscribeEvent k = Some e"
      by auto
    then have s: "subs w' (next_sub (handler y)) = Some (External x)" by simp
    have "follows_dialog (next_sub (handler y)) a w'"
      using external_follows_dialog [OF I' s x(4-6)] by (simp add: x(3))
    with x step False f(1,2) show ?thesis
      by (intro exI [of _ "y\<lparr>handler := w'\<rparr>"] exI [of _ "External x"] exI [of _ factories] exI [of _ others]) simp
  qed
qed

theorem participants_routed_witness:
  "\<exists>y1 y2. sys_step init_env sample_slib (SubscriptionRequested 1 alice)
       (started_system (started_server, world_init 600)) = Inr y1
     \<and> calls (handler y1) = [DbFetch ''sip:alice@local'' 0, DbSubscribe ''sip:alice@local'' False 0]
     \<and> sys_step init_env sample_slib (SubscriptionRequested 1 bob)
       (started_system (started_server, world_init 600)) = Inr y2
     \<and> follows_dialog 0 bob (handler y2)"
proof -
  let ?y = "started_system (started_server, world_init 600)"
  have h: "run_admissible init_env sample_slib [] ?y" "sys_run init_env sample_slib [] ?y = Inr ?y"
    "(getSubscriptionKey b, 1) \<notin> store_abs (handler ?y)" for b
    by (simp_all add: store_abs_def started_system_def world_init_def)
  note R = participants_routed [OF sample_start [of "\<lambda>n. ''n''"] h]
  have dom: "getDomain alice = ''local''" "getDomain bob = ''ext''" "asStringUriOnly alice = ''sip:alice@local''"
    "getDomain (the (createAddress init_env f)) = ''local''" "makeSipUri init_env u = Some u"
    "useGlobalDomain init_env = False" for f u
    by (simp_all add: sample_defs init_env_def)
  have cfg: "factories = [''sip:factory@local''] \<and> others = [''local'', ''example.com'']"
    if "getList sample_cfg ''conference-factory-uris'' = Inr factories"
      "getList sample_cfg ''local-domains'' = Inr others" for factories others
    using that by (simp add: sample_cfg_def getList_def)
  have y: "handler ?y = world_init 600" "next_sub (handler ?y) = 0" "calls (handler ?y) = []"
    by (simp_all add: started_system_def world_init_def)
  obtain y1 factories others where f: "getList sample_cfg ''conference-factory-uris'' = Inr factories"
    "getList sample_cfg ''local-domains'' = Inr others"
    and y1: "sys_step init_env sample_slib (SubscriptionRequested 1 alice) ?y = Inr y1"
    and d1: "getDomain alice \<in> (\<lambda>f. getDomain (the (createAddress init_env f))) ` set factories \<union> set others \<longrightarrow>
      follows_database init_env (next_sub (handler ?y)) alice (handler ?y) (handler y1)"
    using R [of alice] by (metis (no_types, lifting))
  obtain y2 factories' others' where f': "getList sample_cfg ''conference-factory-uris'' = Inr factories'"
    "getList sample_cfg ''local-domains'' = Inr others'"
    and y2: "sys_step init_env sample_slib (SubscriptionRequested 1 bob) ?y = Inr y2"
    and d2: "getDomain bob \<notin> (\<lambda>f. getDomain (the (createAddress init_env f))) ` set factories' \<union> set others' \<longrightarrow>
      follows_dialog (next_sub (handler ?y)) bob (handler y2)"
    using R [of bob] by (metis (no_types, lifting))
  have "follows_database init_env 0 alice (handler ?y) (handler y1)"
    using d1 cfg [OF f] by (simp add: dom y(2))
  moreover have "follows_dialog 0 bob (handler y2)"
    using d2 cfg [OF f'] by (simp add: dom y(2))
  ultimately show ?thesis
    using y1 y2 by (auto simp: follows_database_def dom y(3))
qed

end
