(* ===== verification/TestSupport.thy ===== *)
theory TestSupport
  imports RunProps
begin

text \<open>
  The test utilities of the repository (\<^verbatim>\<open>src/tester/utils\<close>): the subclasses with which the unit tests
  observe subscriptions and clients, the minimal core with its conferences, the conference server
  with a port chosen at random, and the conference builder. The calls on linphone objects are
  \<open>Method\<close> values, as in the model of the server.
\<close>

section \<open>Testers of subscriptions and clients\<close>

datatype RegistrationSubscriptionState = SubNone | SubStarted | SubStopped

record RegistrationSubscriptionTester = RegistrationSubscription +
  tester_mState :: RegistrationSubscriptionState

definition RegistrationSubscriptionTester_init :: "chatroom \<Rightarrow> Address \<Rightarrow> RegistrationSubscriptionTester" where
  "RegistrationSubscriptionTester_init cr participant =
     RegistrationSubscription.extend (RegistrationSubscription_init True cr participant)
       \<lparr>tester_mState = SubNone\<rparr>"

definition checkCapabilities :: "env \<Rightarrow> RegistrationSubscriptionTester \<Rightarrow> string \<Rightarrow> bool" where
  "checkCapabilities E t specs = isContactCompatible E t specs"

definition Tester_start :: "RegistrationSubscriptionTester \<Rightarrow> RegistrationSubscriptionTester" where
  "Tester_start t = t\<lparr>tester_mState := SubStarted\<rparr>"

definition Tester_stop :: "RegistrationSubscriptionTester \<Rightarrow> RegistrationSubscriptionTester" where
  "Tester_stop t = t\<lparr>tester_mState := SubStopped\<rparr>"

record ClientTester = Client +
  client_mState :: RegistrationSubscriptionState

text \<open>The constructor of the base class registers the client with the factory.\<close>

definition ClientTester_init :: "ClientFactory \<Rightarrow> Address \<Rightarrow> ClientFactory \<times> ClientTester \<times> ext_call list" where
  "ClientTester_init f to =
     (let (f', cs) = registerClient f
      in (f', Client.extend (Client_init to) \<lparr>client_mState = SubNone\<rparr>, cs))"

definition ClientTester_subscribe :: "ClientTester \<Rightarrow> ClientTester" where
  "ClientTester_subscribe t = t\<lparr>client_mState := SubStarted\<rparr>"

definition ClientTester_unsubscribe :: "ClientTester \<Rightarrow> ClientTester" where
  "ClientTester_unsubscribe t = t\<lparr>client_mState := SubStopped\<rparr>"

text \<open>The pointer to the client tester is null until it is set.\<close>

record ExternalRegistrationSubscriptionTester = ExternalRegistrationSubscription +
  mClientTester :: "ClientTester option"

definition ExternalTester_init :: "bool \<Rightarrow> chatroom \<Rightarrow> Address \<Rightarrow> client_id option
    \<Rightarrow> ExternalRegistrationSubscriptionTester" where
  "ExternalTester_init checkCaps cr participant client =
     ExternalRegistrationSubscription.extend (External_init checkCaps cr participant client)
       \<lparr>mClientTester = None\<rparr>"

definition setClientTester :: "ClientTester option \<Rightarrow> ExternalRegistrationSubscriptionTester
    \<Rightarrow> ExternalRegistrationSubscriptionTester" where
  "setClientTester t x = x\<lparr>mClientTester := t\<rparr>"

definition ExternalTester_start :: "env \<Rightarrow> sub_id \<Rightarrow> ExternalRegistrationSubscriptionTester \<Rightarrow> world
    \<Rightarrow> fault + ExternalRegistrationSubscriptionTester \<times> world" where
  "ExternalTester_start E this x w =
     bindE (External_start E this (ExternalRegistrationSubscription.truncate x) w) (\<lambda>w'.
       case mClientTester x of
         None \<Rightarrow> Inl NullDeref
       | Some t \<Rightarrow> Inr (x\<lparr>mClientTester := Some (ClientTester_subscribe t)\<rparr>, w'))"

definition ExternalTester_stop :: "sub_id \<Rightarrow> ExternalRegistrationSubscriptionTester \<Rightarrow> world
    \<Rightarrow> fault + ExternalRegistrationSubscriptionTester \<times> world" where
  "ExternalTester_stop this x w =
     bindE (External_stop this (ExternalRegistrationSubscription.truncate x) w) (\<lambda>w'.
       case mClientTester x of
         None \<Rightarrow> Inl NullDeref
       | Some t \<Rightarrow> Inr (x\<lparr>mClientTester := Some (ClientTester_unsubscribe t)\<rparr>, w'))"

section \<open>A minimal core with two conferences\<close>

definition startMinimalCore :: "env \<Rightarrow> srv_call list" where
  "startMinimalCore E =
     (let localhostAddress = createAddress E ''sip:localhost''
      in [Method ''mCore'' ''setLabel'' [AString ''Flexisip/Conference Tests''],
          Method ''mCore'' ''enableConferenceServer'' [ABool True],
          Method ''mCore'' ''enableDatabase'' [ABool False],
          Method ''mCore'' ''createAccountParams'' [],
          Method ''mAccountParams'' ''setIdentityAddress'' [AAddress (createAddress E ''sip:flexisip-test@localhost'')],
          Method ''mAccountParams'' ''enableRegister'' [ABool False],
          Method ''mAccountParams'' ''setServerAddress'' [AAddress localhostAddress],
          Method ''mCore'' ''createAccount'' [],
          Method ''account'' ''setContactAddress'' [AAccount 0, AAddress localhostAddress],
          Method ''mCore'' ''addAccount'' [AAccount 0],
          Method ''mCore'' ''setDefaultAccount'' [AAccount 0],
          Method ''mCore'' ''start'' []])"

definition createConference :: "string \<Rightarrow> string \<Rightarrow> string \<Rightarrow> srv_call list" where
  "createConference encryptionBackend ephemeralMode subject =
     [Method ''mCore'' ''createConferenceParams'' [],
      Method ''mConferenceParams'' ''setHidden'' [ABool True],
      Method ''mConferenceParams'' ''enableVideo'' [ABool False],
      Method ''mConferenceParams'' ''enableChat'' [ABool True],
      Method ''mConferenceParams'' ''enableLocalParticipant'' [ABool False],
      Method ''mConferenceParams'' ''enableOneParticipantConference'' [ABool True],
      Method ''mConferenceParams'' ''setConferenceFactoryAddress'' [AAddress None],
      Method ''mConferenceParams'' ''setSubject'' [AString subject],
      Method ''mConferenceParams'' ''getChatParams'' [],
      Method ''mChatParams'' ''setEncryptionBackend'' [AString encryptionBackend],
      Method ''mChatParams'' ''setEphemeralMode'' [AString ephemeralMode],
      Method ''mCore'' ''createConferenceWithParams'' []]"

definition mKey1 :: string where "mKey1 = ''user1@domain1''"
definition mKey2 :: string where "mKey2 = ''user2@domain2''"
definition mKey3 :: string where "mKey3 = ''user3@domain3''"

record SubscriptionTestHelper =
  mParticipant1 :: "Address option"
  mParticipant2 :: "Address option"
  mParticipant3 :: "Address option"
  mChatRoom1 :: chatroom
  mChatRoom2 :: chatroom
  mClientFactory :: ClientFactory

text \<open>\<open>room1\<close> and \<open>room2\<close> are the chat rooms of the two conferences the core makes.\<close>

definition SubscriptionTestHelper_init :: "env \<Rightarrow> chatroom \<Rightarrow> chatroom
    \<Rightarrow> SubscriptionTestHelper \<times> srv_call list" where
  "SubscriptionTestHelper_init E room1 room2 =
     (\<lparr>mParticipant1 = createAddress E (''sip:'' @ mKey1), mParticipant2 = createAddress E (''sip:'' @ mKey2),
       mParticipant3 = createAddress E (''sip:'' @ mKey3), mChatRoom1 = room1, mChatRoom2 = room2,
       mClientFactory = ClientFactory_init 600\<rparr>,
      startMinimalCore E @ createConference ''None'' ''DeviceManaged'' ''chat 1''
        @ createConference ''None'' ''DeviceManaged'' ''chat 2'')"

definition make_tester :: "chatroom \<Rightarrow> Address option \<Rightarrow> fault + RegistrationSubscriptionTester" where
  "make_tester cr participant =
     (case participant of None \<Rightarrow> Inl NullDeref | Some a \<Rightarrow> Inr (RegistrationSubscriptionTester_init cr a))"

text \<open>The subscriptions \<open>1In1\<close>, \<open>1In2\<close>, \<open>2In1\<close> and \<open>3In2\<close>.\<close>

definition subscribeAll :: "SubscriptionTestHelper \<Rightarrow> fault + RegistrationSubscriptionTester list" where
  "subscribeAll h =
     bindE (make_tester (mChatRoom1 h) (mParticipant1 h)) (\<lambda>s1In1.
     bindE (make_tester (mChatRoom2 h) (mParticipant1 h)) (\<lambda>s1In2.
     bindE (make_tester (mChatRoom1 h) (mParticipant2 h)) (\<lambda>s2In1.
     bindE (make_tester (mChatRoom2 h) (mParticipant3 h)) (\<lambda>s3In2.
       Inr [s1In1, s1In2, s2In1, s3In2]))))"

section \<open>A conference server with a random port\<close>

text \<open>\<open>conferenceSection\<close> is the section of the configuration the server shares with the proxy.\<close>

record TestConferenceServer =
  mConfServer :: ConferenceServer
  conferenceSection :: config

definition TestConferenceServer_init :: "string \<Rightarrow> string list \<Rightarrow> config
    \<Rightarrow> server_error + TestConferenceServer" where
  "TestConferenceServer_init preferredRt transports cfg =
     (case transports of
        [] \<Rightarrow> Inl EmptyFront
      | t # _ \<Rightarrow> Inr \<lparr>mConfServer = ConferenceServer_init preferredRt,
                      conferenceSection = cfg(''outbound-proxy'' \<mapsto> VString t)\<rparr>)"

definition setOutboundProxy :: "string \<Rightarrow> TestConferenceServer \<Rightarrow> TestConferenceServer" where
  "setOutboundProxy uri ts = ts\<lparr>conferenceSection := (conferenceSection ts)(''outbound-proxy'' \<mapsto> VString uri)\<rparr>"

definition clearLocalDomainList :: "TestConferenceServer \<Rightarrow> TestConferenceServer" where
  "clearLocalDomainList ts = ts\<lparr>mConfServer := (mConfServer ts)\<lparr>mLocalDomains := []\<rparr>\<rparr>"

definition TestConferenceServer_bindChatRoom :: "env \<Rightarrow> server_lib \<Rightarrow> string \<Rightarrow> string \<Rightarrow> binding_listener
    \<Rightarrow> TestConferenceServer \<Rightarrow> (srv_call, server_error, TestConferenceServer) action" where
  "TestConferenceServer_bindChatRoom E L bindingUrl contact listener ts =
     seqA (bindChatRoom E L bindingUrl contact listener (mConfServer ts)) (\<lambda>srv.
       ret (ts\<lparr>mConfServer := srv\<rparr>))"

text \<open>The chat rooms of the core with the addresses of their participants.\<close>

fun has_participant :: "(Address \<Rightarrow> Address \<Rightarrow> bool) \<Rightarrow> Address \<Rightarrow> Address list \<Rightarrow> bool" where
  "has_participant eq participantAddress [] = False"
| "has_participant eq participantAddress (a # as) =
     (if eq a participantAddress then True else has_participant eq participantAddress as)"

fun findChatroom :: "(Address \<Rightarrow> Address \<Rightarrow> bool) \<Rightarrow> Address \<Rightarrow> (chatroom \<times> Address list) list
    \<Rightarrow> chatroom option" where
  "findChatroom eq participantAddress [] = None"
| "findChatroom eq participantAddress ((chatroom, participants) # rooms) =
     (if has_participant eq participantAddress participants then Some chatroom
      else findChatroom eq participantAddress rooms)"

text \<open>
  \<open>port\<close> is the port the core reports once it listens to a random one, \<open>replacePort\<close> the method of
  \<^verbatim>\<open>SipUri\<close>. The server binds its addresses with the port it really has.
\<close>

definition Patched_bindAddresses :: "env \<Rightarrow> server_lib \<Rightarrow> (string \<Rightarrow> string \<Rightarrow> string) \<Rightarrow> string
    \<Rightarrow> Account list \<Rightarrow> Address list \<Rightarrow> TestConferenceServer
    \<Rightarrow> (srv_call, server_error, TestConferenceServer) action" where
  "Patched_bindAddresses E L replacePort port accounts chatRooms ts =
     seqA (invokes [(''transports'', ''setTcpPort'', [AString ''LC_SIP_TRANSPORT_RANDOM'']),
                    (''mCore'', ''setTransports'', [])]) (\<lambda>_.
     let transport = replacePort (mTransport (mConfServer ts)) port;
         srv = (mConfServer ts)\<lparr>mTransport := transport\<rparr>;
         cfg = (conferenceSection ts)(''transport'' \<mapsto> VString transport)
     in seqA (bindAddresses E L accounts chatRooms srv) (\<lambda>srv'.
          ret \<lparr>mConfServer = srv', conferenceSection = cfg\<rparr>))"

text \<open>\<^verbatim>\<open>onRegistrarDbWritable\<close> calls the virtual \<^verbatim>\<open>bindAddresses\<close>.\<close>

definition Patched_onRegistrarDbWritable :: "env \<Rightarrow> server_lib \<Rightarrow> (string \<Rightarrow> string \<Rightarrow> string) \<Rightarrow> string
    \<Rightarrow> Account list \<Rightarrow> Address list \<Rightarrow> bool \<Rightarrow> TestConferenceServer
    \<Rightarrow> (srv_call, server_error, TestConferenceServer) action" where
  "Patched_onRegistrarDbWritable E L replacePort port accounts chatRooms writable ts =
     (if writable then Patched_bindAddresses E L replacePort port accounts chatRooms ts else ret ts)"

text \<open>
  \<^verbatim>\<open>start\<close> is \<^verbatim>\<open>_init\<close>, which reads the shared section and calls the virtual \<^verbatim>\<open>bindAddresses\<close> at its
  end if the registrar database is writable; that call writes the transport to the section.
\<close>

definition TestConferenceServer_start :: "env \<Rightarrow> string_lib \<Rightarrow> init_lib \<Rightarrow> os \<Rightarrow> (string \<rightharpoonup> string)
    \<Rightarrow> (nat \<Rightarrow> string) \<Rightarrow> (string \<Rightarrow> string \<Rightarrow> string) \<Rightarrow> string \<Rightarrow> TestConferenceServer
    \<Rightarrow> (srv_call, server_error, TestConferenceServer \<times> world) action" where
  "TestConferenceServer_start E SL I sys files to_string replacePort port ts =
     (let cfg = conferenceSection ts;
          bind = (\<lambda>accounts srv. seqA (Patched_bindAddresses E (server_lib.truncate I) replacePort port accounts
                    (getChatRooms I) \<lparr>mConfServer = srv, conferenceSection = cfg\<rparr>) (\<lambda>ts'. ret (mConfServer ts')))
      in seqA (init_server_with E SL I sys files to_string cfg bind (mConfServer ts)) (\<lambda>(srv, w).
           ret (\<lparr>mConfServer = srv, conferenceSection =
                   (if isWritable I then cfg(''transport'' \<mapsto> VString (mTransport srv)) else cfg)\<rparr>, w)))"

text \<open>The destructor; \<^verbatim>\<open>step\<close> lets the main loop run for 200 ms.\<close>

definition TestConferenceServer_destroy :: "env \<Rightarrow> system \<Rightarrow> fault + system" where
  "TestConferenceServer_destroy E y =
     bindE (server_stop E y) (\<lambda>y'.
       Inr (y'\<lparr>srv_calls := srv_calls y' @ [Method ''mRoot'' ''step'' [AInt 200]]\<rparr>))"

section \<open>The conference builder\<close>

datatype scheduler_state = Idle | AllocationPending | Ready | Updating | SchedulerError

text \<open>The builder keeps the calls it made; every setter returns the builder for the next one.\<close>

record ConferenceBuilder =
  builder_calls :: "srv_call list"
  builder_mState :: scheduler_state

definition on_info :: "string \<Rightarrow> arg list \<Rightarrow> ConferenceBuilder \<Rightarrow> ConferenceBuilder" where
  "on_info name args b = b\<lparr>builder_calls := builder_calls b @ [Method ''mConferenceInfo'' name args]\<rparr>"

definition ConferenceBuilder_init :: "Address option \<Rightarrow> int \<Rightarrow> ConferenceBuilder" where
  "ConferenceBuilder_init me now =
     \<lparr>builder_calls =
        [Method ''Factory'' ''createConferenceInfo'' [], Method ''mCore'' ''createConferenceScheduler'' [],
         Method ''mConferenceInfo'' ''setOrganizer'' [AAddress me],
         Method ''mConferenceInfo'' ''addParticipant'' [AAddress me],
         Method ''mConferenceInfo'' ''setDateTime'' [AInt now]],
      builder_mState = Idle\<rparr>"

definition setOrganizer :: "Address option \<Rightarrow> ConferenceBuilder \<Rightarrow> ConferenceBuilder" where
  "setOrganizer organizer b = on_info ''setOrganizer'' [AAddress organizer] b"

definition setDateTime :: "int \<Rightarrow> ConferenceBuilder \<Rightarrow> ConferenceBuilder" where
  "setDateTime dateTime b = on_info ''setDateTime'' [AInt dateTime] b"

definition setDuration :: "int \<Rightarrow> ConferenceBuilder \<Rightarrow> ConferenceBuilder" where
  "setDuration duration b = on_info ''setDuration'' [AInt duration] b"

definition setSubject :: "string \<Rightarrow> ConferenceBuilder \<Rightarrow> ConferenceBuilder" where
  "setSubject subject b = on_info ''setSubject'' [AString subject] b"

definition setDescription :: "string \<Rightarrow> ConferenceBuilder \<Rightarrow> ConferenceBuilder" where
  "setDescription description b = on_info ''setDescription'' [AString description] b"

definition setSecurityLevel :: "string \<Rightarrow> ConferenceBuilder \<Rightarrow> ConferenceBuilder" where
  "setSecurityLevel securityLevel b = on_info ''setSecurityLevel'' [AString securityLevel] b"

definition setCapability :: "string \<Rightarrow> bool \<Rightarrow> ConferenceBuilder \<Rightarrow> ConferenceBuilder" where
  "setCapability streamType enable b = on_info ''setCapability'' [AString streamType, ABool enable] b"

text \<open>\<^verbatim>\<open>ConferenceBuilderListener::onStateChanged\<close>.\<close>

definition onStateChanged :: "scheduler_state \<Rightarrow> ConferenceBuilder \<Rightarrow> ConferenceBuilder" where
  "onStateChanged state b = b\<lparr>builder_mState := state\<rparr>"

text \<open>
  The asserter polls the state before each report of the scheduler until it passes or gives up;
  \<open>reports\<close> are the states reported before it does.
\<close>

fun wait_ready :: "scheduler_state list \<Rightarrow> ConferenceBuilder \<Rightarrow> bool \<times> ConferenceBuilder" where
  "wait_ready [] b = (builder_mState b = Ready, b)"
| "wait_ready (state # reports) b =
     (if builder_mState b = Ready then (True, b) else wait_ready reports (onStateChanged state b))"

definition build :: "scheduler_state list \<Rightarrow> Address option list \<Rightarrow> string \<Rightarrow> ConferenceBuilder
    \<Rightarrow> string option \<times> ConferenceBuilder" where
  "build reports participants uri b =
     (let b1 = b\<lparr>builder_calls := builder_calls b @ [Method ''mConferenceScheduler'' ''addListener'' [AThis]]\<rparr>;
          b2 = fold (\<lambda>participant. on_info ''addParticipant'' [AAddress participant]) participants b1;
          b3 = b2\<lparr>builder_calls := builder_calls b2 @ [Method ''mConferenceScheduler'' ''setInfo'' []]\<rparr>;
          (passed, b4) = wait_ready reports b3
      in (if passed then Some uri else None, b4))"

end
