(* ===== verification/Conformance.thy ===== *)
theory Conformance
  imports TestSupport
begin

text \<open>
  The unit tests of the repository on the model, and what the test utilities do. Each lemma with
  \<open>test\<close> in its name has the checks of the test of that name in \<^verbatim>\<open>src/tester/tests\<close>.
\<close>

section \<open>\<^verbatim>\<open>registration-subscription-tester.cc\<close>\<close>

text \<open>The capability bits of linphone, and a chat room with the given ones.\<close>

definition linphone_env :: "32 word \<Rightarrow> env" where
  "linphone_env capabilities = sample_env\<lparr>getCapabilities := (\<lambda>_. capabilities),
     cap_Conference := 4, cap_OneToOne := 32, cap_Encrypted := 64, cap_Ephemeral := 128\<rparr>"

definition test_subscription :: RegistrationSubscriptionTester where
  "test_subscription = RegistrationSubscriptionTester_init 1 (sample_address ''user'' ''localhost'')"

lemma checkCapabilities_linphone:
  "checkCapabilities (linphone_env c) test_subscription specs \<longleftrightarrow>
     (32 OR (if str_find ''groupchat'' specs \<noteq> None then 4 else 0)
         OR (if str_find ''lime'' specs \<noteq> None then 64 else 0)
         OR (if str_find ''ephemeral'' specs \<noteq> None then 128 else 0)) AND c = c"
  by (simp add: checkCapabilities_def test_subscription_def RegistrationSubscriptionTester_init_def
      RegistrationSubscription.extend_def RegistrationSubscription_init_def isContactCompatible_def
      getMaskFromSpecs_def linphone_env_def Let_def ac_simps)

lemma chatOnlyChatRoomSubscription_test:
  "map (checkCapabilities (linphone_env 4) test_subscription)
     [''conference/2.0,ephemeral/1.1,lime'', ''conference/2.0,groupchat/1.2,lime'',
      ''conference/2.0,ephemeral/1.1,groupchat/1.2'', ''conference/2.0,ephemeral/1.1,groupchat/1.2,lime'',
      ''conference/2.0,ephemeral/1.1,groupchat/1.2,lime,unknown/1.0'']
   = [False, True, True, True, True]"
  by (simp add: checkCapabilities_linphone)

lemma chatEphemeralAndLimeChatRoomSubscription_test:
  "map (checkCapabilities (linphone_env (4 OR 64 OR 128)) test_subscription)
     [''conference/2.0,ephemeral/1.1,lime'', ''conference/2.0,groupchat/1.2,lime'',
      ''conference/2.0,ephemeral/1.1,groupchat/1.2'', ''conference/2.0,ephemeral/1.1,groupchat/1.2,lime'',
      ''conference/2.0,ephemeral/1.1,groupchat/1.2,lime,unknown/1.0'']
   = [False, False, False, True, True]"
  by (simp add: checkCapabilities_linphone)

section \<open>\<^verbatim>\<open>registration-subscription-factory-tester.cc\<close>\<close>

definition user1 :: Address where "user1 = sample_address ''user1'' ''domain1''"
definition user2 :: Address where "user2 = sample_address ''user2'' ''domain2''"

lemmas user_defs = user1_def user2_def sample_address_def

text \<open>\<^verbatim>\<open>ExternalRegistrationSubscriptionClientsStoreTester\<close>.\<close>

definition getClient :: "Address \<Rightarrow> world \<Rightarrow> client_id option" where
  "getClient address w =
     (case mClients w (asStringUriOnlyOrdered address) of
        None \<Rightarrow> None
      | Some c \<Rightarrow> (if 0 < use_count w c then Some c else None))"

definition getNumberOfClients :: "world \<Rightarrow> nat" where
  "getNumberOfClients w = card (dom (mClients w))"

lemma createClient_test:
  "let w0 = world_init 600; (c1, w1) = acquireClient user1 w0; (c2, w2) = acquireClient user2 w1
   in getNumberOfClients w0 = 0
    \<and> getNumberOfClients w1 = 1 \<and> getClient user1 w1 \<noteq> None \<and> getClient user2 w1 = None
    \<and> getNumberOfClients w2 = 2 \<and> getClient user1 w2 \<noteq> None \<and> getClient user2 w2 \<noteq> None"
  by (simp add: acquireClient_def make_client_def world_init_def getNumberOfClients_def getClient_def
      user_defs Let_def case_prod_beta)

lemma uniqueClientForSameAddress_test:
  "let (c1, w1) = acquireClient user1 (world_init 600); (c2, w2) = acquireClient user1 w1
   in getNumberOfClients w1 = 1 \<and> getClient user1 w1 = Some c1 \<and> getNumberOfClients w2 = 1
    \<and> getClient user1 w2 = Some c1 \<and> c1 = c2"
  by (simp add: acquireClient_def make_client_def world_init_def getNumberOfClients_def getClient_def
      user_defs Let_def case_prod_beta)

lemma recreateExpiredClientForSameAddress_test:
  "let (c1, w1) = acquireClient user1 (world_init 600)
   in getNumberOfClients w1 = 1 \<and> getClient user1 w1 \<noteq> None
    \<and> (case release_client c1 w1 of Inl f \<Rightarrow> False | Inr w2 \<Rightarrow>
         getNumberOfClients w2 = 1 \<and> getClient user1 w2 = None
       \<and> (let (c2, w3) = acquireClient user1 w2
          in getNumberOfClients w3 = 1 \<and> getClient user1 w3 = Some c2 \<and> c2 \<noteq> c1))"
  by (simp add: acquireClient_def make_client_def release_client_def Client_init_def Client_destroy_def
      Client_unsubscribe_def world_init_def getNumberOfClients_def getClient_def user_defs Let_def
      case_prod_beta)

lemma releaseSharedClientAfterLastReference_test:
  "let (c1, w1) = acquireClient user1 (world_init 600); (c2, w2) = acquireClient user1 w1
   in c1 = c2 \<and> getNumberOfClients w2 = 1
    \<and> (case release_client c1 w2 of Inl f \<Rightarrow> False | Inr w3 \<Rightarrow>
         getNumberOfClients w3 = 1 \<and> getClient user1 w3 \<noteq> None
       \<and> (case release_client c2 w3 of Inl f \<Rightarrow> False | Inr w4 \<Rightarrow>
            getNumberOfClients w4 = 1 \<and> getClient user1 w4 = None))"
  by (simp add: acquireClient_def make_client_def release_client_def Client_init_def Client_destroy_def
      Client_unsubscribe_def world_init_def getNumberOfClients_def getClient_def user_defs Let_def
      case_prod_beta)

section \<open>\<^verbatim>\<open>codecs-tester.cc\<close>\<close>

definition codecs_init :: init_lib where
  "codecs_init = sample_init\<lparr>getAudioPayloadTypes := [''opus'', ''speex'', ''PCMU'', ''PCMA''],
     getVideoPayloadTypes := [''VP8'', ''H264'']\<rparr>"

definition codecs_cfg :: "string \<Rightarrow> string list \<Rightarrow> string \<Rightarrow> config" where
  "codecs_cfg mode audio video = sample_cfg(''audio-engine-mode'' \<mapsto> VString mode,
     ''supported-audio-codecs'' \<mapsto> VList audio, ''supported-video-codec'' \<mapsto> VString video)"

text \<open>Misconfigured codecs are refused; with the SFU only the first audio codec counts.\<close>

lemma wrongSupportedCodecsConfigured_test:
  "snd (init_codecs sample_lib codecs_init (codecs_cfg ''mixer'' [''opus'', ''vp8''] ''vp8'')) =
     Inl (BadConfigurationValue ''supported-audio-codecs'' ''unsupported codecs in the list: vp8'')"
  "snd (init_codecs sample_lib codecs_init (codecs_cfg ''sfu'' [''opus'', ''vp8''] ''vp8'')) = Inr ()"
  "snd (init_codecs sample_lib codecs_init (codecs_cfg ''sfu'' [''vp8'', ''opus''] ''vp8'')) =
     Inl (BadConfigurationValue ''supported-audio-codecs'' ''unsupported codecs in the list: vp8'')"
  "snd (init_codecs sample_lib codecs_init
          (codecs_cfg ''mixer'' [''opus'', ''speex'', ''pcmu'', ''pcma''] ''AV1'')) =
     Inl (BadConfigurationValue ''supported-video-codec''
            ''only VP8 is supported as of today for video conferences'')"
  by (simp_all add: init_codecs_def codecs_init_def sample_init_def server_lib.extend_def
      codecs_cfg_def get_defs snd_seqA mapA_def enableSelectedCodecs_def sample_lib_def
      ascii_lower_def ascii_cases_def Let_def)

section \<open>\<^verbatim>\<open>registration-subscription-store-tester.cc\<close>\<close>

text \<open>
  The store with the four subscriptions of \<^verbatim>\<open>SubscriptionTestHelper\<close>, here own ones: users 1 and 2 in
  chat room 1, users 1 and 3 in chat room 2. \<open>subscriptionFound\<close> is the method of
  \<^verbatim>\<open>RegistrationSubscriptionStoreTester\<close>.
\<close>

definition user3 :: Address where "user3 = sample_address ''user3'' ''domain3''"

fun subscriptionFound_loop :: "(sub_id \<rightharpoonup> subscription) \<Rightarrow> sub_id option \<Rightarrow> chatroom
    \<Rightarrow> (string, sub_id) multimap \<Rightarrow> bool" where
  "subscriptionFound_loop h expected chatRoom [] = (expected = None)"
| "subscriptionFound_loop h expected chatRoom ((k, s) # it) =
     (if map_option sub_room (h s) = Some chatRoom then expected = Some s
      else subscriptionFound_loop h expected chatRoom it)"

definition subscriptionFound :: "sub_id option \<Rightarrow> string \<Rightarrow> chatroom \<Rightarrow> world \<Rightarrow> bool" where
  "subscriptionFound expected key chatRoom w =
     subscriptionFound_loop (subs w) expected chatRoom (mm_range key (mSubscriptions w))"

definition store_objects :: world where
  "store_objects = (world_init 600)\<lparr>next_sub := 4,
     subs := [0 \<mapsto> Own (Own_init sample_env True 1 user1), 1 \<mapsto> Own (Own_init sample_env True 2 user1),
              2 \<mapsto> Own (Own_init sample_env True 1 user2), 3 \<mapsto> Own (Own_init sample_env True 2 user3)]\<rparr>"

definition store_filled :: world where
  "store_filled = addSubscription user3 3 (addSubscription user2 2
     (addSubscription user1 1 (addSubscription user1 0 store_objects)))"

text \<open>For each user and chat room, the subscription to be found; and how many there are.\<close>

definition store_holds :: "world \<Rightarrow> sub_id option list \<Rightarrow> nat \<Rightarrow> bool" where
  "store_holds w expected n \<longleftrightarrow>
     list_all2 (\<lambda>(key, chatRoom) e. subscriptionFound e key chatRoom w)
       [(mKey1, 1), (mKey1, 2), (mKey2, 1), (mKey3, 2)] expected
   \<and> length (mSubscriptions w) = n"

lemma store_filled_eq:
  "store_filled = store_objects\<lparr>mSubscriptions :=
     [(mKey1, 0), (mKey1, 1), (mKey2, 2), (mKey3, 3)]\<rparr>"
  by (simp add: store_filled_def store_objects_def addSubscription_def getSubscriptionKey_def
      user_defs user3_def world_init_def mm_insert_def mm_upper_def mm_lower_def mm_range_def
      mKey1_def mKey2_def mKey3_def less_char_def)

lemma addSubscription_test:
  "store_holds store_objects [None, None, None, None] 0
   \<and> store_holds (addSubscription user1 0 store_objects) [Some 0, None, None, None] 1
   \<and> store_holds (addSubscription user1 1 (addSubscription user1 0 store_objects)) [Some 0, Some 1, None, None] 2
   \<and> store_holds store_filled [Some 0, Some 1, Some 2, Some 3] 4"
  unfolding store_filled_eq
  by (simp add: store_holds_def subscriptionFound_def store_objects_def addSubscription_def
      getSubscriptionKey_def user_defs user3_def world_init_def mm_insert_def mm_upper_def mm_lower_def
      mm_range_def mKey1_def mKey2_def mKey3_def less_char_def)

lemma findSubscription_test:
  "map (\<lambda>(r, a). findSubscription r a store_filled)
     [(1, user1), (1, user2), (1, user3), (2, user1), (2, user2), (2, user3)] =
   [Inr True, Inr True, Inr False, Inr True, Inr False, Inr True]"
  unfolding store_filled_eq
  by (simp add: findSubscription_def store_objects_def getSubscriptionKey_def user_defs user3_def
      world_init_def mm_upper_def mm_lower_def mm_range_def mKey1_def mKey2_def mKey3_def less_char_def)

lemma removeSubscription_test:
  "case removeSubscription sample_env 1 user1 store_filled of Inl f \<Rightarrow> False | Inr w1 \<Rightarrow>
     store_holds w1 [None, Some 1, Some 2, Some 3] 3
   \<and> (case removeSubscription sample_env 2 user1 w1 of Inl f \<Rightarrow> False | Inr w2 \<Rightarrow>
       store_holds w2 [None, None, Some 2, Some 3] 2
     \<and> (case removeSubscription sample_env 1 user2 w2 of Inl f \<Rightarrow> False | Inr w3 \<Rightarrow>
         store_holds w3 [None, None, None, Some 3] 1))"
  unfolding store_filled_eq
  by (simp add: removeSubscription_def sub_stop_def sub_release_def Own_stop_def mm_erase_def
      store_holds_def subscriptionFound_def store_objects_def getSubscriptionKey_def user_defs user3_def
      world_init_def mm_upper_def mm_lower_def mm_range_def mKey1_def mKey2_def mKey3_def less_char_def)

lemma clear_order_sample [simp]: "clear_order sample_env m = m"
  by (simp add: clear_order_def sample_env_def)

lemma removeAllSubscriptions_test:
  "case removeAllSubscriptions sample_env store_filled of Inl f \<Rightarrow> False | Inr w \<Rightarrow>
     store_holds w [None, None, None, None] 0"
  unfolding store_filled_eq
  by (simp add: removeAllSubscriptions_def sub_stop_def sub_release_def Own_stop_def mm_erase_def
      store_holds_def subscriptionFound_def store_objects_def world_init_def mm_upper_def mm_lower_def
      mm_range_def)

section \<open>The test utilities\<close>

lemma has_participant_iff: "has_participant eq a ps \<longleftrightarrow> (\<exists>p \<in> set ps. eq p a)"
  by (induction ps) auto

text \<open>\<^verbatim>\<open>findChatroom\<close> gives the first chat room that has a participant with this address.\<close>

lemma findChatroom_first:
  "findChatroom eq a rooms = map_option fst (List.find (\<lambda>(r, ps). \<exists>p \<in> set ps. eq p a) rooms)"
  by (induction eq a rooms rule: findChatroom.induct) (auto simp: has_participant_iff)

text \<open>\<^verbatim>\<open>build\<close> gives the address of a conference only when the scheduler reported that it is ready.\<close>

lemma wait_ready_iff: "fst (wait_ready reports b) \<longleftrightarrow> builder_mState b = Ready \<or> Ready \<in> set reports"
  by (induction reports b rule: wait_ready.induct) (auto simp: onStateChanged_def)

lemma build_ready:
  "fst (build reports participants uri b) = Some uri \<longleftrightarrow> builder_mState b = Ready \<or> Ready \<in> set reports"
proof -
  have s: "builder_mState (fold (\<lambda>p. on_info n (f p)) ps b') = builder_mState b'" for ps f n b'
    by (induction ps arbitrary: b') (simp_all add: on_info_def)
  show ?thesis by (simp add: build_def Let_def case_prod_beta wait_ready_iff s)
qed

lemma bind_contacts:
  "DbBind u c p l \<in> set (all_bindings E L accounts chatRooms srv) \<Longrightarrow> contact_url c = mTransport srv"
  by (auto simp: all_bindings_def factory_bindings_def focus_bindings_def room_bindings_def
      server_contact_def Let_def split: if_splits)

lemma Patched_bindAddresses_eq:
  "Patched_bindAddresses E L rp port accounts rooms ts =
     seqA ([Method ''transports'' ''setTcpPort'' [AString ''LC_SIP_TRANSPORT_RANDOM''],
            Method ''mCore'' ''setTransports'' []],
           snd (bindAddresses E L accounts rooms ((mConfServer ts)\<lparr>mTransport := rp (mTransport (mConfServer ts)) port\<rparr>)))
       (\<lambda>srv'. (fst (bindAddresses E L accounts rooms ((mConfServer ts)\<lparr>mTransport := rp (mTransport (mConfServer ts)) port\<rparr>)),
          Inr \<lparr>mConfServer = srv', conferenceSection =
            (conferenceSection ts)(''transport'' \<mapsto> VString (rp (mTransport (mConfServer ts)) port))\<rparr>))"
  if "\<not> isl (snd (bindAddresses E L accounts rooms ((mConfServer ts)\<lparr>mTransport := rp (mTransport (mConfServer ts)) port\<rparr>)))"
  using that
  by (cases "snd (bindAddresses E L accounts rooms ((mConfServer ts)\<lparr>mTransport := rp (mTransport (mConfServer ts)) port\<rparr>))")
    (simp_all add: Patched_bindAddresses_def invokes_def invoke_def call_def seqA_def ret_def Let_def)

text \<open>
  While the registrar database is not writable the server of the tests starts exactly as the
  server does.
\<close>

lemma test_start_not_writable:
  assumes "\<not> isWritable I"
  shows "TestConferenceServer_start E SL I sys files to_string rp port ts =
    seqA (init_server E SL I sys files to_string (conferenceSection ts) (mConfServer ts)) (\<lambda>(srv, w).
      ret (ts\<lparr>mConfServer := srv\<rparr>, w))"
proof -
  have "init_server_with E SL I sys files to_string cfg b srv = init_server E SL I sys files to_string cfg srv"
    for cfg b srv
    using assms by (simp add: init_server_def init_server_with_def init_start_with_def)
  with assms show ?thesis by (cases ts) (simp add: TestConferenceServer_start_def Let_def)
qed

text \<open>Otherwise the last phase of the start records the addresses with the port of the core.\<close>

lemma test_start_port:
  assumes "isWritable I" and "\<not> mAddressesBound srv"
    and "snd (init_start_with I sys (\<lambda>srv. seqA (Patched_bindAddresses E L rp port accounts rooms
           \<lparr>mConfServer = srv, conferenceSection = cfg\<rparr>) (\<lambda>ts'. ret (mConfServer ts'))) srv) = Inr srv'"
      (is "snd (init_start_with I sys ?bind srv) = _")
  shows "mTransport srv' = rp (mTransport srv) port \<and> mAddressesBound srv'
    \<and> (\<exists>cs ds. fst (init_start_with I sys ?bind srv) = cs @ ds @ all_bindings E L accounts rooms
          (srv\<lparr>mUuid := core_uuid I, mTransport := mTransport srv'\<rparr>) \<and> filter binds (cs @ ds) = [])"
proof -
  let ?u = "if mUuid srv = ''''
     then seqA (mapA Os (writeUuid sys (mStateDir srv) (core_uuid I))) (\<lambda>uuid. ret (srv\<lparr>mUuid := uuid\<rparr>))
     else seqA (guardA (core_uuid I = mUuid srv) (BadConfiguration ''inconsistent uuid'')) (\<lambda>_. ret srv)"
  from assms(1,3) obtain srv1 where ok: "0 \<le> core_start I" "core_start I \<noteq> - 2"
    and u: "snd ?u = Inr srv1" and b: "snd (?bind srv1) = Inr srv'"
    by (auto simp: init_start_with_def action_simps split: if_splits)
  have s1: "srv1 = srv\<lparr>mUuid := core_uuid I\<rparr>"
    using u by (auto simp: action_simps writeUuid_def Let_def split: if_splits)
  let ?s = "srv1\<lparr>mTransport := rp (mTransport srv1) port\<rparr>"
  from b obtain srv2 where p: "snd (bindAddresses E L accounts rooms ?s) = Inr srv2"
    by (auto simp: Patched_bindAddresses_def Let_def snd_seqA split: sum.splits)
  have nb: "\<not> mAddressesBound ?s" using assms(2) s1 by simp
  note B = bindAddresses_ok [OF nb p]
  have e: "?bind srv1 = ([Method ''transports'' ''setTcpPort'' [AString ''LC_SIP_TRANSPORT_RANDOM''],
      Method ''mCore'' ''setTransports'' []] @ fst (bindAddresses E L accounts rooms ?s), Inr srv2)"
    using p by (simp add: Patched_bindAddresses_eq seqA_def ret_def)
  with b have s2: "srv' = srv2" by simp
  have f: "fst (init_start_with I sys ?bind srv) = ([Method ''mCore'' ''start'' []] @ fst ?u
      @ [Method ''mRegistrarDb'' ''addStateListener'' [AThis]]) @ fst (?bind srv1)"
    using ok u assms(1) by (simp add: init_start_with_def seqA_Inr del: if_image_distrib)
  have w: "filter binds (fst ?u) = []"
    by (auto simp: writeUuid_def ensureDirectoryCreated_def mapA_def seqA_def action_simps Let_def filter_empty_conv
        split: sum.splits if_splits)
  have "mTransport srv' = rp (mTransport srv) port" "mAddressesBound srv'" using B s2 s1 by simp_all
  moreover from this have "?s = srv\<lparr>mUuid := core_uuid I, mTransport := mTransport srv'\<rparr>" by (simp add: s1)
  moreover have "fst (bindAddresses E L accounts rooms ?s) = all_bindings E L accounts rooms ?s"
    using B by (simp add: all_bindings_def)
  moreover have "filter binds (([Method ''mCore'' ''start'' []] @ fst ?u
      @ [Method ''mRegistrarDb'' ''addStateListener'' [AThis]]) @ [Method ''transports'' ''setTcpPort''
      [AString ''LC_SIP_TRANSPORT_RANDOM''], Method ''mCore'' ''setTransports'' []]) = []"
    using w by (simp del: if_image_distrib)
  ultimately show ?thesis unfolding f e by (metis append.assoc fst_conv)
qed

text \<open>
  The conference server of the tests records its addresses with the port the core really listens
  to and writes that port to the shared configuration. But the port is drawn again whenever the
  registrar database is reported writable, also when the addresses are recorded already: then no
  binding is renewed, and the recorded ones name a port that the server no longer listens to unless
  the second port is the first one.
\<close>

lemma test_server_port:
  assumes "\<not> mAddressesBound (mConfServer ts)"
    and "Patched_onRegistrarDbWritable E L rp port accounts chatRooms True ts = (cs, Inr ts1)"
  shows "mTransport (mConfServer ts1) = rp (mTransport (mConfServer ts)) port
    \<and> conferenceSection ts1 ''transport'' = Some (VString (mTransport (mConfServer ts1)))
    \<and> (\<forall>u c p l. DbBind u c p l \<in> set cs \<longrightarrow> contact_url c = mTransport (mConfServer ts1))
    \<and> (\<exists>ds ts2. Patched_onRegistrarDbWritable E L rp port' accounts' chatRooms' True ts1 = (ds, Inr ts2)
         \<and> filter binds ds = [] \<and> mTransport (mConfServer ts2) = rp (mTransport (mConfServer ts1)) port')"
proof -
  let ?s = "(mConfServer ts)\<lparr>mTransport := rp (mTransport (mConfServer ts)) port\<rparr>"
  from assms(2) obtain srv where ok: "snd (bindAddresses E L accounts chatRooms ?s) = Inr srv"
    by (auto simp: Patched_onRegistrarDbWritable_def Patched_bindAddresses_def Let_def snd_seqA
        dest!: arg_cong [where f = snd] split: sum.splits)
  have "\<not> mAddressesBound ?s" using assms(1) by simp
  note B = bindAddresses_ok [OF this ok]
  from assms(2) ok have r: "cs = [Method ''transports'' ''setTcpPort'' [AString ''LC_SIP_TRANSPORT_RANDOM''],
        Method ''mCore'' ''setTransports'' []] @ fst (bindAddresses E L accounts chatRooms ?s)"
    "ts1 = \<lparr>mConfServer = srv, conferenceSection = (conferenceSection ts)(''transport'' \<mapsto> VString (mTransport ?s))\<rparr>"
    by (simp_all add: Patched_onRegistrarDbWritable_def Patched_bindAddresses_eq seqA_def)
  have bound: "mAddressesBound srv" "mTransport srv = mTransport ?s" using B by simp_all
  have "contact_url c = mTransport srv" if "DbBind u c p l \<in> set cs" for u c p l
    using that B bind_contacts [of u c p l E L accounts chatRooms ?s]
    by (auto simp: r(1) all_bindings_def)
  moreover have "Patched_onRegistrarDbWritable E L rp port' accounts' chatRooms' True ts1 =
      ([Method ''transports'' ''setTcpPort'' [AString ''LC_SIP_TRANSPORT_RANDOM''],
        Method ''mCore'' ''setTransports'' []],
       Inr \<lparr>mConfServer = srv\<lparr>mTransport := rp (mTransport srv) port'\<rparr>,
            conferenceSection = (conferenceSection ts1)(''transport'' \<mapsto> VString (rp (mTransport srv) port'))\<rparr>)"
    using bound(1)
    by (simp add: Patched_onRegistrarDbWritable_def Patched_bindAddresses_def r(2) bindAddresses_def
        invokes_def invoke_def call_def seqA_def ret_def Let_def)
  ultimately show ?thesis using bound by (simp add: r(2))
qed

definition test_server :: TestConferenceServer where
  "test_server = \<lparr>mConfServer = sample_server, conferenceSection = sample_cfg\<rparr>"

definition colon_port :: "string \<Rightarrow> string \<Rightarrow> string" where
  "colon_port uri port = takeWhile (\<lambda>c. c \<noteq> CHR '':'') uri @ '':'' @ port"

lemma test_server_port_example:
  "\<exists>cs ts1 ds ts2. Patched_onRegistrarDbWritable sample_env sample_slib colon_port ''5000'' [] [] True test_server = (cs, Inr ts1)
     \<and> mTransport (mConfServer ts1) = ''t:5000''
     \<and> Patched_onRegistrarDbWritable sample_env sample_slib colon_port ''6000'' [] [] True ts1 = (ds, Inr ts2)
     \<and> filter binds ds = [] \<and> mTransport (mConfServer ts2) = ''t:6000''"
proof -
  have u: "\<not> mAddressesBound (mConfServer test_server)"
    by (simp add: test_server_def sample_server_def ConferenceServer_init_def)
  have "\<exists>ts1. snd (Patched_onRegistrarDbWritable sample_env sample_slib colon_port ''5000'' [] [] True test_server) = Inr ts1"
    by (simp add: Patched_onRegistrarDbWritable_def Patched_bindAddresses_def snd_seqA Let_def
        test_server_def bindAddresses_def bindFactoryUris_def bindFocusUris_def getUuid_eq uuid_of_def
        sample_server_def ConferenceServer_init_def sample_slib_def sample_env_def seqA_Inr server_contact_def)
  then obtain cs ts1 where
    b: "Patched_onRegistrarDbWritable sample_env sample_slib colon_port ''5000'' [] [] True test_server = (cs, Inr ts1)"
    by (metis prod.collapse)
  from test_server_port [OF u b, where port' = "''6000''" and accounts' = "[]" and chatRooms' = "[]"]
  obtain ds ts2 where t: "mTransport (mConfServer ts1) = colon_port (mTransport sample_server) ''5000''"
    "Patched_onRegistrarDbWritable sample_env sample_slib colon_port ''6000'' [] [] True ts1 = (ds, Inr ts2)"
    "filter binds ds = []" "mTransport (mConfServer ts2) = colon_port (mTransport (mConfServer ts1)) ''6000''"
    by (auto simp: test_server_def)
  have "mTransport (mConfServer ts1) = ''t:5000''" "mTransport (mConfServer ts2) = ''t:6000''"
    using t(1,4) by (simp_all add: colon_port_def sample_server_def)
  with b t(2,3) show ?thesis by blast
qed

end
