(* ===== verification/Reentrancy.thy ===== *)
theory Reentrancy
  imports Requests Registry
begin

text \<open>
  Callbacks that arrive while a call of the program is being executed: the core may report a change
  of a dialog from inside \<^verbatim>\<open>terminate\<close> or \<^verbatim>\<open>sendSubscribe\<close>, the registrar database may answer a fetch
  at once, and a chat room that is told about devices may give up the participant. The other theories
  treat callbacks as later steps; this one shows where that makes no difference, and where it does.
\<close>

section \<open>Reports of the core during a call on an event\<close>

text \<open>What an event has seen when it is terminated, and when it is sent.\<close>

lemma ordered_terminate:
  assumes "events_ordered n (xs @ [TerminateEvent e] @ ds)"
  shows "event_data (xs @ [TerminateEvent e]) e = None"
proof -
  have ev: "event_calls e (xs @ [TerminateEvent e] @ ds)
      = event_calls e xs @ [TerminateEvent e] @ event_calls e ds"
    by (simp add: call_event_def)
  then have "event_calls e (xs @ [TerminateEvent e] @ ds) \<noteq> []" by simp
  with assms obtain a d c where "event_calls e (xs @ [TerminateEvent e] @ ds) = open_calls e a d c
      \<or> event_calls e (xs @ [TerminateEvent e] @ ds) = open_calls e a d c @ close_calls e"
    unfolding events_ordered_def by metis
  then have "event_calls e xs @ [TerminateEvent e] = open_calls e a d c @ close_calls e"
    unfolding ev by (auto simp: open_calls_def close_calls_def append_eq_Cons_conv Cons_eq_append_conv)
  moreover have "event_calls e (xs @ [TerminateEvent e]) = event_calls e xs @ [TerminateEvent e]"
    by (simp add: call_event_def)
  ultimately show ?thesis using event_data_objects event_data_closed by metis
qed

lemma ordered_send_twice:
  assumes "events_ordered n cs" and "events_ordered n (cs @ xs @ [SendSubscribe e] @ ds)"
  shows False
proof -
  let ?all = "cs @ xs @ [SendSubscribe e] @ ds"
  have ev: "event_calls e ?all = event_calls e cs @ event_calls e xs @ [SendSubscribe e] @ event_calls e ds"
    by (simp add: call_event_def)
  then have "event_calls e ?all \<noteq> []" by simp
  with assms(2) have n: "e < n" unfolding events_ordered_def by metis
  then obtain a d c where "event_calls e cs = open_calls e a d c
      \<or> event_calls e cs = open_calls e a d c @ close_calls e"
    using assms(1) unfolding events_ordered_def by metis
  moreover obtain a' d' c' where "event_calls e ?all = open_calls e a' d' c'
      \<or> event_calls e ?all = open_calls e a' d' c' @ close_calls e"
    using assms(2) n unfolding events_ordered_def by metis
  ultimately show False
    unfolding ev by (auto simp: open_calls_def close_calls_def append_eq_Cons_conv Cons_eq_append_conv)
qed

definition sends :: "ext_call list \<Rightarrow> bool" where
  "sends cs \<longleftrightarrow> (\<exists>e. SendSubscribe e \<in> set cs)"

lemma sends_simps [simp]:
  "\<not> sends []" "sends (cs @ ds) \<longleftrightarrow> sends cs \<or> sends ds"
  "sends (x # cs) \<longleftrightarrow> (case x of SendSubscribe e \<Rightarrow> True | _ \<Rightarrow> sends cs)"
  by (auto simp: sends_def split: ext_call.splits)

lemma last_send: "\<not> sends xs \<Longrightarrow> xs @ [SendSubscribe n] = cs @ [SendSubscribe e] @ ds \<Longrightarrow> ds = []"
  by (cases ds rule: rev_cases) auto

lemma External_start_sends:
  assumes "External_start E s x w = Inr w'"
  obtains xs where "\<not> sends xs"
    "calls w' = calls w @ xs \<or> (\<exists>n. calls w' = calls w @ xs @ [SendSubscribe n])"
proof -
  from assms obtain c k where c: "mClient x = Some c" "clients w c = Some k"
    by (auto simp: External_start_def split: option.splits)
  show thesis
  proof (cases "mSubscribeEvent k")
    case None
    with assms c show thesis
      by (intro that [of "AddObserver c s # butlast (open_calls (next_event w) (mTo k)
          (mSubscriptionRefreshDelay (mRegEventClientFactory w)) c)"])
        (auto simp: External_start_def Client_subscribe_def open_calls_def)
  next
    case (Some e)
    with assms c show thesis
      by (intro that [of "AddObserver c s # External_onNotifyReceived E x (mParticipantDevices k)"])
        (auto simp: External_start_def Client_subscribe_def External_callback_def
          External_onNotifyReceived_def notify_def)
  qed
qed

lemma acquireClient_sends:
  obtains xs where "calls (snd (acquireClient a w)) = calls w @ xs" "\<not> sends xs"
proof (cases "calls (snd (acquireClient a w)) = calls w")
  case True
  then show thesis by (intro that [of "[]"]) simp_all
next
  case False
  then show thesis
    by (intro that [of "snd (registerClient (mRegEventClientFactory w))"])
      (auto simp: acquireClient_def make_client_def registerClient_def Let_def split: option.splits)
qed

lemma subscribe_sends:
  assumes I: "world_inv {} g w" and w': "subscribe E srv r a w = Inr w'"
  obtains xs where "\<not> sends xs"
    "calls w' = calls w @ xs \<or> (\<exists>n. calls w' = calls w @ xs @ [SendSubscribe n])"
proof -
  let ?chk = "capabilityCheckEnabled srv"
  consider "w' = w" | "startSubscription E (OwnFactory_create E ?chk r a) a w = Inr w'"
    | "startSubscription E (ExternalFactory_create ?chk r a) a w = Inr w'"
    using w' unfolding subscribe_eq [OF I] by (metis sum.inject(2))
  then show thesis
  proof cases
    case 1
    then show thesis by (intro that [of "[]"]) simp_all
  next
    case 2
    then show thesis
      by (intro that [of "snd (Own_start E (next_sub w) (Own_init E ?chk r a))"])
        (auto simp: start_own_eq Let_def Own_start_def)
  next
    case 3
    let ?x = "External_init ?chk r a (Some (fst (acquireClient a w)))" and ?w1 = "snd (acquireClient a w)"
    from 3 obtain w2 where s: "External_start E (next_sub ?w1) ?x w2 = Inr w'" "calls w2 = calls ?w1"
      by (auto simp: startSubscription_def ExternalFactory_create_def new_sub_def addSubscription_def
          sub_start_def Let_def case_prod_beta)
    obtain xs where xs: "calls ?w1 = calls w @ xs" "\<not> sends xs" by (rule acquireClient_sends)
    obtain ys where "\<not> sends ys"
      "calls w' = calls w2 @ ys \<or> (\<exists>n. calls w' = calls w2 @ ys @ [SendSubscribe n])"
      by (rule External_start_sends [OF s(1)])
    with xs s(2) show thesis by (intro that [of "xs @ ys"]) auto
  qed
qed

text \<open>
  C6. What the core reports about a dialog from inside a call on its event does no harm, whatever the
  program is doing. While an event is being terminated it no longer names a client, so a change of
  its state and a NOTIFY are ignored; and an event is sent by the last call of the operation that
  opens the dialog, so a failure reported from inside it is the same as one reported afterwards.
\<close>

theorem reports_during_calls:
  assumes "reachable g w" and "useGlobalDomain E = g" and "admissible i w"
    and "step E srv i w = Inr w'" and "calls w' = calls w @ cs @ [x] @ ds"
  shows "(x = TerminateEvent e \<longrightarrow> calls v = calls w @ cs @ [x] \<longrightarrow>
            step E' srv' (CoreStateChanged e st) v = Inr v \<and> step E' srv' (CoreNotify e body targets) v = Inr v)
    \<and> (x = SendSubscribe e \<longrightarrow> ds = [])"
proof (intro conjI impI)
  note I = reachable_inv [OF assms(1)]
  note I' = reachable_inv [OF reachable.step [OF assms(1-4)]]
  have o: "events_ordered (next_event w) (calls w)" "events_ordered (next_event w') (calls w')"
    using invD(4) [OF I] invD(4) [OF I'] by (simp_all add: inv_events_def)
  {
    assume x: "x = TerminateEvent e" and v: "calls v = calls w @ cs @ [x]"
    with o(2) assms(5) have "event_data (calls v) e = None"
      using ordered_terminate [of "next_event w'" "calls w @ cs" e ds] by simp
    then show "step E' srv' (CoreStateChanged e st) v = Inr v"
      "step E' srv' (CoreNotify e body targets) v = Inr v"
      by (simp_all add: ClientFactory_onSubscriptionStateChanged_def ClientFactory_onNotifyReceived_def)
  }
  assume x: "x = SendSubscribe e"
  show "ds = []"
  proof (cases "\<exists>r a. i = Subscribe r a")
    case True
    then obtain r a where "subscribe E srv r a w = Inr w'" using assms(4) by auto
    then obtain xs where xs: "\<not> sends xs"
      "calls w' = calls w @ xs \<or> (\<exists>n. calls w' = calls w @ xs @ [SendSubscribe n])"
      by (rule subscribe_sends [OF I])
    have "sends (cs @ [x] @ ds)" by (simp add: x)
    with xs assms(5) obtain n where "xs @ [SendSubscribe n] = cs @ [SendSubscribe e] @ ds"
      by (auto simp: x)
    with xs(1) show ?thesis by (rule last_send)
  next
    case False
    then have "next_event w' = next_event w"
      using step_quiet [OF assms(4)] by (auto simp: quiet_def)
    with o assms(5) have False
      using ordered_send_twice [of "next_event w" "calls w" cs e ds] by (simp add: x)
    then show ?thesis ..
  qed
qed

text \<open>The core ends bob's dialog and reports so from inside \<^verbatim>\<open>terminate\<close>, where the client still has it.\<close>

theorem reports_during_calls_witness:
  "step sample_env sample_srv (CoreStateChanged 0 Terminated)
     (sample_world\<lparr>calls := calls sample_world @ [UnsetData 0, TerminateEvent 0]\<rparr>)
   = Inr (sample_world\<lparr>calls := calls sample_world @ [UnsetData 0, TerminateEvent 0]\<rparr>)"
proof -
  let ?i = "CoreStateChanged 0 Terminated"
  let ?v = "sample_world\<lparr>calls := calls sample_world @ [UnsetData 0, TerminateEvent 0]\<rparr>"
  have I: "world_inv {} False sample_world" by (rule reachable_inv [OF sample_reachable])
  obtain w' where w': "step sample_env sample_srv ?i sample_world = Inr w'"
    "calls w' = calls sample_world @ [UnsetData 0] @ [TerminateEvent 0] @ []"
    using onSubscriptionStateChanged_eq [OF I sample_event, of Terminated] by simp
  have a: "admissible ?i sample_world" by (simp add: admissible_def)
  show ?thesis
    using reports_during_calls [OF sample_reachable sample_useGlobalDomain a w',
        where e = 0 and v = ?v and E' = sample_env and srv' = sample_srv and st = Terminated
        and body = None and targets = "[]"]
    by (simp del: step.simps)
qed

section \<open>A fetch answered at once\<close>

text \<open>
  \<^verbatim>\<open>OwnRegistrationSubscription::start\<close> when the registrar database calls \<^verbatim>\<open>onRecordFound\<close> from inside
  \<^verbatim>\<open>fetch\<close>: the subscription is active already, so the record is processed.
\<close>

definition Own_start_answered :: "env \<Rightarrow> sub_id \<Rightarrow> Record option \<Rightarrow> OwnRegistrationSubscription
    \<Rightarrow> OwnRegistrationSubscription \<times> ext_call list" where
  "Own_start_answered E this r o1 =
     (if mParticipantAor o1 = '''' then (o1, [])
      else let o2 = o1\<lparr>mActive := True\<rparr>
           in (o2, [DbFetch (mParticipantAor o1) this] @ Own_onRecordFound E o2 r
                   @ [DbSubscribe (mParticipantAor o1) (useGlobalDomain E) this]))"

lemma fetch_answered_at_once:
  assumes "mParticipantAor o1 \<noteq> ''''"
  shows "fst (Own_start_answered E s r o1) = fst (Own_start E s o1)"
    and "filter is_room_call (snd (Own_start_answered E s r o1)) = Own_onRecordFound E (fst (Own_start E s o1)) r"
    and "filter (\<lambda>x. \<not> is_room_call x) (snd (Own_start_answered E s r o1)) = snd (Own_start E s o1)"
proof -
  let ?o = "o1\<lparr>mActive := True\<rparr>"
  have f: "filter is_room_call (Own_onRecordFound E ?o r) = Own_onRecordFound E ?o r"
    "filter (\<lambda>x. \<not> is_room_call x) (Own_onRecordFound E ?o r) = []"
    using Own_callbacks_room(1) [of E ?o r] by (simp_all add: filter_id_conv filter_empty_conv)
  have d: "\<not> is_room_call (DbFetch u s)" "\<not> is_room_call (DbSubscribe u g s)" for u g
    by (simp_all add: is_room_call_def)
  show "fst (Own_start_answered E s r o1) = fst (Own_start E s o1)"
    "filter is_room_call (snd (Own_start_answered E s r o1)) = Own_onRecordFound E (fst (Own_start E s o1)) r"
    "filter (\<lambda>x. \<not> is_room_call x) (snd (Own_start_answered E s r o1)) = snd (Own_start E s o1)"
    using assms by (simp_all add: Own_start_answered_def Own_start_def Let_def f d)
qed

section \<open>Chat rooms that give up a participant while they are told about it\<close>

text \<open>What leaving does to the objects: they are only destroyed, except that own ones are deactivated.\<close>

definition shrinks :: "world \<Rightarrow> world \<Rightarrow> bool" where
  "shrinks w w' \<longleftrightarrow>
     (\<forall>s x. subs w' s = Some (External x) \<longrightarrow> subs w s = Some (External x))
   \<and> (\<forall>s o1. subs w' s = Some (Own o1) \<longrightarrow> (\<exists>o2. subs w s = Some (Own o2)))
   \<and> (\<forall>c k. clients w' c = Some k \<longrightarrow> clients w c = Some k)"

lemma shrinks_refl [simp]: "shrinks w w"
  by (auto simp: shrinks_def)

lemma shrinks_trans: "shrinks w w1 \<Longrightarrow> shrinks w1 w2 \<Longrightarrow> shrinks w w2"
  unfolding shrinks_def by metis

lemma shrinks_emit [simp]: "shrinks w (emit cs w') = shrinks w w'"
  by (simp add: shrinks_def emit_def)

lemma release_client_shrinks: "release_client c w = Inr w' \<Longrightarrow> shrinks w w'"
  by (auto simp: release_client_def shrinks_def Let_def case_prod_beta split: option.splits if_splits)

lemma sub_stop_shrinks: "sub_stop E s w = Inr w' \<Longrightarrow> shrinks w w'"
  by (auto simp: sub_stop_def External_stop_def shrinks_def emit_def case_prod_beta
      split: option.splits subscription.splits if_splits)

lemma sub_release_shrinks: "sub_release s (w\<lparr>mSubscriptions := m\<rparr>) = Inr w' \<Longrightarrow> shrinks w w'"
  by (auto simp: sub_release_def Let_def split: option.splits subscription.splits
      dest!: release_client_shrinks) (auto simp: shrinks_def split: if_splits)

lemma unsubscribe_shrinks: "unsubscribe E r a w = Inr w' \<Longrightarrow> shrinks w w'"
  unfolding unsubscribe_def removeSubscription_def
  by (erule removeSubscription_loop_induct)
    (auto intro: shrinks_trans sub_stop_shrinks sub_release_shrinks)

text \<open>The entries of the store that are left after the given requests to leave.\<close>

definition left_by :: "(chatroom \<times> Address) list \<Rightarrow> world \<Rightarrow> (string \<times> sub_id) set" where
  "left_by rs w = {(k, s). (k, s) \<in> set (mSubscriptions w)
     \<and> (\<forall>r a. (r, a) \<in> set rs \<longrightarrow> k = getSubscriptionKey a \<longrightarrow> room_of (subs w) s \<noteq> Some r)}"

text \<open>\<open>w'\<close> is \<open>w\<close> after the requests \<open>rs\<close> and calls to chat rooms.\<close>

definition after :: "bool \<Rightarrow> (chatroom \<times> Address) list \<Rightarrow> world \<Rightarrow> world \<Rightarrow> bool" where
  "after g rs w w' \<longleftrightarrow> world_inv {} g w' \<and> shrinks w w'
     \<and> set (mSubscriptions w') = left_by rs w
     \<and> (\<forall>k s. (k, s) \<in> left_by rs w \<longrightarrow> room_of (subs w') s = room_of (subs w) s)"

lemma after_refl: "world_inv {} g w \<Longrightarrow> after g [] w w"
  by (auto simp: after_def left_by_def)

lemma after_trans:
  assumes "after g rs w w1" and "after g qs w1 w2"
  shows "after g (rs @ qs) w w2"
proof -
  from assms(1) have m: "set (mSubscriptions w1) = left_by rs w"
    and room: "\<And>k s. (k, s) \<in> left_by rs w \<Longrightarrow> room_of (subs w1) s = room_of (subs w) s"
    and sh: "shrinks w w1" by (simp_all add: after_def)
  have both: "(k, s) \<in> left_by qs w1 \<longleftrightarrow> (k, s) \<in> left_by (rs @ qs) w" for k s
  proof (cases "(k, s) \<in> left_by rs w")
    case True
    with room [OF True] m show ?thesis by (auto simp: left_by_def)
  next
    case False
    with m show ?thesis by (auto simp: left_by_def)
  qed
  then have eq: "left_by qs w1 = left_by (rs @ qs) w" by auto
  have "(k, s) \<in> left_by rs w" if "(k, s) \<in> left_by (rs @ qs) w" for k s
    using that by (auto simp: left_by_def)
  then have "\<forall>k s. (k, s) \<in> left_by (rs @ qs) w \<longrightarrow> room_of (subs w1) s = room_of (subs w) s"
    using room by blast
  then show ?thesis
    using assms(2) shrinks_trans [OF sh, of w2] by (simp add: after_def eq)
qed

lemma after_emit:
  "after g rs w w' \<Longrightarrow> \<forall>x \<in> set cs. is_room_call x \<Longrightarrow> after g rs w (emit cs w')"
  using inv_emit_room_calls by (auto simp: after_def)

lemma after_unsubscribe:
  assumes "world_inv {} g w" and "useGlobalDomain E = g"
  obtains w' where "unsubscribe E r a w = Inr w'" "after g [(r, a)] w w'"
proof -
  obtain w' where "unsubscribe E r a w = Inr w'" "world_inv {} g w'"
    "set (mSubscriptions w') = {(k, s) \<in> set (mSubscriptions w).
        k = getSubscriptionKey a \<longrightarrow> room_of (subs w) s \<noteq> Some r}"
    "\<forall>(k, s) \<in> set (mSubscriptions w'). room_of (subs w') s = room_of (subs w) s"
    using unsubscribe_keeps [OF assms] by blast
  with unsubscribe_shrinks that show thesis by (auto simp: after_def left_by_def)
qed

text \<open>A client lives until every subscription that uses it has left.\<close>

definition deserted :: "(chatroom \<times> Address) list \<Rightarrow> world \<Rightarrow> client_id \<Rightarrow> bool" where
  "deserted rs w c \<longleftrightarrow> (\<forall>s \<in> holders (subs w) c. \<forall>k. (k, s) \<notin> left_by rs w)"

lemma deserted_mono: "deserted rs w c \<Longrightarrow> deserted (rs @ qs) w c"
  by (fastforce simp: deserted_def left_by_def)

lemma after_external:
  assumes "after g rs w w'" and "subs w s = Some (External x)" and "(k, s) \<in> left_by rs w"
  shows "subs w' s = Some (External x)"
proof -
  from assms(1,3) have ks: "(k, s) \<in> set (mSubscriptions w')" and I: "world_inv {} g w'"
    and sh: "shrinks w w'" by (auto simp: after_def)
  then obtain sub where "subs w' s = Some sub"
    using invD(1) [OF I] by (fastforce simp: inv_store_def)
  with sh assms(2) show ?thesis
    by (cases sub) (fastforce simp: shrinks_def)+
qed

lemma after_client:
  assumes "after g rs w w'" and "clients w c = Some k"
  shows "clients w' c = (if deserted rs w c then None else Some k)"
proof -
  from assms(1) have I: "world_inv {} g w'" and sh: "shrinks w w'"
    and m: "set (mSubscriptions w') = left_by rs w" by (auto simp: after_def)
  note J = invD [OF I]
  have fin: "finite (holders (subs w') c)" using J(1) by (rule finite_holders)
  have "c \<in> dom (clients w') \<longleftrightarrow> holders (subs w') c \<noteq> {}"
    using J(2) fin unfolding inv_refs_def by (metis card_gt_0_iff)
  also have "\<dots> \<longleftrightarrow> \<not> deserted rs w c"
  proof
    assume "holders (subs w') c \<noteq> {}"
    then obtain s x where s: "subs w' s = Some (External x)" "mClient x = Some c"
      by (auto simp: holders_def)
    with J(2) have "s \<in> stored (mSubscriptions w')" unfolding inv_refs_def by blast
    then obtain k where "(k, s) \<in> left_by rs w" by (auto simp: stored_iff m)
    moreover have "s \<in> holders (subs w) c" using s sh by (auto simp: holders_def shrinks_def)
    ultimately show "\<not> deserted rs w c" by (auto simp: deserted_def)
  next
    assume "\<not> deserted rs w c"
    then obtain s k x where "subs w s = Some (External x)" "mClient x = Some c" "(k, s) \<in> left_by rs w"
      by (auto simp: deserted_def holders_def)
    then have "s \<in> holders (subs w') c" using after_external [OF assms(1)] by (simp add: holders_def)
    then show "holders (subs w') c \<noteq> {}" by blast
  qed
  finally have "c \<in> dom (clients w') \<longleftrightarrow> \<not> deserted rs w c" .
  with sh assms(2) show ?thesis by (auto simp: shrinks_def)
qed

lemma after_store:
  assumes "after g rs w w'"
  shows "store_abs w' = store_abs w - {(getSubscriptionKey a, r) | r a. (r, a) \<in> set rs}"
proof -
  have "(k, s) \<in> set (mSubscriptions w') \<and> room_of (subs w') s = Some r \<longleftrightarrow>
      (k, s) \<in> left_by rs w \<and> room_of (subs w) s = Some r" for k s r
    using assms unfolding after_def by metis
  then show ?thesis by (auto simp: store_abs_def left_by_def)
qed

text \<open>
  \<^verbatim>\<open>Client::onNotifyReceived\<close> with chat rooms that leave while they are told: a turn is an observer that
  \<^verbatim>\<open>Observable::notify\<close> visits, with the requests its chat room makes in answer. The client is
  still needed after each turn: its list of observers is being visited, and its devices are set at
  the end. Whether \<^verbatim>\<open>Observable::notify\<close>, which belongs to the Flexisip library, can go on when
  observers are removed from the list it visits is not known: \<open>tolerant\<close> says so.
\<close>

fun unsubscribe_each :: "env \<Rightarrow> (chatroom \<times> Address) list \<Rightarrow> world \<Rightarrow> fault + world" where
  "unsubscribe_each E [] w = Inr w"
| "unsubscribe_each E ((r, a) # rs) w = bindE (unsubscribe E r a w) (unsubscribe_each E rs)"

type_synonym turn = "sub_id \<times> (chatroom \<times> Address) list"

definition observers_of :: "world \<Rightarrow> client_id \<Rightarrow> (client_id \<times> sub_id) set" where
  "observers_of w c = Set.filter (\<lambda>p. fst p = c) (observers (calls w))"

fun nested_notify :: "bool \<Rightarrow> env \<Rightarrow> client_id \<Rightarrow> listener_call \<Rightarrow> turn list \<Rightarrow> world \<Rightarrow> fault + world" where
  "nested_notify tolerant E c lc [] w = Inr w"
| "nested_notify tolerant E c lc ((s, rs) # turns) w =
     (case subs w s of
        Some (External x) \<Rightarrow>
          bindE (External_callback E x lc) (\<lambda>cs.
          bindE (unsubscribe_each E rs (emit cs w)) (\<lambda>w1.
            if clients w1 c = None \<or> \<not> tolerant \<and> observers_of w1 c \<noteq> observers_of w c
            then Inl DanglingRef
            else nested_notify tolerant E c lc turns w1))
      | _ \<Rightarrow> Inl DanglingRef)"

fun nested_deliver :: "bool \<Rightarrow> env \<Rightarrow> client_id \<Rightarrow> (listener_call \<times> turn list) list \<Rightarrow> world
    \<Rightarrow> fault + world" where
  "nested_deliver tolerant E c [] w = Inr w"
| "nested_deliver tolerant E c ((lc, turns) # ps) w =
     bindE (nested_notify tolerant E c lc turns w) (nested_deliver tolerant E c ps)"

definition nested_onNotifyReceived ::
    "bool \<Rightarrow> env \<Rightarrow> client_id option \<Rightarrow> string option \<Rightarrow> turn list list \<Rightarrow> world \<Rightarrow> fault + world" where
  "nested_onNotifyReceived tolerant E data body answers w =
     (case data of
        None \<Rightarrow> Inr w
      | Some c \<Rightarrow>
          (case clients w c of
             None \<Rightarrow> Inl DanglingRef
           | Some cl \<Rightarrow>
               (case Client_onNotifyReceived E body cl of
                  Inl EmptyNotifyContent \<Rightarrow> Inr w
                | Inl ReginfoParsingError \<Rightarrow> Inr w
                | Inl NullIdentity \<Rightarrow> Inl NullDeref
                | Inr (cl', lcs) \<Rightarrow>
                    bindE (nested_deliver tolerant E c (zip lcs answers) w) (\<lambda>w1.
                      case clients w1 c of
                        None \<Rightarrow> Inl DanglingRef
                      | Some k \<Rightarrow> Inr (w1\<lparr>clients := (clients w1)
                          (c \<mapsto> k\<lparr>mParticipantDevices := mParticipantDevices cl'\<rparr>)\<rparr>)))))"

lemma observers_of_emit:
  "\<forall>x \<in> set cs. is_room_call x \<Longrightarrow> observers_of (emit cs w) c = observers_of w c"
  by (simp add: observers_of_def emit_def trace_append fold_room_calls(2))

text \<open>When no chat room asks for anything, this is the model of the other theories.\<close>

lemma External_callback_room:
  "External_callback E x lc = Inr cs \<Longrightarrow> \<forall>y \<in> set cs. is_room_call y"
  using ext.deliver_room by blast

lemma nested_notify_plain:
  "clients w c \<noteq> None \<Longrightarrow> nested_notify tolerant E c lc (map (\<lambda>s. (s, [])) targets) w =
     bindE (notify_observers E (subs w) targets lc) (\<lambda>cs. Inr (emit cs w))"
proof (induction targets arbitrary: w)
  case Nil
  then show ?case by (simp add: emit_def)
next
  case (Cons s targets)
  have "nested_notify tolerant E c lc (map (\<lambda>s. (s, [])) targets) (emit cs w) =
      bindE (notify_observers E (subs w) targets lc) (\<lambda>ds. Inr (emit (cs @ ds) w))" for cs
    using Cons.IH [of "emit cs w"] Cons.prems by (simp add: emit_def)
  moreover have "observers_of (emit cs w) c = observers_of w c" if "External_callback E x lc = Inr cs" for x cs
    using External_callback_room [OF that] by (rule observers_of_emit)
  moreover have "clients (emit cs w) c \<noteq> None" for cs using Cons.prems by (simp add: emit_def)
  ultimately show ?case
    by (auto simp: bindE_def split: sum.split option.split subscription.split)
qed

lemma nested_deliver_plain:
  "clients w c \<noteq> None \<Longrightarrow>
     nested_deliver tolerant E c (zip lcs (replicate (length lcs) (map (\<lambda>s. (s, [])) targets))) w =
     bindE (deliver_all E (subs w) targets lcs) (\<lambda>cs. Inr (emit cs w))"
proof (induction lcs arbitrary: w)
  case Nil
  then show ?case by (simp add: emit_def)
next
  case (Cons lc lcs)
  have "nested_deliver tolerant E c (zip lcs (replicate (length lcs) (map (\<lambda>s. (s, [])) targets))) (emit cs w) =
      bindE (deliver_all E (subs w) targets lcs) (\<lambda>ds. Inr (emit (cs @ ds) w))" for cs
    using Cons.IH [of "emit cs w"] Cons.prems by (simp add: emit_def)
  then show ?case
    using nested_notify_plain [OF Cons.prems, of tolerant E lc targets]
    by (auto simp: bindE_def split: sum.split)
qed

lemma nested_plain:
  assumes "\<And>c k k' lcs. data = Some c \<Longrightarrow> clients w c = Some k \<Longrightarrow>
      Client_onNotifyReceived E body k = Inr (k', lcs) \<Longrightarrow> length lcs = n"
  shows "nested_onNotifyReceived tolerant E data body (replicate n (map (\<lambda>s. (s, [])) targets)) w =
    ClientFactory_onNotifyReceived E data body targets w"
proof (cases "\<exists>c k k' lcs. data = Some c \<and> clients w c = Some k
    \<and> Client_onNotifyReceived E body k = Inr (k', lcs)")
  case False
  then show ?thesis
    by (auto simp: nested_onNotifyReceived_def ClientFactory_onNotifyReceived_def
        split: option.split sum.split notify_error.split)
next
  case True
  then obtain c k k' lcs where k: "data = Some c" "clients w c = Some k"
    and r: "Client_onNotifyReceived E body k = Inr (k', lcs)" by blast
  have "k\<lparr>mParticipantDevices := mParticipantDevices k'\<rparr> = k'"
    using Client_onNotifyReceived_frame [OF r] by simp
  with k r assms [OF k r] nested_deliver_plain [of w c tolerant E lcs targets] show ?thesis
    by (auto simp: nested_onNotifyReceived_def ClientFactory_onNotifyReceived_def emit_def bindE_def
        split: sum.split)
qed

lemma unsubscribe_each_after:
  assumes "world_inv {} g w" and "useGlobalDomain E = g"
  shows "\<exists>w'. unsubscribe_each E rs w = Inr w' \<and> after g rs w w'"
  using assms(1)
proof (induction rs arbitrary: w)
  case Nil
  then show ?case by (simp add: after_refl)
next
  case (Cons q rs)
  obtain r a where q: "q = (r, a)" by (cases q)
  obtain w1 where w1: "unsubscribe E r a w = Inr w1" "after g [(r, a)] w w1"
    using after_unsubscribe [OF Cons.prems assms(2)] by blast
  then have "world_inv {} g w1" by (simp add: after_def)
  from Cons.IH [OF this] obtain w' where "unsubscribe_each E rs w1 = Inr w'" "after g rs w1 w'" by blast
  with w1 after_trans [OF w1(2)] show ?case by (fastforce simp: q)
qed

text \<open>
  Turns in which every observer visited is registered when it is its turn, so none that has left
  before. \<open>rs\<close> are the earlier requests.
\<close>

fun visits :: "world \<Rightarrow> client_id \<Rightarrow> (chatroom \<times> Address) list \<Rightarrow> turn list \<Rightarrow> bool" where
  "visits w c rs [] = True"
| "visits w c rs ((s, qs) # turns) =
     (s \<in> holders (subs w) c \<and> (\<exists>k. (k, s) \<in> left_by rs w) \<and> visits w c (rs @ qs) turns)"

definition requests :: "turn list \<Rightarrow> (chatroom \<times> Address) list" where
  "requests turns = concat (map snd turns)"

lemma requests_simps [simp]:
  "requests [] = []" "requests (t # ts) = snd t @ requests ts" "requests (ts @ us) = requests ts @ requests us"
  by (simp_all add: requests_def)

lemma visits_append: "visits w c rs (ts @ us) \<longleftrightarrow> visits w c rs ts \<and> visits w c (rs @ requests ts) us"
  by (induction w c rs ts rule: visits.induct) simp_all

text \<open>Nobody who observes the client has left.\<close>

definition all_stay :: "(chatroom \<times> Address) list \<Rightarrow> world \<Rightarrow> client_id \<Rightarrow> bool" where
  "all_stay rs w c \<longleftrightarrow> (\<forall>s \<in> holders (subs w) c. \<exists>k. (k, s) \<in> left_by rs w)"

lemma all_stay_mono: "all_stay (rs @ qs) w c \<Longrightarrow> all_stay rs w c"
  by (fastforce simp: all_stay_def left_by_def)

lemma after_observers:
  assumes "after g rs w v"
  shows "observers_of v c = {(c, s) | s. s \<in> holders (subs w) c \<and> (\<exists>k. (k, s) \<in> left_by rs w)}"
proof -
  from assms have I: "world_inv {} g v" and sh: "shrinks w v"
    and m: "set (mSubscriptions v) = left_by rs w" by (auto simp: after_def)
  note J = invD [OF I]
  have "s \<in> holders (subs v) c \<longleftrightarrow> s \<in> holders (subs w) c \<and> (\<exists>k. (k, s) \<in> left_by rs w)" for s
  proof
    assume "s \<in> holders (subs v) c"
    then obtain x where s: "subs v s = Some (External x)" "mClient x = Some c"
      by (auto simp: holders_def)
    with J(2) have "s \<in> stored (mSubscriptions v)" unfolding inv_refs_def by blast
    moreover have "s \<in> holders (subs w) c" using s sh by (auto simp: holders_def shrinks_def)
    ultimately show "s \<in> holders (subs w) c \<and> (\<exists>k. (k, s) \<in> left_by rs w)"
      by (auto simp: stored_iff m)
  next
    assume "s \<in> holders (subs w) c \<and> (\<exists>k. (k, s) \<in> left_by rs w)"
    then obtain x k where "subs w s = Some (External x)" "mClient x = Some c" "(k, s) \<in> left_by rs w"
      by (auto simp: holders_def)
    then show "s \<in> holders (subs v) c" using after_external [OF assms] by (simp add: holders_def)
  qed
  then show ?thesis using J(3) by (auto simp: observers_of_def inv_obs_def)
qed

text \<open>What a turn does to the list of observers that is being visited.\<close>

lemma observers_kept:
  assumes "after g rs w v" and "after g (rs @ qs) w v'" and "all_stay rs w c"
  shows "observers_of v' c = observers_of v c \<longleftrightarrow> all_stay (rs @ qs) w c"
proof
  assume eq: "observers_of v' c = observers_of v c"
  show "all_stay (rs @ qs) w c" unfolding all_stay_def
  proof
    fix s assume "s \<in> holders (subs w) c"
    with assms(3) have "(c, s) \<in> observers_of v c"
      by (auto simp: after_observers [OF assms(1)] all_stay_def)
    then show "\<exists>k. (k, s) \<in> left_by (rs @ qs) w"
      by (auto simp: eq [symmetric] after_observers [OF assms(2)])
  qed
next
  assume "all_stay (rs @ qs) w c"
  with assms(3) show "observers_of v' c = observers_of v c"
    by (auto simp: after_observers [OF assms(1)] after_observers [OF assms(2)] all_stay_def)
qed

text \<open>
  The iteration goes on while the client lives and, if it is not tolerant, while nobody leaves.
\<close>

definition goes_on :: "bool \<Rightarrow> (chatroom \<times> Address) list \<Rightarrow> world \<Rightarrow> client_id \<Rightarrow> bool" where
  "goes_on tolerant rs w c \<longleftrightarrow> \<not> deserted rs w c \<and> (tolerant \<or> all_stay rs w c)"

lemma goes_on_mono: "goes_on tolerant (rs @ qs) w c \<Longrightarrow> goes_on tolerant rs w c"
  using deserted_mono all_stay_mono by (auto simp: goes_on_def)

lemma nested_notify_after:
  assumes "after g rs w v" and "useGlobalDomain E = g" and "clients w c = Some k"
    and "goes_on tolerant rs w c" and "visits w c rs turns" and "readable_call E lc"
  shows "if goes_on tolerant (rs @ requests turns) w c
    then \<exists>v'. nested_notify tolerant E c lc turns v = Inr v' \<and> after g (rs @ requests turns) w v'
    else nested_notify tolerant E c lc turns v = Inl DanglingRef"
  using assms
proof (induction turns arbitrary: rs v)
  case Nil
  then show ?case by simp
next
  case (Cons t turns)
  obtain s qs where t: "t = (s, qs)" by (cases t)
  from Cons.prems(5) obtain x key where s: "subs w s = Some (External x)" "(key, s) \<in> left_by rs w"
    by (auto simp: t holders_def)
  have sv: "subs v s = Some (External x)" by (rule after_external [OF Cons.prems(1) s])
  obtain cs where cs: "External_callback E x lc = Inr cs" "\<forall>y \<in> set cs. is_room_call y"
    using ext.deliver_ok [OF Cons.prems(6)] ext.deliver_room by metis
  note a1 = after_emit [OF Cons.prems(1) cs(2)]
  then have "world_inv {} g (emit cs v)" by (simp add: after_def)
  then obtain v1 where v1: "unsubscribe_each E qs (emit cs v) = Inr v1" "after g qs (emit cs v) v1"
    using unsubscribe_each_after Cons.prems(2) by blast
  note a2 = after_trans [OF a1 v1(2)]
  have cl: "clients v1 c = (if deserted (rs @ qs) w c then None else Some k)"
    using after_client [OF a2 Cons.prems(3)] .
  have "clients v1 c = None \<or> \<not> tolerant \<and> observers_of v1 c \<noteq> observers_of v c \<longleftrightarrow>
      \<not> goes_on tolerant (rs @ qs) w c"
    using cl observers_kept [OF Cons.prems(1) a2, of c] Cons.prems(4) by (auto simp: goes_on_def)
  with sv cs(1) v1(1) have eq: "nested_notify tolerant E c lc (t # turns) v =
      (if goes_on tolerant (rs @ qs) w c then nested_notify tolerant E c lc turns v1 else Inl DanglingRef)"
    by (simp add: t)
  show ?case
  proof (cases "goes_on tolerant (rs @ qs) w c")
    case False
    then have "\<not> goes_on tolerant (rs @ requests (t # turns)) w c"
      using goes_on_mono [of tolerant "rs @ qs" "requests turns"] by (auto simp: t)
    with False show ?thesis unfolding eq by simp
  next
    case True
    have "visits w c (rs @ qs) turns" using Cons.prems(5) by (simp add: t)
    from Cons.IH [OF a2 Cons.prems(2,3) True this Cons.prems(6)] show ?thesis
      unfolding eq using True by (simp add: t cong: if_cong)
  qed
qed

lemma nested_deliver_after:
  assumes "after g rs w v" and "useGlobalDomain E = g" and "clients w c = Some k"
    and "goes_on tolerant rs w c" and "visits w c rs (concat (map snd ps))"
    and "list_all (readable_call E) (map fst ps)"
  shows "if goes_on tolerant (rs @ requests (concat (map snd ps))) w c
    then \<exists>v'. nested_deliver tolerant E c ps v = Inr v' \<and> after g (rs @ requests (concat (map snd ps))) w v'
    else nested_deliver tolerant E c ps v = Inl DanglingRef"
  using assms
proof (induction ps arbitrary: rs v)
  case Nil
  then show ?case by simp
next
  case (Cons p ps)
  obtain lc turns where p: "p = (lc, turns)" by (cases p)
  from Cons.prems(5) have v: "visits w c rs turns"
    "visits w c (rs @ requests turns) (concat (map snd ps))" by (simp_all add: p visits_append)
  have rd: "readable_call E lc" "list_all (readable_call E) (map fst ps)"
    using Cons.prems(6) by (simp_all add: p)
  note N = nested_notify_after [OF Cons.prems(1-4) v(1) rd(1)]
  show ?case
  proof (cases "goes_on tolerant (rs @ requests turns) w c")
    case False
    with N have "nested_notify tolerant E c lc turns v = Inl DanglingRef" by simp
    moreover have "\<not> goes_on tolerant (rs @ requests (concat (map snd (p # ps)))) w c"
      using False goes_on_mono [of tolerant "rs @ requests turns" "requests (concat (map snd ps))"]
      by (auto simp: p)
    ultimately show ?thesis by (simp add: p)
  next
    case True
    with N obtain v1 where v1: "nested_notify tolerant E c lc turns v = Inr v1"
      "after g (rs @ requests turns) w v1" by auto
    from Cons.IH [OF v1(2) Cons.prems(2,3) True v(2) rd(2)] v1(1) show ?thesis
      by (simp add: p cong: if_cong)
  qed
qed

text \<open>
  C23. Chat rooms may give up participants while they are told the devices of a NOTIFY. If all those
  that follow the address of the client leave, the client is destroyed while it is still executing,
  and then used: its reference in the event does not keep it alive. If one of them stays, the NOTIFY
  is processed to the end, the store has lost exactly the pairs that were given up, and the client has
  its new devices, as long as \<^verbatim>\<open>Observable::notify\<close> of the Flexisip library can go on when
  observers are removed from the list it visits, or nobody who observes the client left. (It is assumed
  that it visits nobody who has left, and that no device without an address is logged, see C22.)
\<close>

theorem leaving_during_notify:
  assumes "reachable g w" and "useGlobalDomain E = g"
    and "event_data (calls w) e = Some c" and "clients w c = Some k"
    and "Client_onNotifyReceived E body k = Inr (k', lcs)"
    and "\<forall>d. OnRefreshed d \<in> set lcs \<longrightarrow> debugLogs E \<longrightarrow> pdi_address d \<noteq> None"
    and "length answers = length lcs" and "visits w c [] (concat answers)"
  shows "let rs = requests (concat answers);
      r = nested_onNotifyReceived tolerant E (event_data (calls w) e) body answers w in
    if deserted rs w c then r = Inl DanglingRef
    else if tolerant \<or> all_stay rs w c
    then \<exists>w'. r = Inr w'
      \<and> store_abs w' = store_abs w - {(getSubscriptionKey a, r) | r a. (r, a) \<in> set rs}
      \<and> clients w' c = Some k'
    else r = Inl DanglingRef"
proof -
  note I = reachable_inv [OF assms(1)]
  let ?ps = "zip lcs answers" and ?rs = "requests (concat answers)"
  have ps: "map snd ?ps = answers" "map fst ?ps = lcs" using assms(7) by simp_all
  note a0 = after_refl [OF I]
  have "\<not> deserted [] w c" using after_client [OF a0 assms(4)] assms(4) by (auto split: if_splits)
  moreover have "s \<in> stored (mSubscriptions w)" if "s \<in> holders (subs w) c" for s
    using invD(2) [OF I] that unfolding inv_refs_def holders_def by blast
  then have "all_stay [] w c" by (auto simp: all_stay_def left_by_def stored_iff)
  ultimately have 0: "goes_on tolerant [] w c" by (simp add: goes_on_def)
  have "list_all (readable_call E) lcs"
    using assms(6) by (auto simp: list_all_iff readable_call_def split: listener_call.split)
  with nested_deliver_after [OF a0 assms(2,4) 0, of ?ps] assms(8)
  have D: "if goes_on tolerant ?rs w c
    then \<exists>v'. nested_deliver tolerant E c ?ps w = Inr v' \<and> after g ?rs w v'
    else nested_deliver tolerant E c ?ps w = Inl DanglingRef"
    by (simp add: ps cong: if_cong)
  show ?thesis
  proof (cases "goes_on tolerant ?rs w c")
    case False
    with D assms(3-5) show ?thesis by (auto simp: nested_onNotifyReceived_def Let_def goes_on_def)
  next
    case True
    with D obtain v where v: "nested_deliver tolerant E c ?ps w = Inr v" "after g ?rs w v" by auto
    have "clients v c = Some k" using after_client [OF v(2) assms(4)] True by (simp add: goes_on_def)
    moreover have "k\<lparr>mParticipantDevices := mParticipantDevices k'\<rparr> = k'"
      using Client_onNotifyReceived_frame [OF assms(5)] by simp
    ultimately show ?thesis
      using True v(1) assms(3-5) after_store [OF v(2)]
      by (simp add: nested_onNotifyReceived_def Let_def store_abs_def goes_on_def)
  qed
qed

lemma holders_sample: "holders (subs sample_world) 0 = {1, 2}"
  by (auto simp: holders_def sample_world_def split: if_splits)

lemma rooms_sample: "room_of (subs sample_world) 1 = Some 1" "room_of (subs sample_world) 2 = Some 2"
  by (simp_all add: room_of_def sample_world_def)

lemma left_sample:
  "(k, 1) \<in> left_by rs sample_world \<longleftrightarrow> k = ''bob@ext'' \<and> (1, bob) \<notin> set rs"
  "(k, 2) \<in> left_by rs sample_world \<longleftrightarrow> k = ''bob@ext'' \<and> (2, bob) \<notin> set rs"
  if "\<And>r a. (r, a) \<in> set rs \<Longrightarrow> a = bob"
proof -
  have "getSubscriptionKey bob = ''bob@ext''" by (simp add: getSubscriptionKey_def sample_defs)
  moreover have "(k, 1) \<in> set (mSubscriptions sample_world) \<longleftrightarrow> k = ''bob@ext''"
    "(k, 2) \<in> set (mSubscriptions sample_world) \<longleftrightarrow> k = ''bob@ext''"
    by (auto simp: sample_world_def)
  ultimately show "(k, 1) \<in> left_by rs sample_world \<longleftrightarrow> k = ''bob@ext'' \<and> (1, bob) \<notin> set rs"
    "(k, 2) \<in> left_by rs sample_world \<longleftrightarrow> k = ''bob@ext'' \<and> (2, bob) \<notin> set rs"
    using that rooms_sample by (fastforce simp: left_by_def)+
qed

text \<open>
  A NOTIFY says that bob has no devices; one of the two chat rooms gives him up, with either kind of
  iteration, or both do.
\<close>

theorem leaving_during_notify_witness:
  "(\<exists>w'. nested_onNotifyReceived True notify_env (Some 0) (Some ''x'') [[(1, [(1, bob)]), (2, [])]] sample_world = Inr w'
      \<and> store_abs w' = store_abs sample_world - {(''bob@ext'', 1)} \<and> clients w' 0 = Some bob_client)
   \<and> nested_onNotifyReceived False notify_env (Some 0) (Some ''x'') [[(1, [(1, bob)]), (2, [])]] sample_world
      = Inl DanglingRef
   \<and> nested_onNotifyReceived True notify_env (Some 0) (Some ''x'') [[(1, [(1, bob)]), (2, [(2, bob)])]] sample_world
      = Inl DanglingRef"
proof -
  have g: "useGlobalDomain notify_env = False" by (simp add: notify_env_def)
  have key: "getSubscriptionKey bob = ''bob@ext''" by (simp add: getSubscriptionKey_def sample_defs)
  have l: "(''bob@ext'', 1) \<in> left_by [] sample_world" "(''bob@ext'', 2) \<in> left_by [(1, bob)] sample_world"
    using left_sample(1) [of "[]" "''bob@ext''"] left_sample(2) [of "[(1, bob)]" "''bob@ext''"] by auto
  have v: "visits sample_world 0 [] [(1, [(1, bob)]), (2, [])]"
    "visits sample_world 0 [] [(1, [(1, bob)]), (2, [(2, bob)])]"
    using l by (auto simp: holders_sample)
  have d: "\<not> deserted [(1, bob)] sample_world 0" "deserted [(1, bob), (2, bob)] sample_world 0"
    "\<not> all_stay [(1, bob)] sample_world 0"
    using l left_sample(1) [of "[(1, bob)]"] left_sample(1) [of "[(1, bob), (2, bob)]"]
      left_sample(2) [of "[(1, bob), (2, bob)]"]
    by (auto simp: deserted_def all_stay_def holders_sample)
  have n: "\<forall>d. OnRefreshed d \<in> set [OnNotifyReceived []] \<longrightarrow> debugLogs notify_env \<longrightarrow> pdi_address d \<noteq> None"
    by simp
  note T = leaving_during_notify [OF sample_reachable g sample_event notify_env_result n, unfolded Let_def]
  have set: "{(getSubscriptionKey a, r) | r a. (r, a) \<in> set [(1 :: chatroom, bob)]} = {(''bob@ext'', 1)}"
    by (auto simp: key)
  show ?thesis
    using T [of "[[(1, [(1, bob)]), (2, [])]]" True] T [of "[[(1, [(1, bob)]), (2, [])]]" False]
      T [of "[[(1, [(1, bob)]), (2, [(2, bob)])]]" True] v d
    by (simp add: sample_event(1) set [simplified])
qed

text \<open>
  \<^verbatim>\<open>OwnRegistrationSubscription::onContactRegistered\<close> when the chat room leaves while it is told the
  device list: \<open>rs\<close> are its requests. The subscription is no longer active then, which is not
  looked at again; the registrar database still owns it.
\<close>

definition nested_onContactRegistered :: "env \<Rightarrow> sub_id \<Rightarrow> Record option \<Rightarrow> string
    \<Rightarrow> (chatroom \<times> Address) list \<Rightarrow> world \<Rightarrow> fault + world" where
  "nested_onContactRegistered E s r uid rs w =
     (case subs w s of
        Some (Own o1) \<Rightarrow>
          (if \<not> mActive o1 then Inr w
           else bindE (unsubscribe_each E rs (emit (Own_processRecord E o1 r) w)) (\<lambda>w1.
             if uid = '''' then Inr w1
             else (case r of
                None \<Rightarrow> Inl NullDeref
              | Some r' \<Rightarrow>
                  (case extractContactByUniqueId r' uid of
                     None \<Rightarrow> Inr w1
                   | Some ct \<Rightarrow>
                       (let pubGruu = Own_getPubGruu E ct
                        in if pubGruu \<noteq> None \<and> isContactCompatible E o1 (getOrgLinphoneSpecs ct)
                           then bindE (notifyRegistration E o1 pubGruu) (\<lambda>ds. Inr (emit ds w1))
                           else Inr w1)))))
      | _ \<Rightarrow> Inl DanglingRef)"

lemma nested_onContactRegistered_plain:
  "nested_onContactRegistered E s r uid [] w = onContactRegistered E s r uid w"
  by (auto simp: nested_onContactRegistered_def onContactRegistered_def Own_onContactRegistered_def
      emit_def Let_def bindE_def split: option.split subscription.split sum.split)

text \<open>
  C24. A chat room that gives up a participant of a local domain while it is told the participant's
  devices is still told afterwards that the device registered, although the store no longer has the
  subscription and it no longer listens to the registrar database.
\<close>

theorem registration_after_leaving:
  assumes "reachable g w" and "useGlobalDomain E = g"
    and "subs w s = Some (Own o1)" and "mActive o1" and "uid \<noteq> ''''"
    and "extractContactByUniqueId r uid = Some ct" and "Own_getPubGruu E ct = Some gruu"
    and "isContactCompatible E o1 (getOrgLinphoneSpecs ct)"
    and "(mChatRoom o1, mParticipant o1) \<in> set rs"
  shows "\<exists>w' cs. nested_onContactRegistered E s (Some r) uid rs w = Inr w'
    \<and> (getSubscriptionKey (mParticipant o1), mChatRoom o1) \<notin> store_abs w'
    \<and> s \<notin> stored (mSubscriptions w') \<and> (\<forall>u. (u, g, s) \<notin> db_subscriptions cs)
    \<and> calls w' = cs @ [NotifyParticipantDeviceRegistration (mChatRoom o1) (Some gruu)]"
proof -
  note I = reachable_inv [OF assms(1)]
  have room: "\<forall>x \<in> set (Own_processRecord E o1 (Some r)). is_room_call x"
    using Own_callbacks_room(1) [of E o1 "Some r"] by (simp add: Own_onRecordFound_def)
  note a = after_emit [OF after_refl [OF I] room]
  then have "world_inv {} g (emit (Own_processRecord E o1 (Some r)) w)" by (simp add: after_def)
  then obtain w1 where w1: "unsubscribe_each E rs (emit (Own_processRecord E o1 (Some r)) w) = Inr w1"
    "after g rs (emit (Own_processRecord E o1 (Some r)) w) w1"
    using unsubscribe_each_after assms(2) by blast
  have A: "after g rs w w1" using after_trans [OF a w1(2)] by simp
  have I1: "world_inv {} g w1" using A by (simp add: after_def)
  have "k = getSubscriptionKey (mParticipant o1)" if "(k, s) \<in> set (mSubscriptions w)" for k
    using invD(1) [OF I] that assms(3) by (auto simp: inv_store_def)
  moreover have "room_of (subs w) s = Some (mChatRoom o1)" using assms(3) by (simp add: room_of_def)
  ultimately have "s \<notin> stored (mSubscriptions w1)"
    using A assms(9) unfolding after_def by (auto simp: stored_iff left_by_def)
  moreover from this have "(u, g, s) \<notin> db_subscriptions (calls w1)" for u
    using invD(7) [OF I1] by (auto simp: inv_own_def)
  moreover have "(getSubscriptionKey (mParticipant o1), mChatRoom o1) \<notin> store_abs w1"
    using after_store [OF A] assms(9) by auto
  moreover have "nested_onContactRegistered E s (Some r) uid rs w =
      Inr (emit [NotifyParticipantDeviceRegistration (mChatRoom o1) (Some gruu)] w1)"
    using assms(3-8) w1(1) by (simp add: nested_onContactRegistered_def notifyRegistration_def)
  ultimately show ?thesis by (auto simp: emit_def store_abs_def)
qed

text \<open>Chat room 1 gives up alice while it is told her devices.\<close>

definition alice_contact :: ExtendedContact where
  "alice_contact = \<lparr>ec_pubGruuUrl = Some ''sip:alice@local;gr=u'', getOrgLinphoneSpecs = '''', getDeviceName = ''d''\<rparr>"

definition alice_record :: Record where
  "alice_record = \<lparr>getExtendedContacts = [alice_contact], extractContactByUniqueId = (\<lambda>_. Some alice_contact)\<rparr>"

theorem registration_after_leaving_witness:
  "\<exists>w' cs gruu. nested_onContactRegistered sample_env 0 (Some alice_record) ''u'' [(1, alice)] sample_world = Inr w'
     \<and> (''alice@local'', 1) \<notin> store_abs w'
     \<and> calls w' = cs @ [NotifyParticipantDeviceRegistration 1 (Some gruu)]"
proof -
  have s: "subs sample_world 0 = Some (Own alice_sub)" by (simp add: sample_world_def)
  have o: "mActive alice_sub" "mChatRoom alice_sub = 1" "mParticipant alice_sub = alice"
    by (simp_all add: alice_sub_def)
  have e: "extractContactByUniqueId alice_record ''u'' = Some alice_contact" by (simp add: alice_record_def)
  obtain gruu where gr: "Own_getPubGruu sample_env alice_contact = Some gruu"
    by (simp add: Own_getPubGruu_def alice_contact_def sample_env_def)
  have c: "isContactCompatible sample_env alice_sub (getOrgLinphoneSpecs alice_contact)"
    by (simp add: isContactCompatible_def alice_sub_def)
  have k: "getSubscriptionKey alice = ''alice@local''" by (simp add: getSubscriptionKey_def sample_defs)
  show ?thesis
    using registration_after_leaving [OF sample_reachable sample_useGlobalDomain s o(1) _ e gr c, of "[(1, alice)]"]
    by (auto simp: o k)
qed

end
