(* ===== verification/Spec2Isabelle.thy ===== *)
theory Spec2Isabelle
  imports Conformance Reentrancy
begin

text \<open>
  A verification library of flexisip-conference, the conference server of Flexisip: a process
  around liblinphone that manages chat rooms and conferences, follows the registrations of their
  participants, and records its own addresses in the registrar database.

  \<^bold>\<open>The program and its parts.\<close> \<^verbatim>\<open>src/src/main.cc\<close> calls \<^verbatim>\<open>flexisip_conference::main\<close>
  (\<^verbatim>\<open>src/src/main/flexisip-conference.cc\<close>), which reads the command line and the configuration,
  sets up the process, starts a \<^verbatim>\<open>ConferenceServer\<close> (\<^verbatim>\<open>src/src/conference/conference-server.cc\<close>) and
  runs the main loop. The server hands the requests of the core to follow a participant of a chat
  room to its \<^verbatim>\<open>ParticipantRegistrationSubscriptionHandler\<close>, which keeps a store of registration
  subscriptions: those of local domains listen to the registrar database, the others share a client
  of the \<^verbatim>\<open>reg\<close> event package per participant (\<^verbatim>\<open>src/src/registration-events\<close>), which holds one
  SUBSCRIBE dialog and passes the NOTIFYs on to all its subscriptions. Each subscription tells its
  chat room the devices that are compatible with it.

  \<^bold>\<open>Theories.\<close>
  \<^item> \<open>Prelude\<close>, \<open>Effects\<close>: results that may fail (\<open>bindE\<close>), code that makes calls and may raise
    (\<open>seqA\<close> and its relatives: the calls made so far and an outcome), searching in strings.
  \<^item> \<open>ThirdParty\<close>: the interface of the linked code. Objects that are only read are records, calls
    for their effect are values of \<open>ext_call\<close>, functions are fields of \<open>env\<close>. What the program
    relies on of the state behind the calls is computed from the calls made so far.
  \<^item> \<open>Capabilities\<close>, \<open>Subscriptions\<close>: the classes of \<^verbatim>\<open>registration-subscription.cc\<close>: the
    capability check on 32-bit masks, and the two kinds of subscription. The locale
    \<open>client_listener\<close> is what a client relies on of its observers.
  \<^item> \<open>RegEventClient\<close>: \<^verbatim>\<open>client.cc\<close> and \<^verbatim>\<open>client-factory.cc\<close>. The locale \<open>use_counter\<close> is the
    contract between the clients and the factory that listens to the core.
  \<^item> \<open>Multimap\<close>: \<^verbatim>\<open>std::multimap\<close> with the laws the store uses as the locale \<open>multimap_spec\<close>.
  \<^item> \<open>World\<close>: the objects and operations of \<^verbatim>\<open>participant-registration-subscription-handler.cc\<close> and
    \<^verbatim>\<open>registration-subscription-factory.cc\<close>, with an explicit store of subscriptions and clients,
    reference counts for the owners of a client, the inputs of the system and its reachable states.
  \<^item> \<open>Protocol\<close>: the order of the calls on each event and for each own subscription. \<open>WorldInv\<close>,
    \<open>WorldSteps\<close>, \<open>WorldStart\<close>, \<open>WorldReach\<close>: the invariant, of which that order is a part, and its
    preservation by every operation. \<open>WorldProps\<close>, \<open>Delivery\<close>, \<open>Requests\<close>: what follows from it.
    \<open>Registry\<close>: the map of weak pointers to clients over the life of the server. \<open>Reentrancy\<close>:
    callbacks of the linked code while it executes a call of the program.
  \<^item> \<open>Codecs\<close>, \<open>Config\<close>, \<open>StateDir\<close>, \<open>Binding\<close>, \<open>ServerInit\<close>: \<^verbatim>\<open>conference-server.cc\<close> before
    the server runs, in the order of the file; \<open>init_server\<close> is \<^verbatim>\<open>_init\<close>, an instance of
    \<open>init_server_with\<close>, which has the virtual \<^verbatim>\<open>bindAddresses\<close> as an argument. \<open>ServerRuntime\<close>: its
    callbacks, \<^verbatim>\<open>_run\<close> and \<^verbatim>\<open>_stop\<close>, composed with the handler. \<open>BindingProps\<close>, \<open>ServerProps\<close> and
    \<open>ServerGuarantees\<close> hold the properties.
  \<^item> \<open>Process\<close>, \<open>CommandLine\<close>, \<open>MainProgram\<close>: \<^verbatim>\<open>flexisip-conference.cc\<close> and \<^verbatim>\<open>main.cc\<close>;
    \<open>flexisip_main\<close> is the main program in its phases, \<open>program_main\<close> the exit status.
    \<open>Lifetime\<close>: what the phases can call and raise, and the life of the server in them. \<open>RunProps\<close>:
    whole runs of the server, with the notifications of the registrar database among the inputs.
  \<^item> \<open>TestSupport\<close>: the test utilities of \<^verbatim>\<open>src/tester/utils\<close>. \<open>Conformance\<close>: scenarios of the unit
    tests proved of the model, and what the test utilities do.

  \<^bold>\<open>What the theorems show.\<close> The subscription system, from every reachable state and for every
  input the linked code can give: no null or dangling pointer is dereferenced; the store implements
  a set of pairs of participant and chat room; there is one client and one dialog per followed
  external participant, alive exactly while it is used; a NOTIFY reaches exactly the chat rooms that
  follow its address, call by call, filtered by their capabilities; lost dialogs, late records and
  events without a client do no harm; stopping releases everything. The exception is exact: a NOTIFY
  with a device whose address cannot be parsed, when the library makes no identity of it or when it
  was refreshed and is logged. The calls on each event and each
  own subscription follow one protocol; the map of weak pointers never shrinks. Callbacks that arrive
  inside a call are as harmless as later ones for the calls on events and for fetches; a chat room
  that leaves while it is told devices is not: when the last one does, the client is used after it
  was destroyed, and whether the others are still visited depends on the library. The server: which values its configuration
  must have, which calls \<^verbatim>\<open>_init\<close> makes and which state it leaves, which bindings it records and
  that a whole run records them once, which participants are followed in which way, the UUID it
  keeps. The program: it leaves early exactly for the options that say so, all the ways to exit
  status 0, its dumps and listings, the limits it sets, which of its loops end, and that a server that
  started is stopped with everything released, unless one of three kinds of input ends the main loop.

  \<^bold>\<open>Bounds.\<close> There is no fuel. Loops over containers are structural recursions; the two loops whose
  end depends on the outside (\<open>passphrase_loop\<close>, \<open>cleanup_loop\<close>) are partial functions into
  \<open>option\<close>, and the theorems say when they end. Capability masks are words, file descriptor limits
  64-bit words; the other integers of the code are only compared, counted up by one or passed on and
  are unbounded here.

  \<^bold>\<open>Assumptions on the linked code\<close> are arguments of the definitions (\<open>env\<close>, \<open>server_lib\<close>,
  \<open>init_lib\<close>, \<open>os\<close>, \<open>main_lib\<close>) and hypotheses of the theorems: the core reports an event of a
  client with the observers registered at that time (\<open>admissible\<close>), the registrar database calls
  own subscriptions only, and the parameter that selects the global domain does not change.
  \<^verbatim>\<open>Core::createSubscribe\<close> is taken to return an event, never a null pointer, for every address.
  A log statement is modelled where what it prints can be null: \<open>debugLogs\<close> and \<open>infoLogs\<close> say whether
  its arguments are evaluated. What the linked code does where nothing under \<^verbatim>\<open>src\<close> says it is left open
  by a parameter: whether it makes an identity for a null address too (\<open>nullIdentity\<close>), in which order
  \<^verbatim>\<open>multimap::clear\<close> destroys its elements (\<open>clearOrder\<close>), how it compares an address with a null one
  (\<open>address_equal\<close>, \<open>address_weakEqual\<close>), whether \<^verbatim>\<open>Observable::notify\<close> can go on when observers leave
  the list it visits (\<open>tolerant\<close>). Null pointers that the program only passes on are the library's. Two
  hypotheses are about such code: where chat rooms leave while they are told something,
  \<^verbatim>\<open>Observable::notify\<close> is assumed to visit nobody who has left (\<open>visits\<close>), and the inputs of a run are
  those the linked code can give (\<open>run_admissible\<close>); \<open>readable\<close> and \<open>ends_loop\<close> name the inputs with
  which a step can fail.

  \<^bold>\<open>Not modelled.\<close> The text of log messages. Callbacks of the linked code while it executes a call of
  the program, except the reports of the core about a dialog, the answer to a fetch, and chat rooms
  that leave while they are told something (\<open>Reentrancy\<close>): that a chat room starts to follow
  somebody there is not modelled. The update of \<^verbatim>\<open>mUuid\<close> by \<^verbatim>\<open>getUuid\<close> when an exception leaves \<^verbatim>\<open>bindFactoryUris\<close>,
  which nothing observes since the program ends, and the calls the server made in a main loop that
  ends with an exception. The linked libraries themselves (their directories hold no source). Of
  the test code, the event logs, and the tests that run proxies and cores over the network.
\<close>

section \<open>The life of the server\<close>


text \<open>A program with a configuration for the server: one chat room appears while it runs.\<close>

definition sample_main :: main_lib where
  "sample_main = \<lparr>cmd_parse = (\<lambda>_. ParseExit 0), cmd_failure = (\<lambda>_. 1), lib_raises = (\<lambda>_. None),
     cfg_root = GenericStruct ''flexisip'' [], cfg_find = Map.empty, module_chain = [],
     cfg_load = (\<lambda>_ _. 0), cfg_global = Map.empty, logLevelFromName = (\<lambda>_. Inr 0),
     LOG_DEBUG = 0, LOG_WARNING = 2, LOG_ERROR = 3, setShowBodyFor_error = Map.empty,
     open_stream = Map.empty, proc_files = sample_proc, getrlimit_nofile = None,
     can_open = (\<lambda>_. True), getpid = 42, config_dir = ''/etc'', preferredRoute = ''p'',
     with_snmp = False, with_systemd = False, sd_notify_rc = 0, run_flag = True,
     loop_inputs = [RoomState 5 Instantiated], cleanup_tasks = [], stop_time = 0,
     clock = (\<lambda>k. 1000 * int k), srv_env = init_env, srv_strings = sample_lib, srv_init = sample_init,
     srv_os = sample_os, srv_files = Map.empty, srv_to_string = (\<lambda>n. ''n''), srv_config = sample_cfg,
     exit_code_of = (\<lambda>_. Some 1), what_of = Map.empty\<rparr>"


definition sample_options :: Options where
  "sample_options = \<lparr>configFile = ''/etc/flexisip-conference.conf'', disableStdout = False, useDebug = False,
     pidFile = '''', useSyslog = False, transportsArg = '''', dumpDefault = '''', dumpAll = False,
     dumpFormat = ''file'', listModules = False, listSections = True, rewriteConf = False,
     removeDeprecated = False, dumpMibs = False, pkcsFile = '''', displayExperimental = False,
     listOverrides = '''', overrideConfig = [], hostsOverride = [], trackAllocs = False\<rparr>"


section \<open>Leaving early\<close>

text \<open>
  The calls of a program that goes on to serve: all those after the configuration was loaded, among
  them the second configuration of the logger. Before that only the root of the event loop, the
  signals, the configuration manager and what is printed are touched.
\<close>

fun serving_call :: "main_call \<Rightarrow> bool" where
  "serving_call (Server c) = True"
| "serving_call (WritePid f s) = True"
| "serving_call (Getrlimit r) = True"
| "serving_call (Setrlimit r l) = True"
| "serving_call (SetHost h i) = True"
| "serving_call (SofiaLevel n) = True"
| "serving_call (ContextualLevel n) = True"
| "serving_call (LoggerConfigure p) = True"
| "serving_call (Api f args) = (f \<notin> {''SuRoot'', ''signal'', ''ConfigManager'', ''MibDumper''})"
| "serving_call _ = False"

text \<open>The options that only print something.\<close>

definition prints :: "Options \<Rightarrow> bool" where
  "prints opts \<longleftrightarrow> dumpAll opts \<or> dumpDefault opts \<noteq> '''' \<or> dumpMibs opts \<or> listModules opts
     \<or> listSections opts \<or> listOverrides opts \<noteq> ''''"

fun is_load :: "main_call \<Rightarrow> bool" where
  "is_load (Load f b) = True"
| "is_load _ = False"

lemma listing_leaves: "prints opts \<Longrightarrow> snd (main_listing M opts) \<noteq> Inr None"
  by (auto simp: main_listing_def prints_def Let_def snd_seqA outputs_def api_def split: sum.splits)

lemma loading_leaves: "rewriteConf opts \<or> displayExperimental opts \<Longrightarrow> snd (main_load M opts) \<noteq> Inr None"
  by (auto simp: main_load_def snd_seqA guardA_def lcall_def split: sum.splits option.splits)

lemma list_calls: "c \<in> set (list_overrides f r) \<Longrightarrow> \<exists>s. c = Cout s"
  "c \<in> set (list_sections r b) \<Longrightarrow> \<exists>s. c = Cout s"
  "c \<in> set (deprecate_sections r) \<Longrightarrow> \<exists>n d v t. c = SetDeprecated n d v t"
  by (auto simp: list_overrides_def list_sections_def deprecate_sections_def deprecate_section_def
      split: if_splits)

text \<open>The first configuration of the logger, then calls that serve nobody.\<close>

lemma main_configure_split:
  obtains p m where "main_configure M opts = seqA (call (LoggerConfigure p)) (\<lambda>_. m)"
    "level p = (if useDebug opts then LOG_DEBUG M else LOG_WARNING M)"
    "within (\<lambda>c. \<not> serving_call c \<and> \<not> is_load c) (\<lambda>_. True) m"
  by (rule that [OF main_configure_def])
    (auto simp: Let_def dest!: list_calls intro!: within_intros)

lemma within_early:
  "within (\<lambda>c. \<not> serving_call c \<and> \<not> is_load c) (\<lambda>_. True) (main_listing M opts)"
  "within (\<lambda>c. \<not> serving_call c) (\<lambda>_. True) (main_load M opts)"
   apply (auto simp: main_listing_def Let_def dest!: list_calls intro!: within_intros) [1]
  apply (auto simp: main_load_def intro!: within_intros) [1]
  done

lemma within_mono: "within P Q m \<Longrightarrow> (\<And>c. P c \<Longrightarrow> P' c) \<Longrightarrow> within P' Q m"
  by (auto simp: within_def)

text \<open>
  C33. With an option that prints something, with \<^verbatim>\<open>--rewrite-config\<close> or with
  \<^verbatim>\<open>--show-experimental\<close>, the program configures the logger once, with the level that depends only on
  \<^verbatim>\<open>--debug\<close>, and ends without having done anything else that it does to serve: no server is started, no
  PID file written, no limit, host address or log level of the SIP stack changed, the logger is not
  configured again, and no SNMP agent, registrar database or main loop is started. With an option that
  prints something it does not even load the configuration file.
\<close>

theorem early_exit:
  assumes p: "cmd_parse M argv = Parsed opts"
    and e: "prints opts \<or> rewriteConf opts \<or> displayExperimental opts"
  shows "\<exists>first later. fst (flexisip_main M argv) = LoggerConfigure first # later
    \<and> level first = (if useDebug opts then LOG_DEBUG M else LOG_WARNING M)
    \<and> list_all (\<lambda>c. \<not> serving_call c) later
    \<and> (prints opts \<longrightarrow> list_all (\<lambda>c. \<not> is_load c) later)
    \<and> (\<forall>code y. snd (flexisip_main M argv) = Inr (code, y) \<longrightarrow> y = None)"
proof -
  let ?P = "\<lambda>c. \<not> serving_call c \<and> \<not> is_load c"
  define k where "k = (\<lambda>c. if prints opts then ?P c else \<not> serving_call c)"
  have parse: "main_parse M argv = ret opts" by (simp add: main_parse_def p)
  obtain first m where m: "main_configure M opts = seqA (call (LoggerConfigure first)) (\<lambda>_. m)"
    "level first = (if useDebug opts then LOG_DEBUG M else LOG_WARNING M)" "within ?P (\<lambda>_. True) m"
    by (rule main_configure_split)
  define rest where "rest = seqA m (\<lambda>_. seqA (main_listing M opts) (\<lambda>early.
     case early of
       Some code \<Rightarrow> ret (code, None)
     | None \<Rightarrow>
         seqA (main_load M opts) (\<lambda>early'.
         case early' of
           Some code \<Rightarrow> ret (code, None)
         | None \<Rightarrow>
             seqA (setup_stack M opts) (\<lambda>logLevel.
             seqA (setup_logger M opts logLevel) (\<lambda>_.
             seqA (setup_services M) (\<lambda>_.
             seqA (main_serve M) (\<lambda>y.
             seqA (main_stop M opts y) (\<lambda>(code, y').
               ret (code, Some y')))))))))"
  have eq: "flexisip_main M argv = seqA (call (LoggerConfigure first)) (\<lambda>_. rest)"
    by (simp add: flexisip_main_def parse m(1) seqA_assoc rest_def)
  have w: "within k (\<lambda>_. True) m" "within k (\<lambda>_. True) (main_listing M opts)"
    "\<not> prints opts \<Longrightarrow> within k (\<lambda>_. True) (main_load M opts)"
    using m(3) [THEN within_mono [where P' = k]] within_early(1) [of M opts, THEN within_mono [where P' = k]]
      within_early(2) [of M opts, THEN within_mono [where P' = k]] by (auto simp: k_def)
  have "within k (\<lambda>_. True) rest"
    unfolding rest_def using w e listing_leaves [of opts M] loading_leaves [of opts M]
    by (intro within_seqA) (auto intro!: within_intros split: option.split)
  then have "list_all k (fst rest)" by (simp add: within_def list_all_iff)
  then have "list_all (\<lambda>c. \<not> serving_call c) (fst rest)"
    "prints opts \<longrightarrow> list_all (\<lambda>c. \<not> is_load c) (fst rest)"
    by (auto simp: k_def list_all_iff split: if_splits)
  moreover have "y = None" if "snd (flexisip_main M argv) = Inr (code, y)" for code y
    using that e listing_leaves [of opts M] loading_leaves [of opts M] unfolding eq rest_def
    by (auto simp: snd_seqA_Inr_iff split: option.splits)
  moreover have "fst (flexisip_main M argv) = LoggerConfigure first # fst rest"
    by (simp add: eq fst_seqA)
  ultimately show ?thesis using m(2) by blast
qed

theorem early_exit_witness:
  "snd (flexisip_main (sample_main\<lparr>cmd_parse := \<lambda>_. Parsed sample_options\<rparr>) []) = Inr (EXIT_SUCCESS, None)
   \<and> list_all (\<lambda>c. \<not> serving_call c)
        (tl (fst (flexisip_main (sample_main\<lparr>cmd_parse := \<lambda>_. Parsed sample_options\<rparr>) [])))"
proof -
  let ?M = "sample_main\<lparr>cmd_parse := \<lambda>_. Parsed sample_options\<rparr>"
  have "cmd_parse ?M [] = Parsed sample_options" by simp
  moreover have "prints sample_options" by (simp add: prints_def sample_options_def)
  ultimately have "list_all (\<lambda>c. \<not> serving_call c) (tl (fst (flexisip_main ?M [])))"
    using early_exit [of ?M "[]" sample_options] by (metis list.sel(3))
  moreover have "snd (flexisip_main ?M []) = Inr (EXIT_SUCCESS, None)"
    by (simp add: flexisip_main_def main_parse_def main_configure_def main_listing_def sample_options_def
        sample_main_def snd_seqA outputs_def)
  ultimately show ?thesis by blast
qed

section \<open>The exit status\<close>

text \<open>
  The calls before the server is started whose exceptions are those of the linked code, of whatever
  class; elsewhere the program lets out only exceptions of the server and the configuration.
\<close>

definition open_calls_of :: "Options \<Rightarrow> main_call list" where
  "open_calls_of opts = [Load (configFile opts) (rewriteConf opts), Api ''AuthDb'' [], Api ''RegistrarDb'' [],
     Api ''Agent'' []]"

definition from_library :: "main_lib \<Rightarrow> Options \<Rightarrow> main_error \<Rightarrow> bool" where
  "from_library M opts e \<longleftrightarrow> (\<exists>c \<in> set (open_calls_of opts). lib_raises M c = Some e)"

fun own_error :: "main_error \<Rightarrow> bool" where
  "own_error (Thrown e) = True"
| "own_error (BadValue n) = True"
| "own_error (Undefined f) = True"
| "own_error NoReturn = True"
| "own_error _ = False"

lemma within_phases:
  fixes M opts
  defines "Q \<equiv> \<lambda>e. own_error e \<or> from_library M opts e"
  shows "within (\<lambda>_. True) Q (main_configure M opts)"
    "within (\<lambda>_. True) Q (main_listing M opts)"
    "within (\<lambda>_. True) Q (main_load M opts)"
    "within (\<lambda>_. True) Q (setup_stack M opts)"
    "within (\<lambda>_. True) Q (setup_logger M opts lvl)"
    "within (\<lambda>_. True) Q (setup_services M)"
    "within (\<lambda>_. True) Q (main_serve M)"
    "within (\<lambda>_. True) Q (main_stop M opts y)"
proof -
  have l: "\<forall>e. lib_raises M c = Some e \<longrightarrow> Q e" if "c \<in> set (open_calls_of opts)" for c
    using that by (auto simp: Q_def from_library_def)
  have o: "own_error e \<Longrightarrow> Q e" for e by (simp add: Q_def)
  show "within (\<lambda>_. True) Q (main_configure M opts)"
    by (auto simp: main_configure_def Let_def intro!: within_intros)
  show "within (\<lambda>_. True) Q (main_listing M opts)"
    by (auto simp: main_listing_def Let_def intro!: within_intros o)
  show "within (\<lambda>_. True) Q (main_load M opts)"
    by (auto simp: main_load_def open_calls_of_def intro!: within_intros l o)
  show "within (\<lambda>_. True) Q (setup_stack M opts)"
    by (auto simp: setup_stack_def intro!: within_intros o)
  show "within (\<lambda>_. True) Q (setup_logger M opts lvl)"
    by (auto simp: setup_logger_def Let_def intro!: within_intros o split: option.split)
  show "within (\<lambda>_. True) Q (setup_services M)"
    by (auto simp: setup_services_def open_calls_of_def intro!: within_intros l o split: option.split)
  show "within (\<lambda>_. True) Q (main_serve M)"
    by (auto simp: main_serve_def intro!: within_intros o)
  show "within (\<lambda>_. True) Q (main_stop M opts y)"
    by (auto simp: main_stop_def intro!: within_intros o split: option.split)
qed

lemma listing_code:
  "snd (main_listing M opts) = Inr (Some code) \<Longrightarrow> prints opts \<and> code = EXIT_SUCCESS"
  by (auto simp: main_listing_def prints_def Let_def snd_seqA outputs_def api_def
      split: sum.splits if_splits)

lemma loading_code:
  "snd (main_load M opts) = Inr (Some code) \<Longrightarrow> code = (if rewriteConf opts then EXIT_SUCCESS else EXIT_FAILURE)"
  by (auto simp: main_load_def snd_seqA guardA_def lcall_def split: sum.splits option.splits if_splits)

lemma stop_code:
  "snd (main_stop M opts y) = Inr (code, y') \<Longrightarrow>
     cleanup_loop (clock M) (cleanup_tasks M) (stop_time M + 5000) EXIT_SUCCESS 0 = Some code"
  by (auto simp: main_stop_def snd_seqA_Inr_iff split: option.splits)

text \<open>The code with which the main program returns: early, or after the server was stopped.\<close>

lemma returned_code:
  assumes "cmd_parse M argv = Parsed opts" and "snd (flexisip_main M argv) = Inr (code, y)"
  shows "case y of
      None \<Rightarrow> code = (if prints opts \<or> rewriteConf opts then EXIT_SUCCESS else EXIT_FAILURE)
    | Some y' \<Rightarrow> cleanup_loop (clock M) (cleanup_tasks M) (stop_time M + 5000) EXIT_SUCCESS 0 = Some code"
proof -
  have "main_parse M argv = ret opts" by (simp add: main_parse_def assms(1))
  with assms(2) show ?thesis
    using listing_leaves [of opts M]
    by (auto simp: flexisip_main_def snd_seqA_Inr_iff split: option.splits
        dest!: listing_code loading_code stop_code)
qed

text \<open>
  C34. The exit status of the program is 0 exactly in these cases. The command line library exits with
  0 itself (as for \<^verbatim>\<open>--help\<close>), or the status its error handler gives is 0. The program prints what an
  option asks for, or rewrites the configuration, without an exception. It serves, and all
  clean-up tasks finish within five seconds of the stop. An exception of the configuration or the server
  leaves the main program whose class has the exit code 0, or an exception \<^verbatim>\<open>ExitSuccess\<close> or with code
  0, and then it came from loading the configuration file or from creating the authentication database,
  the registrar database or the agent.
\<close>

theorem exit_status:
  "snd (program_main M argv) = Inr EXIT_SUCCESS \<longleftrightarrow>
    (case cmd_parse M argv of
       ParseExit n \<Rightarrow> n = 0
     | ParseError m \<Rightarrow> cmd_failure M m = 0
     | Parsed opts \<Rightarrow>
         (case snd (flexisip_main M argv) of
            Inr (code, None) \<Rightarrow> prints opts \<or> rewriteConf opts
          | Inr (code, Some y) \<Rightarrow>
              cleanup_loop (clock M) (cleanup_tasks M) (stop_time M + 5000) EXIT_SUCCESS 0 = Some EXIT_SUCCESS
          | Inl (Thrown e) \<Rightarrow> exit_code_of M e = Some 0
          | Inl (BadValue n) \<Rightarrow> exit_code_of M (BadConfigurationValue n '''') = Some 0
          | Inl e \<Rightarrow> e \<in> {TclapExitException 0} \<union> range ExitSuccess \<union> range (Exit 0)
              \<and> from_library M opts e))"
proof (cases "cmd_parse M argv")
  case (Parsed opts)
  then have "main_parse M argv = ret opts" by (simp add: main_parse_def)
  then have w: "within (\<lambda>_. True) (\<lambda>e. own_error e \<or> from_library M opts e) (flexisip_main M argv)"
    unfolding flexisip_main_def using within_phases [of M opts]
    by (auto intro!: within_intros split: option.split)
  show ?thesis
  proof (cases "snd (flexisip_main M argv)")
    case (Inl e)
    with w have "own_error e \<or> from_library M opts e" by (simp add: within_def)
    with Inl Parsed show ?thesis
      by (cases e)
        (auto simp: program_main_def EXIT_SUCCESS_def EXIT_FAILURE_def split: option.split list.split)
  next
    case (Inr r)
    then obtain code y where r: "snd (flexisip_main M argv) = Inr (code, y)" by (cases r) simp
    with returned_code [OF Parsed r] Parsed show ?thesis
      by (cases y) (auto simp: program_main_def EXIT_SUCCESS_def EXIT_FAILURE_def)
  qed
next
  case (ParseExit n)
  then show ?thesis
    by (auto simp: program_main_def flexisip_main_def main_parse_def EXIT_SUCCESS_def)
next
  case (ParseError m)
  then show ?thesis
    by (auto simp: program_main_def flexisip_main_def main_parse_def EXIT_SUCCESS_def)
qed

theorem exit_status_witness:
  "snd (program_main (sample_main\<lparr>cmd_parse := \<lambda>_. Parsed sample_options\<rparr>) []) = Inr EXIT_SUCCESS
   \<and> snd (program_main (sample_main\<lparr>cmd_parse := \<lambda>_. ParseError ''x''\<rparr>) []) \<noteq> Inr EXIT_SUCCESS"
proof
  show "snd (program_main (sample_main\<lparr>cmd_parse := \<lambda>_. Parsed sample_options\<rparr>) []) = Inr EXIT_SUCCESS"
    by (subst exit_status)
      (simp add: flexisip_main_def main_parse_def main_configure_def main_listing_def sample_options_def
        sample_main_def snd_seqA outputs_def prints_def)
  show "snd (program_main (sample_main\<lparr>cmd_parse := \<lambda>_. ParseError ''x''\<rparr>) []) \<noteq> Inr EXIT_SUCCESS"
    by (subst exit_status) (simp add: sample_main_def)
qed

end
